(* ===== verification/Prelude.thy ===== *)
theory Prelude
  imports Main "HOL-Library.Word"
begin

text \<open>
  Shared ground of the development: the integer types of \<^verbatim>\<open>src/src/kb/types.h\<close>, the faults a C++
  execution can end in, the result type that carries them, byte buffers with checked accesses,
  and the little-endian object representation of a 32-bit integer.

  A value of type \<open>fault + 'a\<close> is the outcome of a piece of C++: \<open>Inr\<close> a normal return, \<open>Inl\<close> an
  execution that leaves the defined behaviour of the language or ends the process. The code is
  compiled \<^verbatim>\<open>noexcept\<close> throughout, so an exception that escapes is \<open>std::terminate\<close>.
\<close>

unbundle bit_operations_syntax

named_theorems result_simps \<open>evaluation of the result type\<close>
named_theorems buffer_simps \<open>evaluation of buffer accesses that are in range\<close>

section \<open>Machine integers\<close>

type_synonym u8 = "8 word"
type_synonym u16 = "16 word"
type_synonym u32 = "32 word"
type_synonym u64 = "64 word"
type_synonym i32 = int

text \<open>No arithmetic is done on \<^verbatim>\<open>i32\<close>: reasons are handed on, and counts are converted below.\<close>

text \<open>\<^verbatim>\<open>std::size_t\<close> is a 64-bit unsigned integer: sums of sizes wrap around.\<close>

definition size_add :: "nat \<Rightarrow> nat \<Rightarrow> nat" where
  "size_add a b = (a + b) mod 2 ^ 64"

lemma size_add_exact [buffer_simps]: "a + b < 2 ^ 64 \<Longrightarrow> size_add a b = a + b"
  by (simp add: size_add_def)

text \<open>A size cast to \<^verbatim>\<open>u32\<close>.\<close>

lemma u32_of_size: "n < 2 ^ 32 \<Longrightarrow> unat (of_nat n :: u32) = n"
  by (simp add: unat_of_nat take_bit_nat_eq_self)

text \<open>An \<^verbatim>\<open>int\<close> stored in a \<^verbatim>\<open>u32\<close>, read back as a loop bound.\<close>

definition u32_count :: "i32 \<Rightarrow> nat" where
  "u32_count n = unat (word_of_int n :: u32)"

lemma u32_count_nat [simp]: "n < 2 ^ 32 \<Longrightarrow> u32_count (int n) = n"
  by (simp add: u32_count_def unsigned_of_nat take_bit_nat_eq_self)

text \<open>An \<^verbatim>\<open>int\<close> compared with a \<^verbatim>\<open>size_t\<close>: it is converted to 64 bits, modulo \<open>2 ^ 64\<close>.\<close>

definition size_count :: "i32 \<Rightarrow> nat" where
  "size_count n = unat (word_of_int n :: u64)"

lemma size_count_nat [simp]: "n < 2 ^ 64 \<Longrightarrow> size_count (int n) = n"
  by (simp add: size_count_def unsigned_of_nat take_bit_nat_eq_self)

lemma size_count_minus_one: "size_count (-1) = 2 ^ 64 - 1"
  by (simp add: size_count_def unsigned_minus_1_eq_mask mask_eq_exp_minus_1)

lemma u32_count_minus_one: "u32_count (-1) = 2 ^ 32 - 1"
  by (simp add: u32_count_def unsigned_minus_1_eq_mask mask_eq_exp_minus_1)

section \<open>Outcomes\<close>

datatype fault =
    Out_of_bounds
  | Uninitialised_read
  | Use_after_free
  | Null_pointer
  | Assert_failed
  | Terminate
  | Abort_called

type_synonym 'a result = "fault + 'a"

definition bind_result :: "'a result \<Rightarrow> ('a \<Rightarrow> 'b result) \<Rightarrow> 'b result" where
  "bind_result m f = (case m of Inl e \<Rightarrow> Inl e | Inr x \<Rightarrow> f x)"

lemma bind_result_simps [simp, result_simps]:
  "bind_result (Inl e) f = Inl e"
  "bind_result (Inr x) f = f x"
  by (simp_all add: bind_result_def)

lemma bind_result_eq_Inr [result_simps]:
  "bind_result m f = Inr y \<longleftrightarrow> (\<exists>x. m = Inr x \<and> f x = Inr y)"
  by (cases m) simp_all

lemma bind_result_eq_Inl:
  "bind_result m f = Inl e \<longleftrightarrow> m = Inl e \<or> (\<exists>x. m = Inr x \<and> f x = Inl e)"
  by (cases m) simp_all

lemma bind_result_assoc:
  "bind_result (bind_result m f) g = bind_result m (\<lambda>x. bind_result (f x) g)"
  by (cases m) simp_all

lemma bind_result_Inr_right [simp]: "bind_result m Inr = m"
  by (cases m) simp_all

definition kb_assert :: "bool \<Rightarrow> unit result" where
  "kb_assert b = (if b then Inr () else Inl Assert_failed)"

lemma kb_assert_simps [simp, result_simps]:
  "b \<Longrightarrow> kb_assert b = Inr ()"
  "\<not> b \<Longrightarrow> kb_assert b = Inl Assert_failed"
  by (simp_all add: kb_assert_def)

section \<open>Byte buffers\<close>

text \<open>
  A buffer is the list of its bytes; an access past its end is a fault. \<open>new_u8 junk n\<close> is
  \<^verbatim>\<open>new u8[n]\<close>: the bytes are whatever was there before, given by \<open>junk\<close>.
\<close>

definition new_u8 :: "(nat \<Rightarrow> u8) \<Rightarrow> nat \<Rightarrow> u8 list" where
  "new_u8 junk n = map junk [0..<n]"

definition buf_read :: "u8 list \<Rightarrow> nat \<Rightarrow> u8 result" where
  "buf_read buf i = (if i < length buf then Inr (buf ! i) else Inl Out_of_bounds)"

definition buf_write :: "u8 list \<Rightarrow> nat \<Rightarrow> u8 \<Rightarrow> u8 list result" where
  "buf_write buf i v = (if i < length buf then Inr (buf[i := v]) else Inl Out_of_bounds)"

text \<open>\<open>memcpy_in buf off src\<close> copies all of \<open>src\<close> to \<open>buf + off\<close>; \<open>memcpy_out buf off n\<close> reads
  \<open>n\<close> bytes from \<open>buf + off\<close>.\<close>

definition memcpy_in :: "u8 list \<Rightarrow> nat \<Rightarrow> u8 list \<Rightarrow> u8 list result" where
  "memcpy_in buf off src =
     (if off + length src \<le> length buf
      then Inr (take off buf @ src @ drop (off + length src) buf)
      else Inl Out_of_bounds)"

definition memcpy_out :: "u8 list \<Rightarrow> nat \<Rightarrow> nat \<Rightarrow> u8 list result" where
  "memcpy_out buf off n =
     (if off + n \<le> length buf then Inr (take n (drop off buf)) else Inl Out_of_bounds)"

lemma length_new_u8 [simp]: "length (new_u8 junk n) = n"
  by (simp add: new_u8_def)

lemma buf_read_in [buffer_simps]: "i < length buf \<Longrightarrow> buf_read buf i = Inr (buf ! i)"
  by (simp add: buf_read_def)

lemma buf_write_in [buffer_simps]: "i < length buf \<Longrightarrow> buf_write buf i v = Inr (buf[i := v])"
  by (simp add: buf_write_def)

lemma memcpy_in_in [buffer_simps]:
  "off + length src \<le> length buf \<Longrightarrow>
   memcpy_in buf off src = Inr (take off buf @ src @ drop (off + length src) buf)"
  by (simp add: memcpy_in_def)

lemma memcpy_out_in [buffer_simps]:
  "off + n \<le> length buf \<Longrightarrow> memcpy_out buf off n = Inr (take n (drop off buf))"
  by (simp add: memcpy_out_def)

text \<open>Writing the byte that follows a filled prefix extends the prefix by it.\<close>

lemma write_after_prefix [buffer_simps]:
  "buf_write (pre @ x # rest) (length pre) v = Inr ((pre @ [v]) @ rest)"
  by (simp add: buf_write_def)

lemma memcpy_after_prefix [buffer_simps]:
  "length src \<le> length rest \<Longrightarrow>
   memcpy_in (pre @ rest) (length pre) src = Inr ((pre @ src) @ drop (length src) rest)"
  by (simp add: memcpy_in_def)

section \<open>Object representation of a 32-bit integer\<close>

text \<open>
  \<^verbatim>\<open>std::memcpy\<close> of a \<^verbatim>\<open>u32\<close> copies its object representation. The byte order is the host's;
  the model takes a little-endian host, which is what \<^verbatim>\<open>src/tests/net/test_serde.cpp\<close> expects of
  bytes 4 to 7 of a packet.
\<close>

definition u32_to_bytes :: "u32 \<Rightarrow> u8 list" where
  "u32_to_bytes x = map (\<lambda>i. ucast (drop_bit (8 * i) x)) [0..<4]"

definition u32_of_bytes :: "u8 list \<Rightarrow> u32" where
  "u32_of_bytes bs = foldr (\<lambda>b acc. ucast b OR push_bit 8 acc) bs 0"

lemma u32_to_bytes_eq:
  "u32_to_bytes x = [ucast x, ucast (drop_bit 8 x), ucast (drop_bit 16 x), ucast (drop_bit 24 x)]"
  by (simp add: u32_to_bytes_def upt_rec)

lemma u32_of_bytes_eq:
  "u32_of_bytes [a, b, c, d] =
   ucast a OR push_bit 8 (ucast b) OR push_bit 16 (ucast c) OR push_bit 24 (ucast d)"
  by (simp add: u32_of_bytes_def)

lemma length_u32_to_bytes [simp]: "length (u32_to_bytes x) = 4"
  by (simp add: u32_to_bytes_def)

lemma u32_of_to_bytes [simp]: "u32_of_bytes (u32_to_bytes x) = x"
  unfolding u32_to_bytes_eq u32_of_bytes_eq
proof (rule bit_word_eqI)
  fix n assume "n < LENGTH(32)"
  then consider "n < 8" | "8 \<le> n" "n < 16" | "16 \<le> n" "n < 24" | "24 \<le> n" "n < 32"
    by fastforce
  then show "bit (ucast (ucast x :: u8) OR push_bit 8 (ucast (ucast (drop_bit 8 x) :: u8)) OR
      push_bit 16 (ucast (ucast (drop_bit 16 x) :: u8)) OR
      push_bit 24 (ucast (ucast (drop_bit 24 x) :: u8)) :: u32) n = bit x n"
    by cases (auto simp: bit_simps dest: bit_imp_le_length)
qed

lemma u32_to_of_bytes: "length bs = 4 \<Longrightarrow> u32_to_bytes (u32_of_bytes bs) = bs"
proof -
  assume "length bs = 4"
  then obtain a b c d where "bs = [a, b, c, d]"
    by (auto simp: numeral_eq_Suc length_Suc_conv)
  then show ?thesis
    unfolding u32_to_bytes_eq
    by (simp add: u32_of_bytes_eq) (intro conjI; rule bit_word_eqI; auto simp: bit_simps dest: bit_imp_le_length)
qed

lemma u32_to_bytes_inject [simp]: "u32_to_bytes x = u32_to_bytes y \<longleftrightarrow> x = y"
  using u32_of_to_bytes by metis

section \<open>Threads\<close>

text \<open>Where a network thread is: not started, before the loop test, before the poll, returned. The
  application thread is between two calls, or inside a \<^verbatim>\<open>stop\<close> that joins the thread of an object.\<close>

datatype net_pc = Net_none | Net_check | Net_poll | Net_exited

datatype app_pc = App_idle | App_joining nat

end
