(* ===== verification/Network_Types.thy ===== *)
theory Network_Types
  imports Prelude
begin

text \<open>
  The value types shared by client and server: \<^verbatim>\<open>src/include/kb/net/kb_network_types.h\<close>,
  \<^verbatim>\<open>src/src/kb/net/network_types.h\<close> and \<^verbatim>\<open>network_types.cpp\<close>, and the address check of
  \<^verbatim>\<open>network_utils.cpp\<close>. The address type of the Steam library and its two functions the code
  calls (\<^verbatim>\<open>IsIPv4\<close>, \<^verbatim>\<open>ParseString\<close>) are parameters.
\<close>

section \<open>Status codes and reserved identifiers\<close>

datatype kb_status_t =
    KB_STATUS_OK
  | KB_STATUS_ERROR_INVALID_ARG
  | KB_STATUS_ERROR_BAD_STATE
  | KB_STATUS_ERROR_ALLOC
  | KB_STATUS_ERROR_IO
  | KB_STATUS_ERROR_TIMEOUT
  | KB_STATUS_ERROR_NOT_IMPLEMENTED
  | KB_STATUS_ERROR_INTERNAL

primrec kb_status_value :: "kb_status_t \<Rightarrow> i32" where
  "kb_status_value KB_STATUS_OK = 0"
| "kb_status_value KB_STATUS_ERROR_INVALID_ARG = -1"
| "kb_status_value KB_STATUS_ERROR_BAD_STATE = -2"
| "kb_status_value KB_STATUS_ERROR_ALLOC = -3"
| "kb_status_value KB_STATUS_ERROR_IO = -4"
| "kb_status_value KB_STATUS_ERROR_TIMEOUT = -5"
| "kb_status_value KB_STATUS_ERROR_NOT_IMPLEMENTED = -6"
| "kb_status_value KB_STATUS_ERROR_INTERNAL = -127"

type_synonym packet_type_t = u32
type_synonym kb_connection_t = u32
type_synonym listen_socket_t = u32
type_synonym poll_group_t = u32

definition KB_PACKET_ID_UNKNOWN :: packet_type_t where
  "KB_PACKET_ID_UNKNOWN = 0"

definition KB_PACKET_ID_RESERVED :: packet_type_t where
  "KB_PACKET_ID_RESERVED = 127"

definition KB_CONNECTION_INVALID :: kb_connection_t where
  "KB_CONNECTION_INVALID = 0"

definition k_invalid_connection :: kb_connection_t where
  "k_invalid_connection = KB_CONNECTION_INVALID"

definition k_invalid_listen_socket :: listen_socket_t where
  "k_invalid_listen_socket = 0"

definition k_invalid_poll_group :: poll_group_t where
  "k_invalid_poll_group = 0"

text \<open>\<^verbatim>\<open>enum class internal_packet_id_t\<close>, used through \<^verbatim>\<open>static_cast<packet_type_t>\<close>.\<close>

datatype internal_packet_id_t = Packet_id_unknown | Packet_id_reserved

primrec packet_type_of_id :: "internal_packet_id_t \<Rightarrow> packet_type_t" where
  "packet_type_of_id Packet_id_unknown = KB_PACKET_ID_UNKNOWN"
| "packet_type_of_id Packet_id_reserved = KB_PACKET_ID_RESERVED"

text \<open>
  \<^verbatim>\<open>enum class serialization_type_t : u8\<close>. An enumeration with a fixed underlying type holds any
  value of that type, and the code casts a received byte to it without a check, so the type is
  the byte and the enumerators are constants.
\<close>

type_synonym serialization_type_t = u8

definition serde_bin :: serialization_type_t where
  "serde_bin = 0"

definition serde_msgpack :: serialization_type_t where
  "serde_msgpack = 1"

definition serde_custom :: serialization_type_t where
  "serde_custom = 7"

definition k_default_serde_type :: serialization_type_t where
  "k_default_serde_type = serde_msgpack"

lemmas serde_defs = serde_bin_def serde_msgpack_def serde_custom_def

lemmas handle_defs =
  k_invalid_connection_def KB_CONNECTION_INVALID_def k_invalid_listen_socket_def
  k_invalid_poll_group_def KB_PACKET_ID_UNKNOWN_def KB_PACKET_ID_RESERVED_def

text \<open>\<^verbatim>\<open>incoming_message_t<std::span<const char>>\<close>: a view of \<open>length\<close> bytes.\<close>

record incoming_view_message_t =
  msg_conn :: kb_connection_t
  msg_buffer :: "u8 list"

section \<open>Addresses\<close>

text \<open>
  The anonymous union of \<^verbatim>\<open>ip_address_t\<close> is its 16 bytes: \<^verbatim>\<open>m_ipv6[16]\<close> or an
  \<^verbatim>\<open>IPv4MappedAddress\<close> of a \<^verbatim>\<open>u64\<close>, two \<^verbatim>\<open>u16\<close> and four bytes.
\<close>

definition sizeof_ipv6 :: nat where
  "sizeof_ipv6 = 16"

definition sizeof_IPv4MappedAddress :: nat where
  "sizeof_IPv4MappedAddress = 8 + 2 + 2 + 4"

record ip_address_t =
  ip_union :: "u8 list"
  ip_port :: u16

text \<open>\<^verbatim>\<open>SteamNetworkingIPAddr\<close>: the same union and a port; the source copies its layout.\<close>

record steam_ip_addr =
  sa_union :: "u8 list"
  sa_port :: u16

definition ip_address_zero :: ip_address_t where
  "ip_address_zero = \<lparr>ip_union = replicate sizeof_ipv6 0, ip_port = 0\<rparr>"

text \<open>\<^verbatim>\<open>memcpy(dst, src, n)\<close> between two members of static size.\<close>

definition copy_bytes :: "nat \<Rightarrow> u8 list \<Rightarrow> u8 list \<Rightarrow> u8 list" where
  "copy_bytes n dst src = take n src @ drop n dst"

definition copy_steam_to_ip_address ::
  "(steam_ip_addr \<Rightarrow> bool) \<Rightarrow> ip_address_t \<Rightarrow> steam_ip_addr \<Rightarrow> ip_address_t" where
  "copy_steam_to_ip_address is_ipv4 kb_addr steam_addr =
     (let kb_addr = kb_addr\<lparr>ip_port := sa_port steam_addr\<rparr> in
      if is_ipv4 steam_addr
      then kb_addr\<lparr>ip_union := copy_bytes sizeof_IPv4MappedAddress (ip_union kb_addr) (sa_union steam_addr)\<rparr>
      else kb_addr\<lparr>ip_union := copy_bytes sizeof_ipv6 (ip_union kb_addr) (sa_union steam_addr)\<rparr>)"

text \<open>The converting constructor; the bytes of \<^verbatim>\<open>*this\<close> are not initialised before it runs.\<close>

definition ip_address_of_steam ::
  "(steam_ip_addr \<Rightarrow> bool) \<Rightarrow> u8 list \<Rightarrow> steam_ip_addr \<Rightarrow> ip_address_t" where
  "ip_address_of_steam is_ipv4 uninit steam_addr =
     copy_steam_to_ip_address is_ipv4 \<lparr>ip_union = uninit, ip_port = sa_port steam_addr\<rparr> steam_addr"

definition ip_address_assign ::
  "(steam_ip_addr \<Rightarrow> bool) \<Rightarrow> ip_address_t \<Rightarrow> steam_ip_addr \<Rightarrow> ip_address_t" where
  "ip_address_assign is_ipv4 self steam_addr = copy_steam_to_ip_address is_ipv4 self steam_addr"

definition ip_address_ok :: "ip_address_t \<Rightarrow> bool" where
  "ip_address_ok a \<longleftrightarrow> length (ip_union a) = sizeof_ipv6"

definition steam_addr_ok :: "steam_ip_addr \<Rightarrow> bool" where
  "steam_addr_ok a \<longleftrightarrow> length (sa_union a) = sizeof_ipv6"

lemma ip_address_zero_ok: "ip_address_ok ip_address_zero"
  by (simp add: ip_address_ok_def ip_address_zero_def)

lemma copy_steam_to_ip_address_eq:
  assumes "ip_address_ok d" and "steam_addr_ok a"
  shows "copy_steam_to_ip_address f d a = \<lparr>ip_union = sa_union a, ip_port = sa_port a\<rparr>"
  using assms
  by (simp add: copy_steam_to_ip_address_def Let_def copy_bytes_def ip_address_ok_def
      steam_addr_ok_def sizeof_ipv6_def sizeof_IPv4MappedAddress_def)

lemma ip_address_assign_ok:
  "ip_address_ok d \<Longrightarrow> steam_addr_ok a \<Longrightarrow> ip_address_ok (ip_address_assign f d a)"
  by (simp add: ip_address_assign_def copy_steam_to_ip_address_eq) (simp add: ip_address_ok_def steam_addr_ok_def)

section \<open>network_utils.cpp\<close>

text \<open>
  \<^verbatim>\<open>ParseString\<close> gets \<^verbatim>\<open>p_ip_address.data()\<close>, a C string: what it sees ends at the first NUL.
  \<open>parse\<close> is that function: the address it stores, \<open>None\<close> where it returns false.
\<close>

definition c_str :: "string \<Rightarrow> string" where
  "c_str s = takeWhile (\<lambda>c. c \<noteq> CHR 0x00) s"

definition is_valid_ip_address :: "(string \<Rightarrow> steam_ip_addr option) \<Rightarrow> string \<Rightarrow> bool" where
  "is_valid_ip_address parse p_ip_address =
     (if p_ip_address = [] then False else parse (c_str p_ip_address) \<noteq> None)"

end
