(* ===== verification/Third_Party.thy ===== *)
theory Third_Party
  imports Network_Types
begin

text \<open>
  What the program takes from libraries whose source is not in the repository, as parameters of
  the model: \<^verbatim>\<open>core::OwningBuffer\<close> of kb-std, msgpack-c and Steam's GameNetworkingSockets. A
  library is a record of functions that every definition using it takes as an argument. What a
  proof relies on is a named predicate (\<open>owning_buffer_ok\<close>, \<open>msgpack_ok\<close>, \<open>poll_groups_ok\<close>,
  \<open>sockets_ok\<close>, \<open>messages_ok\<close>) that states documented behaviour of that library.
\<close>

section \<open>kb-std: OwningBuffer\<close>

text \<open>\<^verbatim>\<open>OwningBuffer::consume(&data, size)\<close> takes the array over; \<^verbatim>\<open>data()\<close> and \<^verbatim>\<open>size()\<close> give it
  back (\<^verbatim>\<open>src/tests/core/test_owning_buffer.cpp\<close> tests exactly this).\<close>

record 'b owning_buffer_api =
  ob_consume :: "u8 list \<Rightarrow> nat \<Rightarrow> 'b"
  ob_data :: "'b \<Rightarrow> u8 list"
  ob_size :: "'b \<Rightarrow> nat"

definition owning_buffer_ok :: "'b owning_buffer_api \<Rightarrow> bool" where
  "owning_buffer_ok ob \<longleftrightarrow>
     (\<forall>bs. ob_data ob (ob_consume ob bs (length bs)) = bs \<and>
           ob_size ob (ob_consume ob bs (length bs)) = length bs)"

lemma owning_buffer_okD [simp]:
  "owning_buffer_ok ob \<Longrightarrow> n = length bs \<Longrightarrow> ob_data ob (ob_consume ob bs n) = bs"
  "owning_buffer_ok ob \<Longrightarrow> n = length bs \<Longrightarrow> ob_size ob (ob_consume ob bs n) = n"
  by (simp_all add: owning_buffer_ok_def)

section \<open>msgpack-c\<close>

text \<open>\<open>mp_unpack\<close> and \<open>mp_convert\<close> are \<open>None\<close> where the library throws.\<close>

record ('o, 'p) msgpack_api =
  mp_pack :: "'o \<Rightarrow> u8 list"
  mp_unpack :: "u8 list \<Rightarrow> 'p option"
  mp_convert :: "'p \<Rightarrow> 'o option"

definition msgpack_ok :: "('o, 'p) msgpack_api \<Rightarrow> bool" where
  "msgpack_ok mp \<longleftrightarrow> (\<forall>x. Option.bind (mp_unpack mp (mp_pack mp x)) (mp_convert mp) = Some x)"

lemma msgpack_okE:
  assumes "msgpack_ok mp"
  obtains p where "mp_unpack mp (mp_pack mp x) = Some p" and "mp_convert mp p = Some x"
  using assms by (auto simp: msgpack_ok_def bind_eq_Some_conv)

section \<open>GameNetworkingSockets\<close>

text \<open>The connection states the code names; \<open>State_other\<close> is every other enumerator of
  \<^verbatim>\<open>ESteamNetworkingConnectionState\<close>.\<close>

datatype steam_state =
    State_None
  | State_Connecting
  | State_Connected
  | State_ClosedByPeer
  | State_ProblemDetectedLocally
  | State_other int

record status_changed =
  sc_hConn :: kb_connection_t
  sc_eState :: steam_state
  sc_eOldState :: steam_state

text \<open>\<^verbatim>\<open>m_pData\<close> and \<^verbatim>\<open>m_cbSize\<close> are one list of bytes: the size Steam gives is its length.\<close>

record steam_message =
  sm_conn :: kb_connection_t
  sm_data :: "u8 list"

datatype eresult = EResultOK | EResultFail

datatype send_flag = Send_Reliable | Send_Unreliable

text \<open>
  The calls the program makes. The library's own state is unknown, so its answers are arbitrary
  functions of the calls made so far; a call that yields a handle is recorded with it.
\<close>

datatype steam_call =
    CreateListenSocketIP u16 listen_socket_t
  | CloseListenSocket listen_socket_t
  | CreatePollGroup poll_group_t
  | DestroyPollGroup poll_group_t
  | ReceiveMessagesOnPollGroup poll_group_t nat
  | ReceiveMessagesOnConnection kb_connection_t nat
  | ReleaseMessage steam_message
  | RunCallbacks
  | SendMessageToConnection kb_connection_t "u8 list" send_flag
  | AcceptConnection kb_connection_t
  | CloseConnection kb_connection_t i32 "string option" bool
  | SetConnectionPollGroup kb_connection_t poll_group_t
  | GetConnectionInfo kb_connection_t
  | ConnectByIPAddress steam_ip_addr kb_connection_t

type_synonym history = "steam_call list"

record steam_api =
  create_listen_socket :: "history \<Rightarrow> u16 \<Rightarrow> listen_socket_t"
  create_poll_group :: "history \<Rightarrow> poll_group_t"
  receive_on_poll_group :: "history \<Rightarrow> poll_group_t \<Rightarrow> nat \<Rightarrow> i32 \<times> steam_message list"
  receive_on_connection :: "history \<Rightarrow> kb_connection_t \<Rightarrow> nat \<Rightarrow> i32 \<times> steam_message list"
  run_callbacks :: "history \<Rightarrow> status_changed list"
  send_message :: "history \<Rightarrow> kb_connection_t \<Rightarrow> u8 list \<Rightarrow> send_flag \<Rightarrow> eresult"
  accept_connection :: "history \<Rightarrow> kb_connection_t \<Rightarrow> eresult"
  set_connection_poll_group :: "history \<Rightarrow> kb_connection_t \<Rightarrow> poll_group_t \<Rightarrow> bool"
  connection_info :: "history \<Rightarrow> kb_connection_t \<Rightarrow> steam_ip_addr"
  connect_by_ip :: "history \<Rightarrow> steam_ip_addr \<Rightarrow> kb_connection_t"
  parse_string :: "string \<Rightarrow> steam_ip_addr option"
  is_ipv4 :: "steam_ip_addr \<Rightarrow> bool"

text \<open>The world outside the networking objects: the calls made to Steam, and the state of the
  application that callbacks and handlers act on.\<close>

record 'w env =
  calls :: history
  app :: 'w

definition log_call :: "steam_call \<Rightarrow> 'w env \<Rightarrow> 'w env" where
  "log_call c e = e\<lparr>calls := calls e @ [c]\<rparr>"

lemma log_call_simps [simp]:
  "calls (log_call c e) = calls e @ [c]"
  "app (log_call c e) = app e"
  by (simp_all add: log_call_def)

subsection \<open>Handles\<close>

text \<open>The poll groups and listen sockets that exist after a history.\<close>

fun live_poll_group_step :: "poll_group_t set \<Rightarrow> steam_call \<Rightarrow> poll_group_t set" where
  "live_poll_group_step S (CreatePollGroup g) = (if g = 0 then S else insert g S)"
| "live_poll_group_step S (DestroyPollGroup g) = S - {g}"
| "live_poll_group_step S _ = S"

definition live_poll_groups :: "history \<Rightarrow> poll_group_t set" where
  "live_poll_groups h = foldl live_poll_group_step {} h"

fun live_socket_step :: "listen_socket_t set \<Rightarrow> steam_call \<Rightarrow> listen_socket_t set" where
  "live_socket_step S (CreateListenSocketIP p s) = (if s = 0 then S else insert s S)"
| "live_socket_step S (CloseListenSocket s) = S - {s}"
| "live_socket_step S _ = S"

definition live_sockets :: "history \<Rightarrow> listen_socket_t set" where
  "live_sockets h = foldl live_socket_step {} h"

text \<open>The connections that exist: opened, or accepted, and not closed.\<close>

fun live_connection_step :: "kb_connection_t set \<Rightarrow> steam_call \<Rightarrow> kb_connection_t set" where
  "live_connection_step S (ConnectByIPAddress a c) = (if c = 0 then S else insert c S)"
| "live_connection_step S (AcceptConnection c) = (if c = 0 then S else insert c S)"
| "live_connection_step S (CloseConnection c r m l) = S - {c}"
| "live_connection_step S _ = S"

definition live_connections :: "history \<Rightarrow> kb_connection_t set" where
  "live_connections h = foldl live_connection_step {} h"

lemma live_connections_simps [simp]:
  "live_connections [] = {}"
  "live_connections (h @ [c]) = live_connection_step (live_connections h) c"
  by (simp_all add: live_connections_def)

lemma live_simps [simp]:
  "live_poll_groups [] = {}"
  "live_poll_groups (h @ [c]) = live_poll_group_step (live_poll_groups h) c"
  "live_sockets [] = {}"
  "live_sockets (h @ [c]) = live_socket_step (live_sockets h) c"
  by (simp_all add: live_poll_groups_def live_sockets_def)

text \<open>Documented behaviour: a handle that is returned is 0 (failure) or not in use.\<close>

definition poll_groups_ok :: "steam_api \<Rightarrow> bool" where
  "poll_groups_ok st \<longleftrightarrow> (\<forall>h. create_poll_group st h \<notin> live_poll_groups h)"

definition sockets_ok :: "steam_api \<Rightarrow> bool" where
  "sockets_ok st \<longleftrightarrow> (\<forall>h p. create_listen_socket st h p \<notin> live_sockets h)"

text \<open>Documented behaviour of the two receive calls: at most as many messages as asked for, and
  the number of them; \<open>-1\<close> (with no message) for an invalid handle.\<close>

definition messages_ok :: "steam_api \<Rightarrow> bool" where
  "messages_ok st \<longleftrightarrow>
     (\<forall>h g n. g \<in> live_poll_groups h \<longrightarrow>
        fst (receive_on_poll_group st h g n) = int (length (snd (receive_on_poll_group st h g n))) \<and>
        length (snd (receive_on_poll_group st h g n)) \<le> n) \<and>
     (\<forall>h g n. g \<notin> live_poll_groups h \<longrightarrow> receive_on_poll_group st h g n = (-1, []))"

definition connection_messages_ok :: "steam_api \<Rightarrow> bool" where
  "connection_messages_ok st \<longleftrightarrow>
     (\<forall>h c n. c \<in> live_connections h \<longrightarrow>
        fst (receive_on_connection st h c n) = int (length (snd (receive_on_connection st h c n))) \<and>
        length (snd (receive_on_connection st h c n)) \<le> n) \<and>
     (\<forall>h c n. c \<notin> live_connections h \<longrightarrow> receive_on_connection st h c n = (-1, []))"

text \<open>An address Steam hands out has the 16 bytes of its union.\<close>

definition addresses_ok :: "steam_api \<Rightarrow> bool" where
  "addresses_ok st \<longleftrightarrow> (\<forall>h c. steam_addr_ok (connection_info st h c))"

definition steam_ok :: "steam_api \<Rightarrow> bool" where
  "steam_ok st \<longleftrightarrow> poll_groups_ok st \<and> sockets_ok st \<and> messages_ok st \<and> addresses_ok st"

lemma zero_no_connection [simp]: "0 \<notin> live_connections h"
proof -
  have c: "0 \<notin> S \<Longrightarrow> 0 \<notin> live_connection_step S c" for S c
    by (cases "(S, c)" rule: live_connection_step.cases) auto
  show ?thesis by (induction h rule: rev_induct) (auto dest: c)
qed

lemma zero_not_live [simp]: "0 \<notin> live_poll_groups h" "0 \<notin> live_sockets h"
proof -
  have pg: "0 \<notin> S \<Longrightarrow> 0 \<notin> live_poll_group_step S c" for S c
    by (cases "(S, c)" rule: live_poll_group_step.cases) auto
  show "0 \<notin> live_poll_groups h"
    by (induction h rule: rev_induct) (auto dest: pg)
  have sk: "0 \<notin> S \<Longrightarrow> 0 \<notin> live_socket_step S c" for S c
    by (cases "(S, c)" rule: live_socket_step.cases) auto
  show "0 \<notin> live_sockets h"
    by (induction h rule: rev_induct) (auto dest: sk)
qed

text \<open>Handles held by a family of owners: those that are not 0 exist, each with one owner.\<close>

definition handles_ok :: "u32 set \<Rightarrow> (nat \<Rightarrow> u32) \<Rightarrow> bool" where
  "handles_ok H f \<longleftrightarrow> (\<forall>i. f i \<noteq> 0 \<longrightarrow> f i \<in> H \<and> (\<forall>j. j \<noteq> i \<longrightarrow> f j \<noteq> f i))"

lemma handles_ok_none [simp]: "handles_ok H (\<lambda>_. 0)"
  by (simp add: handles_ok_def)

lemma handles_ok_zero: "handles_ok H f \<Longrightarrow> handles_ok H (f(i := 0))"
  by (simp add: handles_ok_def)

lemma handles_ok_new: "handles_ok H f \<Longrightarrow> x \<notin> H \<Longrightarrow> handles_ok (insert x H) (f(i := x))"
  unfolding handles_ok_def by (intro allI impI conjI) (auto split: if_splits)

lemma handles_ok_release: "handles_ok H f \<Longrightarrow> handles_ok (H - {f i}) (f(i := 0))"
  unfolding handles_ok_def by (intro allI impI conjI; cases "f i = 0") (auto split: if_splits)

lemma handles_okD: "handles_ok H f \<Longrightarrow> f i \<noteq> 0 \<Longrightarrow> f i \<in> H"
  by (simp add: handles_ok_def)

subsection \<open>Calls that leave the handles alone\<close>

fun neutral_call :: "steam_call \<Rightarrow> bool" where
  "neutral_call (CreateListenSocketIP p s) = False"
| "neutral_call (CloseListenSocket s) = False"
| "neutral_call (CreatePollGroup g) = False"
| "neutral_call (DestroyPollGroup g) = False"
| "neutral_call _ = True"

definition env_frame :: "'w env \<Rightarrow> 'w env \<Rightarrow> bool" where
  "env_frame e e' \<longleftrightarrow> (\<exists>cs. calls e' = calls e @ cs \<and> list_all neutral_call cs)"

lemma live_neutral:
  assumes "list_all neutral_call cs"
  shows "live_poll_groups (h @ cs) = live_poll_groups h" and "live_sockets (h @ cs) = live_sockets h"
proof -
  have pg: "live_poll_group_step S c = S" if "neutral_call c" for S c
    using that by (cases c) auto
  have sk: "live_socket_step S c = S" if "neutral_call c" for S c
    using that by (cases c) auto
  show "live_poll_groups (h @ cs) = live_poll_groups h" and "live_sockets (h @ cs) = live_sockets h"
    using assms
    by (induction cs rule: rev_induct) (simp_all add: pg sk append_assoc [symmetric] del: append_assoc)
qed

lemma env_frame_refl [simp]: "env_frame e e"
  by (auto simp: env_frame_def)

lemma env_frame_trans [trans]: "env_frame e1 e2 \<Longrightarrow> env_frame e2 e3 \<Longrightarrow> env_frame e1 e3"
  by (fastforce simp: env_frame_def)

lemma env_frame_log [simp]: "neutral_call c \<Longrightarrow> env_frame e (log_call c e)"
  by (auto simp: env_frame_def)

lemma env_frame_live:
  assumes "env_frame e e'"
  shows "live_poll_groups (calls e') = live_poll_groups (calls e)"
    and "live_sockets (calls e') = live_sockets (calls e)"
  using assms live_neutral by (auto simp: env_frame_def)

text \<open>A callback of the application that returns, and makes no call on listen sockets or poll
  groups.\<close>

definition well_behaved :: "('w env \<Rightarrow> 'w env result) \<Rightarrow> bool" where
  "well_behaved f \<longleftrightarrow> (\<forall>e. \<exists>e'. f e = Inr e' \<and> env_frame e e')"

lemma well_behavedE:
  assumes "well_behaved f"
  obtains e' where "f e = Inr e'" and "env_frame e e'"
  using assms by (auto simp: well_behaved_def)

end
