(* ===== verification/Handler_Registry.thy ===== *)
theory Handler_Registry
  imports Third_Party
begin

text \<open>
  What packet client and packet server share: the contract of a table of packet handlers, as the
  locale \<open>handler_registry\<close>, and the call of a \<^verbatim>\<open>std::function\<close> from inside a networking object.
  Both objects keep their handlers in the state \<open>app\<close> that the callbacks of the transport act on;
  a handler itself acts on the user's part of it and on Steam.
\<close>

section \<open>Calling functions\<close>

text \<open>A handler is a \<^verbatim>\<open>std::function\<close>, \<open>None\<close> when empty. Calling an empty one throws
  \<^verbatim>\<open>std::bad_function_call\<close>, which leaves a \<^verbatim>\<open>noexcept\<close> function.\<close>

definition call_function :: "'f option \<Rightarrow> ('f \<Rightarrow> 'a result) \<Rightarrow> 'a result" where
  "call_function f call = (case f of None \<Rightarrow> Inl Terminate | Some g \<Rightarrow> call g)"

lemma call_function_simps [simp]:
  "call_function None call = Inl Terminate"
  "call_function (Some g) call = call g"
  by (simp_all add: call_function_def)

text \<open>Run code of the user on the user's part of a larger state.\<close>

definition run_user ::
  "('b \<Rightarrow> 'a) \<Rightarrow> ('a \<Rightarrow> 'b \<Rightarrow> 'b) \<Rightarrow> ('a env \<Rightarrow> 'a env result) \<Rightarrow> 'b env \<Rightarrow> 'b env result" where
  "run_user get put f e =
     bind_result (f \<lparr>calls = calls e, app = get (app e)\<rparr>) (\<lambda>u.
       Inr \<lparr>calls = calls u, app = put (app u) (app e)\<rparr>)"

lemma run_user_well_behaved:
  assumes "well_behaved f"
  obtains e' where "run_user get put f e = Inr e'" and "env_frame e e'"
proof -
  obtain u where "f \<lparr>calls = calls e, app = get (app e)\<rparr> = Inr u"
    and "env_frame \<lparr>calls = calls e, app = get (app e)\<rparr> u"
    by (rule well_behavedE [OF assms])
  then show thesis
    by (intro that [of "\<lparr>calls = calls u, app = put (app u) (app e)\<rparr>"])
      (simp_all add: run_user_def env_frame_def)
qed

text \<open>The same for code that returns a value.\<close>

definition run_user_value ::
  "('b \<Rightarrow> 'a) \<Rightarrow> ('a \<Rightarrow> 'b \<Rightarrow> 'b) \<Rightarrow> ('a env \<Rightarrow> ('x \<times> 'a env) result) \<Rightarrow> 'b env \<Rightarrow> ('x \<times> 'b env) result" where
  "run_user_value get put f e =
     bind_result (f \<lparr>calls = calls e, app = get (app e)\<rparr>) (\<lambda>(x, u).
       Inr (x, \<lparr>calls = calls u, app = put (app u) (app e)\<rparr>))"

section \<open>The contract of a handler table\<close>

locale handler_registry =
  fixes bind :: "packet_type_t \<Rightarrow> 'h \<Rightarrow> 's \<Rightarrow> bool \<times> 's"
    and unbind :: "packet_type_t \<Rightarrow> 's \<Rightarrow> 's"
    and bound :: "'s \<Rightarrow> packet_type_t \<Rightarrow> 'h option"
  assumes bind_result: "fst (bind t h s) \<longleftrightarrow> bound s t = None"
    and bound_bind: "bound (snd (bind t h s)) k = (if k = t \<and> bound s t = None then Some h else bound s k)"
    and bound_unbind: "bound (unbind t s) k = (if k = t then None else bound s k)"
begin

text \<open>Binding several handlers one after another: the table, and what each bind returned.\<close>

fun bind_all :: "(packet_type_t \<times> 'h) list \<Rightarrow> 's \<Rightarrow> bool list \<times> 's" where
  "bind_all [] s = ([], s)"
| "bind_all ((t, h) # bs) s =
     (case bind t h s of (ok, s1) \<Rightarrow> case bind_all bs s1 of (oks, s2) \<Rightarrow> (ok # oks, s2))"

lemma bind_all_Cons:
  "bind_all ((t, h) # bs) s =
    (fst (bind t h s) # fst (bind_all bs (snd (bind t h s))), snd (bind_all bs (snd (bind t h s))))"
  by (simp split: prod.split)

text \<open>The first handler of a type wins, and a type that was bound before is never replaced.\<close>

lemma bound_bind_all:
  "bound (snd (bind_all bs s)) k = (case bound s k of Some h \<Rightarrow> Some h | None \<Rightarrow> map_of bs k)"
proof (induction bs arbitrary: s)
  case (Cons b bs)
  obtain t h where b: "b = (t, h)" by fastforce
  show ?case
    unfolding b bind_all_Cons using Cons by (auto simp: bound_bind split: option.split)
qed (simp split: option.split)

lemma rebind_after_unbind:
  "fst (bind t h (unbind t s))" and "bound (snd (bind t h (unbind t s))) t = Some h"
  by (simp_all add: bind_result bound_bind bound_unbind)

lemma bind_twice:
  "\<not> fst (bind t h' (snd (bind t h s)))"
  "bound (snd (bind t h' (snd (bind t h s)))) = bound (snd (bind t h s))"
  by (auto simp: bind_result bound_bind fun_eq_iff)

lemma unbind_other: "k \<noteq> t \<Longrightarrow> bound (unbind t s) k = bound s k"
  by (simp add: bound_unbind)

end

end
