(* ===== verification/Std_Map.thy ===== *)
theory Std_Map
  imports Prelude
begin

text \<open>
  The two containers of the C++ standard library the program keeps its tables in. \<^verbatim>\<open>std::map\<close>
  (the client table of \<^verbatim>\<open>UdpServer\<close>) is iterated in ascending key order, so it is modelled as
  the list of its entries in that order; its contract is the locale \<open>ordered_map\<close>.
  \<^verbatim>\<open>std::queue\<close> (the awaiters of \<^verbatim>\<open>AsyncUdpPacketClient\<close>) is a list, front first.
\<close>

section \<open>std::map\<close>

type_synonym ('k, 'v) std_map = "('k \<times> 'v) list"

text \<open>\<open>map_put m k v\<close> is \<^verbatim>\<open>m[k] = v\<close>; \<open>map_erase\<close> is \<^verbatim>\<open>m.erase(k)\<close>; \<open>map_find\<close> is \<^verbatim>\<open>m.find(k)\<close>,
  \<open>None\<close> for \<^verbatim>\<open>m.end()\<close>; \<open>map_keys\<close> is the sequence \<^verbatim>\<open>m | std::views::keys\<close>.\<close>

fun map_put :: "('k::linorder, 'v) std_map \<Rightarrow> 'k \<Rightarrow> 'v \<Rightarrow> ('k, 'v) std_map" where
  "map_put [] k v = [(k, v)]"
| "map_put ((k', v') # m) k v =
     (if k < k' then (k, v) # (k', v') # m
      else if k = k' then (k, v) # m
      else (k', v') # map_put m k v)"

fun map_erase :: "('k, 'v) std_map \<Rightarrow> 'k \<Rightarrow> ('k, 'v) std_map" where
  "map_erase [] k = []"
| "map_erase ((k', v') # m) k = (if k = k' then m else (k', v') # map_erase m k)"

fun map_find :: "('k, 'v) std_map \<Rightarrow> 'k \<Rightarrow> 'v option" where
  "map_find [] k = None"
| "map_find ((k', v') # m) k = (if k = k' then Some v' else map_find m k)"

definition map_keys :: "('k, 'v) std_map \<Rightarrow> 'k list" where
  "map_keys m = List.map fst m"

definition map_ok :: "('k::linorder, 'v) std_map \<Rightarrow> bool" where
  "map_ok m \<longleftrightarrow> sorted_wrt (<) (map_keys m)"

locale ordered_map =
  fixes empty :: 'm
    and put :: "'m \<Rightarrow> 'k::linorder \<Rightarrow> 'v \<Rightarrow> 'm"
    and erase :: "'m \<Rightarrow> 'k \<Rightarrow> 'm"
    and find :: "'m \<Rightarrow> 'k \<Rightarrow> 'v option"
    and keys :: "'m \<Rightarrow> 'k list"
    and ok :: "'m \<Rightarrow> bool"
  assumes ok_empty: "ok empty"
    and ok_put: "ok m \<Longrightarrow> ok (put m k v)"
    and ok_erase: "ok m \<Longrightarrow> ok (erase m k)"
    and find_empty: "find empty k = None"
    and find_put: "ok m \<Longrightarrow> find (put m k v) k' = (if k' = k then Some v else find m k')"
    and find_erase: "ok m \<Longrightarrow> find (erase m k) k' = (if k' = k then None else find m k')"
    and keys_find: "ok m \<Longrightarrow> k \<in> set (keys m) \<longleftrightarrow> find m k \<noteq> None"
    and keys_sorted: "ok m \<Longrightarrow> sorted_wrt (<) (keys m)"
begin

lemma keys_distinct: "ok m \<Longrightarrow> distinct (keys m)"
  using keys_sorted strict_sorted_iff by blast

lemma set_keys: "ok m \<Longrightarrow> set (keys m) = {k. find m k \<noteq> None}"
  by (auto simp: keys_find)

lemma set_keys_put: "ok m \<Longrightarrow> set (keys (put m k v)) = insert k (set (keys m))"
  by (auto simp: set_keys ok_put find_put)

lemma set_keys_erase: "ok m \<Longrightarrow> set (keys (erase m k)) = set (keys m) - {k}"
  by (auto simp: set_keys ok_erase find_erase)

lemma keys_empty: "keys empty = []"
proof -
  have "set (keys empty) = {}"
    by (simp add: set_keys ok_empty find_empty)
  then show ?thesis by simp
qed

text \<open>The order of iteration is fixed by the set of keys alone.\<close>

lemma keys_unique: "ok m \<Longrightarrow> keys m = sorted_list_of_set (set (keys m))"
  using keys_sorted keys_distinct
  by (metis sorted_list_of_set.idem_if_sorted_distinct strict_sorted_iff)

lemma erase_absent: "ok m \<Longrightarrow> find m k = None \<Longrightarrow> keys (erase m k) = keys m"
  using keys_unique ok_erase set_keys_erase keys_find
  by (metis Diff_insert_absorb insert_Diff1 Diff_empty Diff_insert0)

end

lemma map_keys_simps [simp]:
  "map_keys [] = []" "map_keys (e # m) = fst e # map_keys m"
  by (simp_all add: map_keys_def)

lemma set_map_keys_put: "set (map_keys (map_put m k v)) = insert k (set (map_keys m))"
  by (induction m k v rule: map_put.induct) auto

lemma set_map_keys_erase_subset: "set (map_keys (map_erase m k)) \<subseteq> set (map_keys m)"
  by (induction m k rule: map_erase.induct) auto

lemma map_ok_put: "map_ok m \<Longrightarrow> map_ok (map_put m k v)"
proof (induction m k v rule: map_put.induct)
  case (2 k' v' m k v)
  then show ?case
    by (auto simp: map_ok_def set_map_keys_put)
qed (simp add: map_ok_def)

lemma map_ok_erase: "map_ok m \<Longrightarrow> map_ok (map_erase m k)"
proof (induction m k rule: map_erase.induct)
  case (2 k' v' m k)
  then show ?case
    using set_map_keys_erase_subset by (fastforce simp: map_ok_def)
qed (simp add: map_ok_def)

lemma map_find_notin: "k \<notin> set (map_keys m) \<Longrightarrow> map_find m k = None"
  by (induction m k rule: map_find.induct) (auto split: if_splits)

lemma map_find_eq_None: "map_find m k = None \<longleftrightarrow> k \<notin> set (map_keys m)"
  by (induction m k rule: map_find.induct) auto

lemma map_find_put: "map_ok m \<Longrightarrow> map_find (map_put m k v) k' = (if k' = k then Some v else map_find m k')"
  by (induction m k v rule: map_put.induct) (auto simp: map_ok_def)

lemma map_find_erase: "map_ok m \<Longrightarrow> map_find (map_erase m k) k' = (if k' = k then None else map_find m k')"
proof (induction m k rule: map_erase.induct)
  case (2 l v m k)
  then show ?case
    by (auto simp: map_ok_def intro: map_find_notin)
qed simp

lemma map_ok_sorted: "map_ok m \<Longrightarrow> sorted_wrt (<) (map_keys m)"
  by (simp add: map_ok_def)

lemma map_ok_Nil: "map_ok []"
  by (simp add: map_ok_def)

interpretation std_map: ordered_map "[]" map_put map_erase map_find map_keys map_ok
  by unfold_locales
    (auto simp: map_ok_put map_ok_erase map_find_put map_find_erase map_find_eq_None map_ok_Nil map_ok_sorted)

section \<open>std::queue\<close>

definition queue_push :: "'a list \<Rightarrow> 'a \<Rightarrow> 'a list" where
  "queue_push q x = q @ [x]"

definition queue_front :: "'a list \<Rightarrow> 'a result" where
  "queue_front q = (case q of [] \<Rightarrow> Inl Out_of_bounds | x # _ \<Rightarrow> Inr x)"

definition queue_pop :: "'a list \<Rightarrow> 'a list result" where
  "queue_pop q = (case q of [] \<Rightarrow> Inl Out_of_bounds | _ # r \<Rightarrow> Inr r)"

end
