(* ===== verification/Udp_Client.thy ===== *)
theory Udp_Client
  imports Third_Party Std_Map
begin

text \<open>
  \<^verbatim>\<open>src/src/kb/net/udp/client/udp_client.hpp\<close> and \<^verbatim>\<open>udp_client.cpp\<close>: the UDP client over Steam's
  sockets. A \<open>udp_client\<close> record has the members of class \<^verbatim>\<open>UdpClient\<close>; a \<open>client_world\<close> holds every
  client object of the process, the file's static pointer \<^verbatim>\<open>s_instance\<close> and the world outside.
\<close>

section \<open>State\<close>

datatype connection_status_t = Disconnected | Connecting | Connected | Failed_to_connect

text \<open>\<open>uc_network_thread\<close> is whether the thread member is joinable, \<open>uc_interface\<close> whether the
  interface pointer is set.\<close>

type_synonym 'w on_data_received_callback_func_t = "incoming_view_message_t \<Rightarrow> 'w env \<Rightarrow> 'w env result"

record 'w udp_client =
  uc_running :: bool
  uc_connection_status :: connection_status_t
  uc_network_thread :: bool
  uc_on_data_received :: "'w on_data_received_callback_func_t option"
  uc_interface :: bool
  uc_conn :: kb_connection_t

record 'w client_world =
  udp_clients :: "nat \<Rightarrow> 'w udp_client"
  client_instance :: "nat option"
  cenv :: "'w env"

datatype client_thread = Client_app | Client_network nat

definition udp_client_new :: "'w udp_client" where
  "udp_client_new =
     \<lparr>uc_running = False, uc_connection_status = Disconnected, uc_network_thread = False,
      uc_on_data_received = None, uc_interface = False, uc_conn = k_invalid_connection\<rparr>"

definition upd_client ::
  "nat \<Rightarrow> ('w udp_client \<Rightarrow> 'w udp_client) \<Rightarrow> 'w client_world \<Rightarrow> 'w client_world" where
  "upd_client this f w = w\<lparr>udp_clients := (udp_clients w)(this := f (udp_clients w this))\<rparr>"

definition client_log :: "steam_call \<Rightarrow> 'w client_world \<Rightarrow> 'w client_world" where
  "client_log c w = w\<lparr>cenv := log_call c (cenv w)\<rparr>"

definition client_history :: "'w client_world \<Rightarrow> history" where
  "client_history w = calls (cenv w)"

lemma upd_client_simps [simp]:
  "udp_clients (upd_client this f w) = (udp_clients w)(this := f (udp_clients w this))"
  "client_instance (upd_client this f w) = client_instance w"
  "cenv (upd_client this f w) = cenv w"
  "client_history (upd_client this f w) = client_history w"
  by (simp_all add: upd_client_def client_history_def)

lemma client_log_simps [simp]:
  "udp_clients (client_log c w) = udp_clients w"
  "client_instance (client_log c w) = client_instance w"
  "cenv (client_log c w) = log_call c (cenv w)"
  "client_history (client_log c w) = client_history w @ [c]"
  by (simp_all add: client_log_def client_history_def)

lemma client_history_simps [simp]:
  "client_history (w\<lparr>client_instance := x\<rparr>) = client_history w"
  "client_history (w\<lparr>cenv := e\<rparr>) = calls e"
  "client_history (w\<lparr>udp_clients := s\<rparr>) = client_history w"
  by (simp_all add: client_history_def)

definition UdpClient_new :: "nat \<Rightarrow> 'w client_world \<Rightarrow> 'w client_world" where
  "UdpClient_new this w = upd_client this (\<lambda>_. udp_client_new) w"

definition UdpClient_is_running :: "nat \<Rightarrow> 'w client_world \<Rightarrow> bool" where
  "UdpClient_is_running this w = uc_running (udp_clients w this)"

definition UdpClient_get_connection_status :: "nat \<Rightarrow> 'w client_world \<Rightarrow> connection_status_t" where
  "UdpClient_get_connection_status this w = uc_connection_status (udp_clients w this)"

definition UdpClient_set_on_data_callback ::
  "nat \<Rightarrow> 'w on_data_received_callback_func_t option \<Rightarrow> 'w client_world \<Rightarrow> 'w client_world" where
  "UdpClient_set_on_data_callback this p_on_data_received w =
     upd_client this (uc_on_data_received_update (\<lambda>_. p_on_data_received)) w"

section \<open>Connecting\<close>

text \<open>\<^verbatim>\<open>fmt::format("{}:{}", p_address, p_port)\<close>: the port in decimal, without leading zeros.\<close>

fun decimal :: "nat \<Rightarrow> string" where
  "decimal n = (if n < 10 then [char_of (48 + n)] else decimal (n div 10) @ [char_of (48 + n mod 10)])"

declare decimal.simps [simp del]

definition address_with_port :: "string \<Rightarrow> u16 \<Rightarrow> string" where
  "address_with_port p_address p_port = p_address @ '':'' @ decimal (unat p_port)"

definition UdpClient_set_status :: "nat \<Rightarrow> connection_status_t \<Rightarrow> 'w client_world \<Rightarrow> 'w client_world" where
  "UdpClient_set_status this status w = upd_client this (uc_connection_status_update (\<lambda>_. status)) w"

text \<open>The part of \<^verbatim>\<open>try_connect\<close> that has a parsed address.\<close>

definition UdpClient_connect_to ::
  "steam_api \<Rightarrow> nat \<Rightarrow> steam_ip_addr \<Rightarrow> 'w client_world \<Rightarrow> bool \<times> 'w client_world" where
  "UdpClient_connect_to st this server_address w =
     (let conn = connect_by_ip st (client_history w) server_address;
          w = upd_client this (uc_conn_update (\<lambda>_. conn)) (client_log (ConnectByIPAddress server_address conn) w) in
      if conn = k_invalid_connection then (False, UdpClient_set_status this Failed_to_connect w)
      else (True, w))"

text \<open>The address is checked, then parsed again from the same string.\<close>

definition UdpClient_try_connect ::
  "steam_api \<Rightarrow> nat \<Rightarrow> string \<Rightarrow> u16 \<Rightarrow> 'w client_world \<Rightarrow> bool \<times> 'w client_world" where
  "UdpClient_try_connect st this p_address p_port w =
     (let w = upd_client this (\<lambda>c. c\<lparr>uc_connection_status := Connecting, uc_interface := True\<rparr>) w;
          w = w\<lparr>client_instance := Some this\<rparr>;
          address = address_with_port p_address p_port in
      if \<not> is_valid_ip_address (parse_string st) address
      then (False, UdpClient_set_status this Failed_to_connect w)
      else UdpClient_connect_to st this (the (parse_string st (c_str address))) w)"

text \<open>The network thread is started whatever \<^verbatim>\<open>try_connect\<close> returned; assigning to a joinable
  thread calls \<^verbatim>\<open>std::terminate\<close>.\<close>

definition UdpClient_connect ::
  "steam_api \<Rightarrow> nat \<Rightarrow> string \<Rightarrow> u16 \<Rightarrow> 'w client_world \<Rightarrow> (bool \<times> 'w client_world) result" where
  "UdpClient_connect st this p_address p_port w =
     (if uc_running (udp_clients w this) then Inr (False, w)
      else
        let (res, w) = UdpClient_try_connect st this p_address p_port w;
            w = upd_client this (uc_running_update (\<lambda>_. res)) w in
        if uc_network_thread (udp_clients w this) then Inl Terminate
        else Inr (res, upd_client this (uc_network_thread_update (\<lambda>_. True)) w))"

section \<open>Stopping\<close>

definition UdpClient_stop_begin :: "nat \<Rightarrow> 'w client_world \<Rightarrow> bool \<times> 'w client_world" where
  "UdpClient_stop_begin this w =
     (uc_running (udp_clients w this),
      upd_client this (uc_running_update (\<lambda>_. False)) (w\<lparr>client_instance := None\<rparr>))"

text \<open>After the join: close the connection. The status is not touched.\<close>

definition UdpClient_stop_finish :: "nat \<Rightarrow> 'w client_world \<Rightarrow> 'w client_world" where
  "UdpClient_stop_finish this w =
     (let conn = uc_conn (udp_clients w this) in
      if conn \<noteq> k_invalid_connection
      then upd_client this (uc_conn_update (\<lambda>_. k_invalid_connection))
             (client_log (CloseConnection conn 0 (Some ''UdpClient disconnecting'') True) w)
      else w)"

definition UdpClient_stop :: "client_thread \<Rightarrow> nat \<Rightarrow> 'w client_world \<Rightarrow> 'w client_world result" where
  "UdpClient_stop caller this w =
     (case UdpClient_stop_begin this w of
        (False, w) \<Rightarrow> Inr w
      | (True, w) \<Rightarrow>
          if uc_network_thread (udp_clients w this) then
            if caller = Client_network this then Inl Terminate
            else Inr (UdpClient_stop_finish this (upd_client this (uc_network_thread_update (\<lambda>_. False)) w))
          else Inr (UdpClient_stop_finish this w))"

text \<open>The destructor: \<^verbatim>\<open>stop\<close>, then the members; a joinable thread member terminates.\<close>

definition UdpClient_delete :: "client_thread \<Rightarrow> nat \<Rightarrow> 'w client_world \<Rightarrow> 'w client_world result" where
  "UdpClient_delete caller this w =
     bind_result (UdpClient_stop caller this w) (\<lambda>w.
       if uc_network_thread (udp_clients w this) then Inl Terminate else Inr w)"

section \<open>Sending\<close>

text \<open>\<^verbatim>\<open>send_raw\<close> is \<^verbatim>\<open>const\<close>. Its \<^verbatim>\<open>size_t\<close> length goes into Steam's 32-bit parameter.\<close>

definition UdpClient_send_raw ::
  "steam_api \<Rightarrow> nat \<Rightarrow> u8 list \<Rightarrow> nat \<Rightarrow> bool \<Rightarrow> 'w client_world \<Rightarrow> bool \<times> 'w client_world" where
  "UdpClient_send_raw st this p_data p_len p_reliable w =
     (let c = udp_clients w this in
      if \<not> uc_interface c \<or> uc_conn c = k_invalid_connection then (False, w)
      else
        let bytes = take (unat (of_nat p_len :: u32)) p_data;
            flags = (if p_reliable then Send_Reliable else Send_Unreliable);
            res = send_message st (client_history w) (uc_conn c) bytes flags in
        (res = EResultOK, client_log (SendMessageToConnection (uc_conn c) bytes flags) w))"

section \<open>Connection status callback\<close>

definition UdpClient_on_closed :: "nat \<Rightarrow> status_changed \<Rightarrow> 'w client_world \<Rightarrow> 'w client_world result" where
  "UdpClient_on_closed this p_info w =
     (let w = upd_client this (uc_running_update (\<lambda>_. False)) w;
          w = UdpClient_set_status this Failed_to_connect w in
      if \<not> uc_interface (udp_clients w this) then Inl Null_pointer
      else
        let w = client_log (CloseConnection (sc_hConn p_info) 0 None False) w;
            w = upd_client this (uc_conn_update (\<lambda>_. k_invalid_connection)) w in
        Inr (UdpClient_set_status this Disconnected w))"

definition UdpClient_on_connection_status_changed ::
  "nat \<Rightarrow> status_changed \<Rightarrow> 'w client_world \<Rightarrow> 'w client_world result" where
  "UdpClient_on_connection_status_changed this p_info w =
     (case sc_eState p_info of
        State_None \<Rightarrow> Inr w
      | State_ClosedByPeer \<Rightarrow> UdpClient_on_closed this p_info w
      | State_ProblemDetectedLocally \<Rightarrow> UdpClient_on_closed this p_info w
      | State_Connecting \<Rightarrow> Inr (UdpClient_set_status this Connecting w)
      | State_Connected \<Rightarrow> Inr (UdpClient_set_status this Connected w)
      | State_other _ \<Rightarrow> Inr w)"

definition UdpClient_connection_status_changed_callback ::
  "status_changed \<Rightarrow> 'w client_world \<Rightarrow> 'w client_world result" where
  "UdpClient_connection_status_changed_callback p_info w =
     (case client_instance w of
        None \<Rightarrow> Inr w
      | Some this \<Rightarrow> UdpClient_on_connection_status_changed this p_info w)"

fun client_dispatch :: "status_changed list \<Rightarrow> 'w client_world \<Rightarrow> 'w client_world result" where
  "client_dispatch [] w = Inr w"
| "client_dispatch (ev # evs) w =
     bind_result (UdpClient_connection_status_changed_callback ev w) (client_dispatch evs)"

section \<open>Polling\<close>

definition k_default_poll_message_count :: nat where
  "k_default_poll_message_count = 16"

text \<open>The first loop hands every message to the callback, the second releases them. As in the
  server, only the first \<open>length messages\<close> slots of the array were written.\<close>

definition client_deliver ::
  "(incoming_view_message_t \<Rightarrow> 'w env \<Rightarrow> 'w env result) \<Rightarrow> nat \<Rightarrow> steam_message \<Rightarrow>
   'w client_world \<Rightarrow> 'w client_world result" where
  "client_deliver callback this steam_message w =
     bind_result
       (callback \<lparr>msg_conn = uc_conn (udp_clients w this), msg_buffer = sm_data steam_message\<rparr> (cenv w))
       (\<lambda>e. Inr (w\<lparr>cenv := e\<rparr>))"

function client_message_loop ::
  "(steam_message \<Rightarrow> 'w client_world \<Rightarrow> 'w client_world result) \<Rightarrow> nat \<Rightarrow> steam_message list \<Rightarrow> nat \<Rightarrow>
   'w client_world \<Rightarrow> 'w client_world result" where
  "client_message_loop step message_count messages i w =
     (if i < message_count then
        if i < length messages then
          bind_result (step (messages ! i) w) (client_message_loop step message_count messages (i + 1))
        else Inl Uninitialised_read
      else Inr w)"
  by pat_completeness auto
termination
  by (relation "measure (\<lambda>(step, n, ms, i, w). n - i)") auto

declare client_message_loop.simps [simp del]

definition client_release :: "steam_message \<Rightarrow> 'w client_world \<Rightarrow> 'w client_world result" where
  "client_release message w = Inr (client_log (ReleaseMessage message) w)"

definition UdpClient_poll_messages :: "steam_api \<Rightarrow> nat \<Rightarrow> 'w client_world \<Rightarrow> 'w client_world result" where
  "UdpClient_poll_messages st this w =
     (let conn = uc_conn (udp_clients w this) in
      if \<not> uc_interface (udp_clients w this) \<or> conn = k_invalid_connection then Inr w
      else
        let (n, messages) = receive_on_connection st (client_history w) conn k_default_poll_message_count;
            message_count = size_count n;
            w = client_log (ReceiveMessagesOnConnection conn k_default_poll_message_count) w in
        bind_result
          (case uc_on_data_received (udp_clients w this) of
             None \<Rightarrow> Inr w
           | Some callback \<Rightarrow> client_message_loop (client_deliver callback this) message_count messages 0 w)
          (client_message_loop client_release message_count messages 0))"

definition UdpClient_poll :: "steam_api \<Rightarrow> nat \<Rightarrow> 'w client_world \<Rightarrow> 'w client_world result" where
  "UdpClient_poll st this w =
     (if \<not> uc_running (udp_clients w this) then Inr w
      else bind_result (UdpClient_poll_messages st this w) (\<lambda>w.
        if uc_interface (udp_clients w this)
        then client_dispatch (run_callbacks st (client_history w)) (client_log RunCallbacks w)
        else Inr w))"

end
