(* ===== verification/Sample_Steam.thy ===== *)
theory Sample_Steam
  imports Third_Party
begin

text \<open>
  One concrete behaviour of GameNetworkingSockets that satisfies everything \<open>steam_ok\<close> asks of it:
  at most one poll group and one listen socket at a time, the given messages at the first receive
  on a live handle, the given events at the first run of the callbacks. The properties with a
  hypothesis on the library are applied to it, which shows that the hypotheses can hold.
\<close>

definition first_time :: "(steam_call \<Rightarrow> bool) \<Rightarrow> history \<Rightarrow> 'a list \<Rightarrow> 'a list" where
  "first_time is_call h xs = (if list_ex is_call h then [] else xs)"

fun is_receive :: "steam_call \<Rightarrow> bool" where
  "is_receive (ReceiveMessagesOnPollGroup g n) = True"
| "is_receive (ReceiveMessagesOnConnection c n) = True"
| "is_receive _ = False"

fun is_run_callbacks :: "steam_call \<Rightarrow> bool" where
  "is_run_callbacks RunCallbacks = True"
| "is_run_callbacks _ = False"

definition sample_steam :: "steam_message list \<Rightarrow> status_changed list \<Rightarrow> steam_api" where
  "sample_steam ms evs =
     \<lparr>create_listen_socket = (\<lambda>h p. if 1 \<in> live_sockets h then 0 else 1),
      create_poll_group = (\<lambda>h. if 1 \<in> live_poll_groups h then 0 else 1),
      receive_on_poll_group = (\<lambda>h g n.
        if g \<in> live_poll_groups h
        then (int (length (take n (first_time is_receive h ms))), take n (first_time is_receive h ms))
        else (-1, [])),
      receive_on_connection = (\<lambda>h c n.
        if c \<in> live_connections h
        then (int (length (take n (first_time is_receive h ms))), take n (first_time is_receive h ms))
        else (-1, [])),
      run_callbacks = (\<lambda>h. first_time is_run_callbacks h evs),
      send_message = (\<lambda>h c bytes flags. if c = 0 then EResultFail else EResultOK),
      accept_connection = (\<lambda>h c. EResultOK),
      set_connection_poll_group = (\<lambda>h c g. g \<in> live_poll_groups h),
      connection_info = (\<lambda>h c. \<lparr>sa_union = replicate 16 0, sa_port = 27015\<rparr>),
      connect_by_ip = (\<lambda>h a. if 1 \<in> live_connections h then 0 else 1),
      parse_string = (\<lambda>s. if s = [] then None else Some \<lparr>sa_union = replicate 16 0, sa_port = 27015\<rparr>),
      is_ipv4 = (\<lambda>a. True)\<rparr>"

lemma sample_steam_ok: "steam_ok (sample_steam ms evs)"
  by (simp add: sample_steam_def steam_ok_def poll_groups_ok_def sockets_ok_def messages_ok_def
      addresses_ok_def steam_addr_ok_def sizeof_ipv6_def)

lemma sample_connections_ok: "connection_messages_ok (sample_steam ms evs)"
  by (simp add: sample_steam_def connection_messages_ok_def)

lemma sample_steam_simps:
  "create_listen_socket (sample_steam ms evs) h p = (if 1 \<in> live_sockets h then 0 else 1)"
  "create_poll_group (sample_steam ms evs) h = (if 1 \<in> live_poll_groups h then 0 else 1)"
  "receive_on_poll_group (sample_steam ms evs) h g n =
     (if g \<in> live_poll_groups h
      then (int (length (take n (first_time is_receive h ms))), take n (first_time is_receive h ms))
      else (-1, []))"
  "receive_on_connection (sample_steam ms evs) h c n =
     (if c \<in> live_connections h
      then (int (length (take n (first_time is_receive h ms))), take n (first_time is_receive h ms))
      else (-1, []))"
  "run_callbacks (sample_steam ms evs) h = first_time is_run_callbacks h evs"
  "send_message (sample_steam ms evs) h c bytes flags = (if c = 0 then EResultFail else EResultOK)"
  "accept_connection (sample_steam ms evs) h c = EResultOK"
  "set_connection_poll_group (sample_steam ms evs) h c g \<longleftrightarrow> g \<in> live_poll_groups h"
  "connection_info (sample_steam ms evs) h c = \<lparr>sa_union = replicate 16 0, sa_port = 27015\<rparr>"
  "connect_by_ip (sample_steam ms evs) h a = (if 1 \<in> live_connections h then 0 else 1)"
  "parse_string (sample_steam ms evs) s = (if s = [] then None else Some \<lparr>sa_union = replicate 16 0, sa_port = 27015\<rparr>)"
  "is_ipv4 (sample_steam ms evs) a"
  by (simp_all add: sample_steam_def)

end
