(* ===== verification/Udp_Client_Correct.thy ===== *)
theory Udp_Client_Correct
  imports Udp_Client Sample_Steam
begin

text \<open>
  What the operations of \<^verbatim>\<open>UdpClient\<close> do: the outcome of a connection attempt, the connection
  status as an abstract machine driven by Steam's events, the delivery of messages, and the states
  in which the network thread is left behind.
\<close>

section \<open>Receiving\<close>

text \<open>The reference of the indexed loop: a recursion over the messages.\<close>

fun each_message ::
  "(steam_message \<Rightarrow> 'w client_world \<Rightarrow> 'w client_world result) \<Rightarrow> steam_message list \<Rightarrow>
   'w client_world \<Rightarrow> 'w client_world result" where
  "each_message step [] w = Inr w"
| "each_message step (m # ms) w = bind_result (step m w) (each_message step ms)"

lemma client_message_loop_eq:
  "n = length messages \<Longrightarrow> i \<le> n \<Longrightarrow> client_message_loop step n messages i w = each_message step (drop i messages) w"
proof (induction "n - i" arbitrary: i w)
  case 0
  then show ?case by (subst client_message_loop.simps) simp
next
  case (Suc k)
  then have i: "i < length messages" and k: "k = n - Suc i" "Suc i \<le> n" by simp_all
  have "client_message_loop step n messages i w =
    bind_result (step (messages ! i) w) (client_message_loop step n messages (Suc i))"
    using i Suc.prems by (subst client_message_loop.simps) simp
  also have "\<dots> = bind_result (step (messages ! i) w) (each_message step (drop (Suc i) messages))"
    using Suc.hyps(1) [OF k(1) Suc.prems(1) k(2)] by presburger
  finally show ?case
    using i by (simp add: Cons_nth_drop_Suc [symmetric])
qed

lemma client_message_loop_empty:
  "0 < n \<Longrightarrow> client_message_loop step n [] 0 w = Inl Uninitialised_read"
  by (subst client_message_loop.simps) simp

lemma each_message_release:
  "each_message client_release ms w = Inr (w\<lparr>cenv := (cenv w)\<lparr>calls := client_history w @ map ReleaseMessage ms\<rparr>\<rparr>)"
  by (induction ms arbitrary: w) (simp_all add: client_release_def client_log_def client_history_def log_call_def)

lemma each_message_deliver:
  assumes "\<And>m e. f m e = Inr (g m e)"
  shows "each_message (client_deliver f this) ms w =
    Inr (w\<lparr>cenv := fold (\<lambda>m. g \<lparr>msg_conn = uc_conn (udp_clients w this), msg_buffer = sm_data m\<rparr>) ms (cenv w)\<rparr>)"
  by (induction ms arbitrary: w) (simp_all add: client_deliver_def assms)

section \<open>The connection status as an abstract machine\<close>

text \<open>What one event does to the status, and whether it ends the connection.\<close>

definition status_step :: "status_changed \<Rightarrow> connection_status_t \<Rightarrow> connection_status_t" where
  "status_step ev s =
     (case sc_eState ev of
        State_ClosedByPeer \<Rightarrow> Disconnected
      | State_ProblemDetectedLocally \<Rightarrow> Disconnected
      | State_Connecting \<Rightarrow> Connecting
      | State_Connected \<Rightarrow> Connected
      | _ \<Rightarrow> s)"

definition closing :: "status_changed \<Rightarrow> bool" where
  "closing ev \<longleftrightarrow> sc_eState ev \<in> {State_ClosedByPeer, State_ProblemDetectedLocally}"

definition close_call :: "status_changed \<Rightarrow> steam_call" where
  "close_call ev = CloseConnection (sc_hConn ev) 0 None False"

definition after_event :: "status_changed \<Rightarrow> 'w udp_client \<Rightarrow> 'w udp_client" where
  "after_event ev c =
     c\<lparr>uc_connection_status := status_step ev (uc_connection_status c),
       uc_running := uc_running c \<and> \<not> closing ev,
       uc_conn := (if closing ev then 0 else uc_conn c)\<rparr>"

lemma status_callback_eq:
  assumes "client_instance w = Some this" and "uc_interface (udp_clients w this)"
  shows "UdpClient_connection_status_changed_callback ev w =
    Inr (upd_client this (after_event ev)
      (if closing ev then client_log (close_call ev) w else w))"
proof -
  have same: "c\<lparr>uc_connection_status := uc_connection_status c, uc_running := uc_running c, uc_conn := uc_conn c\<rparr> = c"
    "c\<lparr>uc_connection_status := x, uc_running := uc_running c, uc_conn := uc_conn c\<rparr> = c\<lparr>uc_connection_status := x\<rparr>"
    "c\<lparr>uc_running := b, uc_conn := y, uc_connection_status := x\<rparr> =
     c\<lparr>uc_connection_status := x, uc_running := b, uc_conn := y\<rparr>"
    for c :: "'a udp_client" and x b y by (cases c, simp)+
  show ?thesis
    using assms
    by (cases "sc_eState ev")
      (simp_all add: UdpClient_connection_status_changed_callback_def UdpClient_on_connection_status_changed_def
        UdpClient_on_closed_def UdpClient_set_status_def Let_def after_event_def status_step_def closing_def
        close_call_def handle_defs upd_client_def client_log_def same)
qed

lemma after_event_fields [simp]:
  "uc_interface (after_event ev c) = uc_interface c"
  "uc_network_thread (after_event ev c) = uc_network_thread c"
  "uc_on_data_received (after_event ev c) = uc_on_data_received c"
  "uc_running (after_event ev c) \<longleftrightarrow> uc_running c \<and> \<not> closing ev"
  "uc_conn (after_event ev c) = (if closing ev then 0 else uc_conn c)"
  "uc_connection_status (after_event ev c) = status_step ev (uc_connection_status c)"
  by (simp_all add: after_event_def)

lemma client_dispatch_eq:
  assumes "client_instance w = Some this" and "uc_interface (udp_clients w this)"
  shows "client_dispatch evs w = Inr (w
    \<lparr>udp_clients := (udp_clients w)(this := fold after_event evs (udp_clients w this)),
     cenv := (cenv w)\<lparr>calls := client_history w @ map close_call (filter closing evs)\<rparr>\<rparr>)"
  using assms
proof (induction evs arbitrary: w)
  case Nil
  then show ?case by (simp add: client_history_def)
next
  case (Cons ev evs)
  let ?w = "upd_client this (after_event ev) (if closing ev then client_log (close_call ev) w else w)"
  have "client_instance ?w = Some this" "uc_interface (udp_clients ?w this)"
    using Cons.prems by simp_all
  note IH = Cons.IH [OF this]
  have merge: "(\<lambda>a. if a = this then X else if a = this then Y else Z a) = (\<lambda>a. if a = this then X else Z a)"
    for X Y :: "'a udp_client" and Z by (simp add: fun_eq_iff)
  show ?case
  proof (cases "closing ev")
    case True
    with IH show ?thesis
      by (simp add: status_callback_eq [OF Cons.prems])
        (simp add: upd_client_def client_log_def client_history_def log_call_def merge)
  next
    case False
    with IH show ?thesis
      by (simp add: status_callback_eq [OF Cons.prems])
        (simp add: upd_client_def client_history_def merge)
  qed
qed

lemma fold_after_event_fields:
  "uc_interface (fold after_event evs c) = uc_interface c"
  "uc_network_thread (fold after_event evs c) = uc_network_thread c"
  "uc_running (fold after_event evs c) \<longleftrightarrow> uc_running c \<and> list_all (\<lambda>ev. \<not> closing ev) evs"
  "uc_conn (fold after_event evs c) = (if list_all (\<lambda>ev. \<not> closing ev) evs then uc_conn c else 0)"
  "uc_connection_status (fold after_event evs c) = fold status_step evs (uc_connection_status c)"
  by (induction evs arbitrary: c) auto

section \<open>Connecting\<close>

text \<open>What a connection attempt finds: the handle, 0 when the address does not parse or Steam
  refuses; and the call it makes, if any.\<close>

definition attempt :: "steam_api \<Rightarrow> history \<Rightarrow> string \<Rightarrow> u16 \<Rightarrow> (steam_ip_addr \<times> kb_connection_t) option" where
  "attempt st h addr port =
     (case parse_string st (c_str (address_with_port addr port)) of
        None \<Rightarrow> None
      | Some a \<Rightarrow> Some (a, connect_by_ip st h a))"

definition attempt_ok :: "(steam_ip_addr \<times> kb_connection_t) option \<Rightarrow> bool" where
  "attempt_ok r \<longleftrightarrow> (\<exists>a c. r = Some (a, c) \<and> c \<noteq> 0)"

lemma address_with_port_nonempty [simp]: "address_with_port addr port \<noteq> []"
  by (simp add: address_with_port_def)

lemma try_connect_eq:
  "UdpClient_try_connect st this addr port w =
    (let r = attempt st (client_history w) addr port;
         c = (udp_clients w this)\<lparr>uc_interface := True\<rparr> in
     (attempt_ok r,
      w\<lparr>client_instance := Some this,
        cenv := (case r of None \<Rightarrow> cenv w | Some (a, conn) \<Rightarrow> log_call (ConnectByIPAddress a conn) (cenv w)),
        udp_clients := (udp_clients w)(this := c
          \<lparr>uc_connection_status := (if attempt_ok r then Connecting else Failed_to_connect),
           uc_conn := (case r of None \<Rightarrow> uc_conn c | Some (a, conn) \<Rightarrow> conn)\<rparr>)\<rparr>))"
proof -
  have same: "c\<lparr>uc_connection_status := s, uc_interface := True\<rparr> =
    c\<lparr>uc_interface := True, uc_connection_status := s, uc_conn := uc_conn c\<rparr>" for c :: "'a udp_client" and s
    by (cases c) simp
  have reorder: "c\<lparr>uc_connection_status := s, uc_interface := b, uc_conn := x\<rparr> =
    c\<lparr>uc_interface := b, uc_connection_status := s, uc_conn := x\<rparr>"
    "c\<lparr>uc_interface := b, uc_conn := x, uc_connection_status := s\<rparr> =
     c\<lparr>uc_interface := b, uc_connection_status := s, uc_conn := x\<rparr>"
    for c :: "'a udp_client" and s b x by (cases c, simp)+
  show ?thesis
  proof (cases "parse_string st (c_str (address_with_port addr port))")
    case None
    then show ?thesis
      by (simp add: UdpClient_try_connect_def UdpClient_set_status_def Let_def is_valid_ip_address_def attempt_def
          attempt_ok_def upd_client_def same)
  next
    case (Some a)
    then show ?thesis
      by (simp add: UdpClient_try_connect_def UdpClient_connect_to_def UdpClient_set_status_def Let_def
          is_valid_ip_address_def attempt_def attempt_ok_def upd_client_def client_log_def client_history_def
          handle_defs reorder)
  qed
qed

section \<open>Polling\<close>

lemma poll_messages_eq:
  assumes "uc_interface (udp_clients w this)" and "connection_messages_ok st"
    and "uc_conn (udp_clients w this) \<in> live_connections (client_history w)"
  shows "let conn = uc_conn (udp_clients w this);
             ms = snd (receive_on_connection st (client_history w) conn 16);
             w0 = client_log (ReceiveMessagesOnConnection conn 16) w in
    length ms \<le> 16 \<and>
    UdpClient_poll_messages st this w =
      bind_result
        (case uc_on_data_received (udp_clients w this) of
           None \<Rightarrow> Inr w0 | Some f \<Rightarrow> each_message (client_deliver f this) ms w0)
        (each_message client_release ms)"
proof -
  let ?conn = "uc_conn (udp_clients w this)"
  obtain n ms where recv: "receive_on_connection st (client_history w) ?conn 16 = (n, ms)" by fastforce
  then have n: "n = int (length ms)" and le: "length ms \<le> 16"
    using assms(2,3) unfolding connection_messages_ok_def by (metis fst_conv snd_conv)+
  have count: "size_count n = length ms" using n le by simp
  have loop: "client_message_loop step (length ms) ms 0 w = each_message step ms w" for step :: "_ \<Rightarrow> _ \<Rightarrow> 'a client_world result" and w
    using client_message_loop_eq [of "length ms" ms 0 step w] by simp
  have "?conn \<noteq> 0" using assms(3) by auto
  then have run: "UdpClient_poll_messages st this w =
      bind_result
        (case uc_on_data_received (udp_clients w this) of
           None \<Rightarrow> Inr (client_log (ReceiveMessagesOnConnection ?conn 16) w)
         | Some callback \<Rightarrow> client_message_loop (client_deliver callback this) (length ms) ms 0
             (client_log (ReceiveMessagesOnConnection ?conn 16) w))
        (client_message_loop client_release (length ms) ms 0)"
    using assms(1) recv count
    by (simp add: UdpClient_poll_messages_def Let_def k_default_poll_message_count_def handle_defs
        cong: option.case_cong)
  have rel: "client_message_loop client_release (length ms) ms 0 =
      (each_message client_release ms :: 'a client_world \<Rightarrow> _)"
    by (rule ext) (rule loop)
  show ?thesis
    unfolding run rel loop Let_def recv snd_conv using le by simp
qed

text \<open>On a handle Steam does not know, a poll reads the first, unwritten, slot of the array.\<close>

lemma poll_messages_dead:
  assumes "uc_interface (udp_clients w this)" and "connection_messages_ok st"
    and "uc_conn (udp_clients w this) \<noteq> 0"
    and "uc_conn (udp_clients w this) \<notin> live_connections (client_history w)"
  shows "UdpClient_poll_messages st this w = Inl Uninitialised_read"
proof -
  have "receive_on_connection st (client_history w) (uc_conn (udp_clients w this)) 16 = (-1, [])"
    using assms(2,4) by (simp add: connection_messages_ok_def)
  moreover have "client_message_loop step (2 ^ 64 - 1) [] 0 v = Inl Uninitialised_read"
    for step :: "_ \<Rightarrow> _ \<Rightarrow> 'a client_world result" and v
    by (rule client_message_loop_empty) simp
  ultimately show ?thesis
    using assms(1,3)
    by (cases "uc_on_data_received (udp_clients w this)")
      (simp_all add: UdpClient_poll_messages_def Let_def k_default_poll_message_count_def handle_defs
        size_count_minus_one del: One_nat_def)
qed

section \<open>What a poll leaves alone\<close>

text \<open>A callback that returns and opens or closes no connection.\<close>

definition quiet :: "('w env \<Rightarrow> 'w env result) \<Rightarrow> bool" where
  "quiet f \<longleftrightarrow> (\<forall>e. \<exists>e'. f e = Inr e' \<and> live_connections (calls e') = live_connections (calls e))"

definition quiet_callback :: "(incoming_view_message_t \<Rightarrow> 'w env \<Rightarrow> 'w env result) option \<Rightarrow> bool" where
  "quiet_callback cb \<longleftrightarrow> (\<forall>f m. cb = Some f \<longrightarrow> quiet (f m))"

definition same_but_env :: "'w client_world \<Rightarrow> 'w client_world \<Rightarrow> bool" where
  "same_but_env w w' \<longleftrightarrow>
     udp_clients w' = udp_clients w \<and> client_instance w' = client_instance w \<and>
     live_connections (client_history w') = live_connections (client_history w)"

lemma same_but_env_refl [simp]: "same_but_env w w"
  by (simp add: same_but_env_def)

lemma same_but_env_trans: "same_but_env w1 w2 \<Longrightarrow> same_but_env w2 w3 \<Longrightarrow> same_but_env w1 w3"
  by (simp add: same_but_env_def)

lemma live_release: "live_connections (h @ map ReleaseMessage ms) = live_connections h"
proof (induction ms rule: rev_induct)
  case (snoc m ms)
  then show ?case by (simp add: append_assoc [symmetric] del: append_assoc)
qed simp

lemma each_message_same:
  assumes "\<And>m w. \<exists>w'. step m w = Inr w' \<and> same_but_env w w'"
  shows "\<exists>w'. each_message step ms w = Inr w' \<and> same_but_env w w'"
proof (induction ms arbitrary: w)
  case (Cons m ms)
  obtain w1 where "step m w = Inr w1" "same_but_env w w1" using assms by blast
  moreover obtain w2 where "each_message step ms w1 = Inr w2" "same_but_env w1 w2" using Cons by blast
  ultimately show ?case using same_but_env_trans by auto
qed simp

lemma client_deliver_same:
  assumes "\<And>m. quiet (f m)"
  shows "\<exists>w'. client_deliver f this m w = Inr w' \<and> same_but_env w w'"
proof -
  let ?v = "\<lparr>msg_conn = uc_conn (udp_clients w this), msg_buffer = sm_data m\<rparr>"
  obtain e' where "f ?v (cenv w) = Inr e'" and "live_connections (calls e') = live_connections (calls (cenv w))"
    using assms [of ?v] unfolding quiet_def by blast
  then show ?thesis by (simp add: client_deliver_def same_but_env_def client_history_def)
qed

lemma poll_messages_same:
  assumes "uc_interface (udp_clients w this)" and "connection_messages_ok st"
    and "uc_conn (udp_clients w this) \<in> live_connections (client_history w)"
    and "quiet_callback (uc_on_data_received (udp_clients w this))"
  obtains w' where "UdpClient_poll_messages st this w = Inr w'" and "same_but_env w w'"
proof -
  let ?conn = "uc_conn (udp_clients w this)"
  let ?ms = "snd (receive_on_connection st (client_history w) ?conn 16)"
  let ?w0 = "client_log (ReceiveMessagesOnConnection ?conn 16) w"
  have w0: "same_but_env w ?w0" by (simp add: same_but_env_def)
  obtain w1 where w1: "(case uc_on_data_received (udp_clients w this) of
      None \<Rightarrow> Inr ?w0 | Some f \<Rightarrow> each_message (client_deliver f this) ?ms ?w0) = Inr w1" "same_but_env ?w0 w1"
  proof (cases "uc_on_data_received (udp_clients w this)")
    case None
    then show ?thesis by (intro that [of ?w0]) simp_all
  next
    case (Some f)
    have "\<And>m. quiet (f m)" using assms(4) Some by (simp add: quiet_callback_def)
    then show ?thesis
      using each_message_same [of "client_deliver f this" ?ms ?w0] client_deliver_same [of f this] Some that by auto
  qed
  have rel: "same_but_env w1 (w1\<lparr>cenv := (cenv w1)\<lparr>calls := client_history w1 @ map ReleaseMessage ?ms\<rparr>\<rparr>)"
    by (simp add: same_but_env_def live_release)
  have run: "UdpClient_poll_messages st this w =
    Inr (w1\<lparr>cenv := (cenv w1)\<lparr>calls := client_history w1 @ map ReleaseMessage ?ms\<rparr>\<rparr>)"
    using poll_messages_eq [OF assms(1-3)] w1(1) by (simp add: Let_def each_message_release)
  show thesis
    by (rule that [OF run same_but_env_trans [OF w0 same_but_env_trans [OF w1(2) rel]]])
qed

end
