(* ===== verification/Packet.thy ===== *)
theory Packet
  imports Network_Types
begin

text \<open>
  \<^verbatim>\<open>src/src/kb/net/udp/packet.hpp\<close>: the 8-byte header in front of every packet, the in-memory
  packet, and the parser of the header, which checks every byte it reads against the size it was
  given. The abstract side is \<open>header_wire\<close>, the eight bytes a header stands for.
\<close>

section \<open>The header\<close>

text \<open>The four magic bytes of \<^verbatim>\<open>src/include/kb/kb_networking.h\<close>; a packet starts with three of them.\<close>

definition KB_MAGIC_BYTE_0 :: u8 where "KB_MAGIC_BYTE_0 = 0x4B"
definition KB_MAGIC_BYTE_1 :: u8 where "KB_MAGIC_BYTE_1 = 0x42"
definition KB_MAGIC_BYTE_2 :: u8 where "KB_MAGIC_BYTE_2 = 0x4C"

definition k_magic_byte_0 :: u8 where "k_magic_byte_0 = KB_MAGIC_BYTE_0"
definition k_magic_byte_1 :: u8 where "k_magic_byte_1 = KB_MAGIC_BYTE_1"
definition k_magic_byte_2 :: u8 where "k_magic_byte_2 = KB_MAGIC_BYTE_2"

definition k_magic_bytes :: "u8 list" where
  "k_magic_bytes = [k_magic_byte_0, k_magic_byte_1, k_magic_byte_2]"

definition sizeof_serialization_type_t :: nat where
  "sizeof_serialization_type_t = 1"

definition sizeof_packet_type_t :: nat where
  "sizeof_packet_type_t = 4"

record internal_packet_header_t =
  m_magic_header :: "u8 list"
  m_serde_type :: serialization_type_t
  m_packet_type :: packet_type_t

text \<open>The three members are packed: the \<^verbatim>\<open>u32\<close> starts at offset 4, its alignment.\<close>

definition sizeof_internal_packet_header_t :: nat where
  "sizeof_internal_packet_header_t =
     length k_magic_bytes + sizeof_serialization_type_t + sizeof_packet_type_t"

text \<open>The default member initialisers, and \<^verbatim>\<open>internal_packet_header_t::create\<close>.\<close>

definition internal_packet_header_default :: internal_packet_header_t where
  "internal_packet_header_default =
     \<lparr>m_magic_header = k_magic_bytes,
      m_serde_type = serde_bin,
      m_packet_type = packet_type_of_id Packet_id_unknown\<rparr>"

definition internal_packet_header_create ::
  "serialization_type_t \<Rightarrow> packet_type_t \<Rightarrow> internal_packet_header_t" where
  "internal_packet_header_create p_serde_type p_packet_type =
     internal_packet_header_default\<lparr>m_serde_type := p_serde_type, m_packet_type := p_packet_type\<rparr>"

lemma length_k_magic_bytes [simp]: "length k_magic_bytes = 3"
  by (simp add: k_magic_bytes_def)

lemma sizeof_header [simp]: "sizeof_internal_packet_header_t = 8"
  by (simp add: sizeof_internal_packet_header_t_def sizeof_serialization_type_t_def
      sizeof_packet_type_t_def)

lemma header_create_simps [simp]:
  "m_magic_header (internal_packet_header_create s t) = k_magic_bytes"
  "m_serde_type (internal_packet_header_create s t) = s"
  "m_packet_type (internal_packet_header_create s t) = t"
  by (simp_all add: internal_packet_header_create_def internal_packet_header_default_def)

lemma header_create_inject [simp]:
  "internal_packet_header_create s t = internal_packet_header_create s' t' \<longleftrightarrow> s = s' \<and> t = t'"
  by (metis header_create_simps(2,3))

section \<open>The bytes of a header\<close>

definition header_wire :: "serialization_type_t \<Rightarrow> packet_type_t \<Rightarrow> u8 list" where
  "header_wire s t = k_magic_bytes @ [s] @ u32_to_bytes t"

lemma length_header_wire [simp]: "length (header_wire s t) = 8"
  by (simp add: header_wire_def)

lemma header_wire_inject [simp]:
  "header_wire s t = header_wire s' t' \<longleftrightarrow> s = s' \<and> t = t'"
  by (auto simp: header_wire_def)

section \<open>Parsing\<close>

text \<open>The loop over the magic bytes: \<open>Some cursor\<close> when all match, \<open>None\<close> at the first that
  does not.\<close>

function check_magic :: "u8 list \<Rightarrow> nat \<Rightarrow> nat option result" where
  "check_magic p_data cursor =
     (if cursor < length k_magic_bytes then
        bind_result (buf_read p_data cursor) (\<lambda>b.
          if b \<noteq> k_magic_bytes ! cursor then Inr None
          else check_magic p_data (cursor + 1))
      else Inr (Some cursor))"
  by pat_completeness auto
termination
  by (relation "measure (\<lambda>(p_data, cursor). length k_magic_bytes - cursor)") auto

declare check_magic.simps [simp del]

definition unpack_internal_packet_header ::
  "u8 list \<Rightarrow> nat \<Rightarrow> internal_packet_header_t option result" where
  "unpack_internal_packet_header p_data p_size =
     (if p_size < sizeof_internal_packet_header_t then Inr None
      else bind_result (check_magic p_data 0) (\<lambda>magic.
        case magic of
          None \<Rightarrow> Inr None
        | Some cursor \<Rightarrow>
            bind_result (buf_read p_data cursor) (\<lambda>serialization_type.
            bind_result (memcpy_out p_data (cursor + 1) sizeof_packet_type_t) (\<lambda>packet_type.
            bind_result (kb_assert (cursor + 1 + sizeof_packet_type_t = sizeof_internal_packet_header_t)) (\<lambda>_.
              Inr (Some (internal_packet_header_default
                \<lparr>m_serde_type := serialization_type,
                 m_packet_type := u32_of_bytes packet_type\<rparr>)))))))"

lemma check_magic_eq:
  assumes "3 \<le> length p_data"
  shows "check_magic p_data 0 = Inr (if take 3 p_data = k_magic_bytes then Some 3 else None)"
proof -
  from assms obtain a b c r where "p_data = a # b # c # r"
    by (auto simp: numeral_eq_Suc Suc_le_length_iff)
  then show ?thesis
    by (simp add: check_magic.simps buf_read_def k_magic_bytes_def)
qed

text \<open>
  What the parser computes, on every input and without a fault: the header in the first eight
  bytes when they are there and start with the magic bytes.
\<close>

lemma unpack_eq:
  assumes "p_size \<le> length p_data"
  shows "unpack_internal_packet_header p_data p_size =
    Inr (if 8 \<le> p_size \<and> take 3 p_data = k_magic_bytes
         then Some (internal_packet_header_create (p_data ! 3) (u32_of_bytes (take 4 (drop 4 p_data))))
         else None)"
proof (cases "8 \<le> p_size")
  case True
  with assms have "3 \<le> length p_data" and "8 \<le> length p_data" by simp_all
  with True show ?thesis
    by (simp add: unpack_internal_packet_header_def check_magic_eq buffer_simps
        sizeof_packet_type_t_def internal_packet_header_create_def)
next
  case False
  then show ?thesis by (simp add: unpack_internal_packet_header_def)
qed

lemma unpack_wire [simp]:
  "p_size = 8 + length body \<Longrightarrow>
   unpack_internal_packet_header (header_wire s t @ body) p_size = Inr (Some (internal_packet_header_create s t))"
  by (simp add: unpack_eq) (simp add: header_wire_def nth_append)

text \<open>The other direction: an accepted packet starts with the bytes of the header it yields.\<close>

lemma unpack_SomeD:
  assumes "p_size \<le> length p_data"
    and "unpack_internal_packet_header p_data p_size = Inr (Some h)"
  shows "8 \<le> p_size" and "h = internal_packet_header_create (m_serde_type h) (m_packet_type h)"
    and "p_data = header_wire (m_serde_type h) (m_packet_type h) @ drop 8 p_data"
proof -
  from assms have sz: "8 \<le> p_size" and magic: "take 3 p_data = k_magic_bytes"
    and h: "h = internal_packet_header_create (p_data ! 3) (u32_of_bytes (take 4 (drop 4 p_data)))"
    by (auto simp: unpack_eq split: if_splits)
  from sz assms(1) have len: "8 \<le> length p_data" by simp
  then obtain b0 b1 b2 b3 b4 b5 b6 b7 r
    where "p_data = b0 # b1 # b2 # b3 # b4 # b5 # b6 # b7 # r"
    by (auto simp: numeral_eq_Suc Suc_le_length_iff)
  then have "p_data = take 3 p_data @ [p_data ! 3] @ take 4 (drop 4 p_data) @ drop 8 p_data"
    by simp
  moreover from len have "u32_to_bytes (u32_of_bytes (take 4 (drop 4 p_data))) = take 4 (drop 4 p_data)"
    by (simp add: u32_to_of_bytes)
  ultimately show "8 \<le> p_size"
    and "h = internal_packet_header_create (m_serde_type h) (m_packet_type h)"
    and "p_data = header_wire (m_serde_type h) (m_packet_type h) @ drop 8 p_data"
    using sz h magic by (simp_all add: header_wire_def)
qed

end
