(* ===== verification/Serializers.thy ===== *)
theory Serializers
  imports Packet Third_Party
begin

text \<open>
  \<^verbatim>\<open>src/src/kb/net/serde\<close> and \<^verbatim>\<open>src/src/kb/net/udp/serde.hpp\<close>: the writer of the packet header,
  the binary and the msgpack serializer, and the interface \<open>packet_codec\<close> that packet client and
  packet server rely on. The CRTP base class only forwards to the derived class, so a serializer is
  a record of its functions.
\<close>

section \<open>Packets in memory\<close>

record 'b internal_packet_t =
  pkt_header :: internal_packet_header_t
  pkt_buffer :: 'b
  pkt_conn :: kb_connection_t

definition internal_packet_create ::
  "'b owning_buffer_api \<Rightarrow> internal_packet_header_t \<Rightarrow> u8 list \<Rightarrow> nat \<Rightarrow> 'b internal_packet_t" where
  "internal_packet_create ob p_header p_data p_size =
     \<lparr>pkt_header = p_header, pkt_buffer = ob_consume ob p_data p_size, pkt_conn = 0\<rparr>"

section \<open>Writing the header\<close>

function write_magic :: "u8 list \<Rightarrow> nat \<Rightarrow> (u8 list \<times> nat) result" where
  "write_magic p_buffer cursor =
     (if cursor < length k_magic_bytes then
        bind_result (buf_write p_buffer cursor (k_magic_bytes ! cursor)) (\<lambda>b. write_magic b (cursor + 1))
      else Inr (p_buffer, cursor))"
  by pat_completeness auto
termination
  by (relation "measure (\<lambda>(b, cursor). length k_magic_bytes - cursor)") auto

declare write_magic.simps [simp del]

definition write_internal_packet_header ::
  "u8 list \<Rightarrow> internal_packet_header_t \<Rightarrow> (u8 list \<times> nat) result" where
  "write_internal_packet_header p_buffer p_header =
     bind_result (write_magic p_buffer 0) (\<lambda>(b, cursor).
     bind_result (buf_write b cursor (m_serde_type p_header)) (\<lambda>b.
     bind_result (memcpy_in b (cursor + 1) (u32_to_bytes (m_packet_type p_header))) (\<lambda>b.
     bind_result (kb_assert (cursor + 1 + sizeof_packet_type_t = sizeof_internal_packet_header_t)) (\<lambda>_.
       Inr (b, cursor + 1 + sizeof_packet_type_t)))))"

lemma write_internal_packet_header_eq:
  assumes "8 \<le> length b"
  shows "write_internal_packet_header b h =
    Inr (header_wire (m_serde_type h) (m_packet_type h) @ drop 8 b, 8)"
proof -
  from assms obtain b0 b1 b2 b3 b4 b5 b6 b7 r where b: "b = b0 # b1 # b2 # b3 # b4 # b5 # b6 # b7 # r"
    by (auto simp: numeral_eq_Suc Suc_le_length_iff)
  then have "write_magic b 0 = Inr (k_magic_bytes @ b3 # b4 # b5 # b6 # b7 # r, 3)"
    by (simp add: write_magic.simps buf_write_def k_magic_bytes_def)
  then show ?thesis
    by (simp add: write_internal_packet_header_def b buf_write_def memcpy_in_def
        list_update_append header_wire_def sizeof_packet_type_t_def)
qed

section \<open>The interface of a serializer\<close>

text \<open>\<open>traits_serde\<close> is the tag \<^verbatim>\<open>SerdeT\<close> the traits class selects the serializer by;
  \<open>serialize_packet\<close> takes the contents of the memory \<^verbatim>\<open>new\<close> returns.\<close>

record ('o, 'p, 'b) serializer =
  traits_serde :: serialization_type_t
  serialize_packet ::
    "(nat \<Rightarrow> u8) \<Rightarrow> kb_connection_t \<Rightarrow> packet_type_t \<Rightarrow> 'o \<Rightarrow> 'b internal_packet_t result"
  deserialize_packet :: "u8 list \<Rightarrow> nat \<Rightarrow> 'p option"
  payload_as :: "'p \<Rightarrow> 'o option"

locale packet_codec =
  fixes ob :: "'b owning_buffer_api"
    and S :: "('o, 'p, 'b) serializer"
    and wire_type :: "packet_type_t \<Rightarrow> packet_type_t"
    and body :: "'o \<Rightarrow> u8 list"
    and libs_ok :: bool
  assumes buffers: "libs_ok \<Longrightarrow> owning_buffer_ok ob"
    and serialize: "libs_ok \<Longrightarrow> 8 + length (body x) < 2 ^ 64 \<Longrightarrow>
      serialize_packet S junk c t x =
        Inr \<lparr>pkt_header = internal_packet_header_create (traits_serde S) t,
             pkt_buffer = ob_consume ob (header_wire (traits_serde S) (wire_type t) @ body x)
               (8 + length (body x)),
             pkt_conn = c\<rparr>"
    and decode: "libs_ok \<Longrightarrow> n = length (body x) \<Longrightarrow>
      Option.bind (deserialize_packet S (body x) n) (payload_as S) = Some x"
begin

lemma sent_bytes:
  assumes "libs_ok" and "8 + length (body x) < 2 ^ 64"
    and "serialize_packet S junk c t x = Inr p"
  shows "ob_data ob (pkt_buffer p) = header_wire (traits_serde S) (wire_type t) @ body x"
    and "ob_size ob (pkt_buffer p) = 8 + length (body x)"
    and "pkt_conn p = c"
  using assms buffers by (auto simp: serialize)

lemma decodeE:
  assumes "libs_ok"
  obtains p where "deserialize_packet S (body x) (length (body x)) = Some p" and "payload_as S p = Some x"
  using decode [OF assms refl, of x] by (auto simp: bind_eq_Some_conv)

text \<open>Distinct objects of a type have distinct bytes: the receiver can tell them apart.\<close>

lemma body_inject: "libs_ok \<Longrightarrow> body x = body y \<longleftrightarrow> x = y"
  by (metis decode option.inject)

text \<open>Serialization leaves none of the memory it allocated unwritten.\<close>

lemma junk_irrelevant:
  "libs_ok \<Longrightarrow> 8 + length (body x) < 2 ^ 64 \<Longrightarrow>
   serialize_packet S junk c t x = serialize_packet S junk' c t x"
  by (simp add: serialize)

end

section \<open>The binary serializer\<close>

text \<open>A trivially copyable type of the application: its size, the bytes of an object and the
  object with given bytes.\<close>

record 'o pod_type =
  pod_sizeof :: nat
  pod_bytes :: "'o \<Rightarrow> u8 list"
  pod_value :: "u8 list \<Rightarrow> 'o"

definition pod_ok :: "'o pod_type \<Rightarrow> bool" where
  "pod_ok T \<longleftrightarrow> (\<forall>x. length (pod_bytes T x) = pod_sizeof T \<and> pod_value T (pod_bytes T x) = x)"

function copy_loop :: "u8 list \<Rightarrow> nat \<Rightarrow> u8 list \<Rightarrow> nat \<Rightarrow> nat \<Rightarrow> u8 list result" where
  "copy_loop buffer cursor p_data p_size i =
     (if i < p_size then
        bind_result (buf_read p_data i) (\<lambda>b.
        bind_result (buf_write buffer (cursor + i) b) (\<lambda>buffer'.
          copy_loop buffer' cursor p_data p_size (i + 1)))
      else Inr buffer)"
  by pat_completeness auto
termination
  by (relation "measure (\<lambda>(buffer, cursor, p_data, p_size, i). p_size - i)") auto

declare copy_loop.simps [simp del]

definition BinaryPacketSerializer_serialize ::
  "'b owning_buffer_api \<Rightarrow> (nat \<Rightarrow> u8) \<Rightarrow> kb_connection_t \<Rightarrow> u8 list \<Rightarrow> nat \<Rightarrow> packet_type_t \<Rightarrow>
   'b internal_packet_t result" where
  "BinaryPacketSerializer_serialize ob junk p_conn p_data p_size p_packet_type =
     (let data_size = size_add sizeof_internal_packet_header_t p_size;
          buffer = new_u8 junk data_size in
      bind_result
        (write_internal_packet_header buffer
          (internal_packet_header_create serde_bin (packet_type_of_id Packet_id_unknown)))
        (\<lambda>(buffer, cursor).
      bind_result (copy_loop buffer cursor p_data p_size 0) (\<lambda>buffer.
        Inr \<lparr>pkt_header = internal_packet_header_default
               \<lparr>m_serde_type := serde_bin, m_packet_type := p_packet_type\<rparr>,
             pkt_buffer = ob_consume ob buffer data_size,
             pkt_conn = p_conn\<rparr>)))"

definition binary_serialize_packet_internal ::
  "'b owning_buffer_api \<Rightarrow> 'o pod_type \<Rightarrow> (nat \<Rightarrow> u8) \<Rightarrow> kb_connection_t \<Rightarrow> packet_type_t \<Rightarrow> 'o \<Rightarrow>
   'b internal_packet_t result" where
  "binary_serialize_packet_internal ob T junk p_conn p_packet_type p_payload =
     BinaryPacketSerializer_serialize ob junk p_conn (pod_bytes T p_payload) (pod_sizeof T) p_packet_type"

definition binary_deserialize_packet_internal :: "u8 list \<Rightarrow> nat \<Rightarrow> u8 list option" where
  "binary_deserialize_packet_internal p_payload p_payload_size = Some (take p_payload_size p_payload)"

definition binary_payload_as_internal :: "'o pod_type \<Rightarrow> u8 list \<Rightarrow> 'o option" where
  "binary_payload_as_internal T p_payload =
     (if length p_payload \<noteq> pod_sizeof T then None
      else Some (pod_value T (take (pod_sizeof T) p_payload)))"

definition binary_serializer :: "'b owning_buffer_api \<Rightarrow> 'o pod_type \<Rightarrow> ('o, u8 list, 'b) serializer" where
  "binary_serializer ob T =
     \<lparr>traits_serde = serde_bin,
      serialize_packet = binary_serialize_packet_internal ob T,
      deserialize_packet = binary_deserialize_packet_internal,
      payload_as = binary_payload_as_internal T\<rparr>"

lemma copy_loop_eq:
  assumes "cursor + p_size \<le> length buffer" and "p_size \<le> length p_data" and "i \<le> p_size"
  shows "copy_loop buffer cursor p_data p_size i =
    Inr (take (cursor + i) buffer @ take (p_size - i) (drop i p_data) @ drop (cursor + p_size) buffer)"
  using assms
proof (induction buffer cursor p_data p_size i rule: copy_loop.induct)
  case (1 buffer cursor p_data p_size i)
  show ?case
  proof (cases "i < p_size")
    case True
    let ?b = "buffer[cursor + i := p_data ! i]"
    have rd: "buf_read p_data i = Inr (p_data ! i)" and wr: "buf_write buffer (cursor + i) (p_data ! i) = Inr ?b"
      using True "1.prems" by (simp_all add: buffer_simps)
    have IH: "copy_loop ?b cursor p_data p_size (i + 1) =
      Inr (take (cursor + (i + 1)) ?b @ take (p_size - (i + 1)) (drop (i + 1) p_data) @ drop (cursor + p_size) ?b)"
      using "1.IH" [OF True] "1.prems" True rd wr by simp
    have "take (cursor + (i + 1)) ?b = take (cursor + i) buffer @ [p_data ! i]"
      using True "1.prems" by (simp add: take_Suc_conv_app_nth)
    moreover have "take (p_size - i) (drop i p_data) = p_data ! i # take (p_size - (i + 1)) (drop (i + 1) p_data)"
      using True "1.prems" by (simp add: Cons_nth_drop_Suc [symmetric] take_Cons' Suc_diff_Suc)
    ultimately show ?thesis
      using True IH rd wr by (simp add: copy_loop.simps [of buffer])
  next
    case False
    with "1.prems" show ?thesis by (simp add: copy_loop.simps)
  qed
qed

text \<open>
  The bytes of a binary packet, for every size that does not overflow: whatever type the caller
  asked for, the header on the wire says \<^verbatim>\<open>unknown\<close>.
\<close>

lemma BinaryPacketSerializer_serialize_eq:
  assumes "length p_data = p_size" and "8 + p_size < 2 ^ 64"
  shows "BinaryPacketSerializer_serialize ob junk c p_data p_size t =
    Inr \<lparr>pkt_header = internal_packet_header_create serde_bin t,
         pkt_buffer = ob_consume ob (header_wire serde_bin KB_PACKET_ID_UNKNOWN @ p_data) (8 + p_size),
         pkt_conn = c\<rparr>"
  using assms
  by (simp add: BinaryPacketSerializer_serialize_def Let_def buffer_simps
      write_internal_packet_header_eq copy_loop_eq internal_packet_header_create_def)

interpretation binary: packet_codec ob "binary_serializer ob T" "\<lambda>_. KB_PACKET_ID_UNKNOWN" "pod_bytes T"
    "owning_buffer_ok ob \<and> pod_ok T"
  for ob :: "'b owning_buffer_api" and T :: "'o pod_type"
  by unfold_locales
    (auto simp: binary_serializer_def binary_serialize_packet_internal_def pod_ok_def
      BinaryPacketSerializer_serialize_eq binary_deserialize_packet_internal_def
      binary_payload_as_internal_def)

section \<open>The msgpack serializer\<close>

definition msgpack_serialize_packet_internal ::
  "'b owning_buffer_api \<Rightarrow> ('o, 'p) msgpack_api \<Rightarrow> (nat \<Rightarrow> u8) \<Rightarrow> kb_connection_t \<Rightarrow> packet_type_t \<Rightarrow> 'o \<Rightarrow>
   'b internal_packet_t result" where
  "msgpack_serialize_packet_internal ob mp junk p_conn p_packet_type p_object =
     (let header = internal_packet_header_create serde_msgpack p_packet_type;
          data = mp_pack mp p_object;
          write_size = length data;
          packet_buffer_size = size_add write_size sizeof_internal_packet_header_t;
          packet_buffer = new_u8 junk packet_buffer_size in
      bind_result (write_internal_packet_header packet_buffer header) (\<lambda>(packet_buffer, cursor).
      bind_result (memcpy_in packet_buffer cursor data) (\<lambda>packet_buffer.
        Inr \<lparr>pkt_header = header,
             pkt_buffer = ob_consume ob packet_buffer packet_buffer_size,
             pkt_conn = p_conn\<rparr>)))"

definition msgpack_deserialize_packet_internal ::
  "('o, 'p) msgpack_api \<Rightarrow> u8 list \<Rightarrow> nat \<Rightarrow> 'p option" where
  "msgpack_deserialize_packet_internal mp p_payload p_payload_size =
     mp_unpack mp (take p_payload_size p_payload)"

definition msgpack_payload_as_internal :: "('o, 'p) msgpack_api \<Rightarrow> 'p \<Rightarrow> 'o option" where
  "msgpack_payload_as_internal mp p_payload = mp_convert mp p_payload"

definition msgpack_serializer ::
  "'b owning_buffer_api \<Rightarrow> ('o, 'p) msgpack_api \<Rightarrow> ('o, 'p, 'b) serializer" where
  "msgpack_serializer ob mp =
     \<lparr>traits_serde = serde_msgpack,
      serialize_packet = msgpack_serialize_packet_internal ob mp,
      deserialize_packet = msgpack_deserialize_packet_internal mp,
      payload_as = msgpack_payload_as_internal mp\<rparr>"

lemma msgpack_payload_as_internal_eq: "msgpack_payload_as_internal mp = mp_convert mp"
  by (simp add: fun_eq_iff msgpack_payload_as_internal_def)

interpretation msgpack: packet_codec ob "msgpack_serializer ob mp" "\<lambda>t. t" "mp_pack mp"
    "owning_buffer_ok ob \<and> msgpack_ok mp"
  for ob :: "'b owning_buffer_api" and mp :: "('o, 'p) msgpack_api"
  by unfold_locales
    (auto simp: msgpack_serializer_def msgpack_serialize_packet_internal_def Let_def buffer_simps
      write_internal_packet_header_eq msgpack_deserialize_packet_internal_def
      msgpack_payload_as_internal_eq msgpack_ok_def add.commute)

end
