(* ===== verification/Packet_Client.thy ===== *)
theory Packet_Client
  imports Handler_Registry Udp_Client_Correct Serializers
begin

text \<open>
  \<^verbatim>\<open>src/src/kb/net/udp/client/udp_packet_client.hpp\<close> and \<^verbatim>\<open>udp_packet_client.inl\<close>: a client that
  dispatches packets to handlers by their type, after an optional callback that may take a message
  first. The template parameter \<^verbatim>\<open>SerdeT\<close> is the serializer \<open>S\<close>; packet client \<open>this\<close> owns
  \<^verbatim>\<open>UdpClient\<close> \<open>this\<close>, and its tables are in the state the data callback acts on.
\<close>

section \<open>State\<close>

type_synonym ('p, 'a) client_packet_handler = "'p \<Rightarrow> 'a env \<Rightarrow> 'a env result"

type_synonym 'a pre_handler = "incoming_view_message_t \<Rightarrow> 'a env \<Rightarrow> (bool \<times> 'a env) result"

record ('p, 'a) udp_packet_client =
  pc_alive :: bool
  pc_handlers :: "packet_type_t \<rightharpoonup> ('p, 'a) client_packet_handler option"
  pc_pre_handler :: "'a pre_handler option"

record ('p, 'a) packet_clients_app =
  packet_clients :: "nat \<Rightarrow> ('p, 'a) udp_packet_client"
  pc_user :: 'a

type_synonym ('p, 'a) packet_client_env = "('p, 'a) packet_clients_app env"
type_synonym ('p, 'a) packet_client_world = "('p, 'a) packet_clients_app client_world"

definition upd_packet_client ::
  "nat \<Rightarrow> (('p, 'a) udp_packet_client \<Rightarrow> ('p, 'a) udp_packet_client) \<Rightarrow>
   ('p, 'a) packet_client_env \<Rightarrow> ('p, 'a) packet_client_env" where
  "upd_packet_client this f e =
     e\<lparr>app := (app e)\<lparr>packet_clients := (packet_clients (app e))(this := f (packet_clients (app e) this))\<rparr>\<rparr>"

lemma upd_packet_client_simps [simp]:
  "packet_clients (app (upd_packet_client this f e)) =
     (packet_clients (app e))(this := f (packet_clients (app e) this))"
  "pc_user (app (upd_packet_client this f e)) = pc_user (app e)"
  "calls (upd_packet_client this f e) = calls e"
  by (simp_all add: upd_packet_client_def)

section \<open>Handlers\<close>

definition UdpPacketClient_bind_packet_handler ::
  "nat \<Rightarrow> packet_type_t \<Rightarrow> ('p, 'a) client_packet_handler option \<Rightarrow> ('p, 'a) packet_client_env \<Rightarrow>
   bool \<times> ('p, 'a) packet_client_env" where
  "UdpPacketClient_bind_packet_handler this p_packet_type p_handler e =
     (if pc_handlers (packet_clients (app e) this) p_packet_type \<noteq> None then (False, e)
      else (True, upd_packet_client this
              (\<lambda>c. c\<lparr>pc_handlers := (pc_handlers c)(p_packet_type \<mapsto> p_handler)\<rparr>) e))"

definition UdpPacketClient_unbind_packet_handler ::
  "nat \<Rightarrow> packet_type_t \<Rightarrow> ('p, 'a) packet_client_env \<Rightarrow> ('p, 'a) packet_client_env" where
  "UdpPacketClient_unbind_packet_handler this p_packet_type e =
     upd_packet_client this (\<lambda>c. c\<lparr>pc_handlers := (pc_handlers c)(p_packet_type := None)\<rparr>) e"

definition UdpPacketClient_register_on_data_received_pre_handler_callback ::
  "nat \<Rightarrow> 'a pre_handler option \<Rightarrow> ('p, 'a) packet_client_env \<Rightarrow> ('p, 'a) packet_client_env" where
  "UdpPacketClient_register_on_data_received_pre_handler_callback this p_callback e =
     upd_packet_client this (\<lambda>c. c\<lparr>pc_pre_handler := p_callback\<rparr>) e"

definition call_client_handler ::
  "('p, 'a) client_packet_handler option \<Rightarrow> 'p \<Rightarrow> ('p, 'a) packet_client_env \<Rightarrow> ('p, 'a) packet_client_env result" where
  "call_client_handler handler payload e =
     call_function handler (\<lambda>f. run_user pc_user (\<lambda>u a. a\<lparr>pc_user := u\<rparr>) (f payload) e)"

text \<open>The part of \<^verbatim>\<open>handle_message\<close> after the pre-handler declined.\<close>

definition UdpPacketClient_handle_payload ::
  "('o, 'p, 'b) serializer \<Rightarrow> nat \<Rightarrow> packet_type_t \<Rightarrow> u8 list \<Rightarrow>
   ('p, 'a) packet_client_env \<Rightarrow> (bool \<times> ('p, 'a) packet_client_env) result" where
  "UdpPacketClient_handle_payload S this packet_type buffer e =
     (case pc_handlers (packet_clients (app e) this) packet_type of
        None \<Rightarrow> Inr (False, e)
      | Some handler \<Rightarrow>
          let payload_ptr = drop sizeof_internal_packet_header_t buffer;
              payload_size = length buffer - sizeof_internal_packet_header_t in
          case deserialize_packet S payload_ptr payload_size of
            None \<Rightarrow> Inr (False, e)
          | Some payload \<Rightarrow> bind_result (call_client_handler handler payload e) (\<lambda>e. Inr (True, e)))"

definition UdpPacketClient_pre_handle ::
  "nat \<Rightarrow> incoming_view_message_t \<Rightarrow> ('p, 'a) packet_client_env \<Rightarrow> (bool \<times> ('p, 'a) packet_client_env) result" where
  "UdpPacketClient_pre_handle this p_message e =
     (case pc_pre_handler (packet_clients (app e) this) of
        None \<Rightarrow> Inr (False, e)
      | Some f \<Rightarrow> run_user_value pc_user (\<lambda>u a. a\<lparr>pc_user := u\<rparr>) (f p_message) e)"

definition UdpPacketClient_dispatch ::
  "('o, 'p, 'b) serializer \<Rightarrow> nat \<Rightarrow> internal_packet_header_t \<Rightarrow> incoming_view_message_t \<Rightarrow>
   ('p, 'a) packet_client_env \<Rightarrow> (bool \<times> ('p, 'a) packet_client_env) result" where
  "UdpPacketClient_dispatch S this header p_message e =
     (if m_serde_type header \<noteq> traits_serde S then Inr (False, e)
      else bind_result (UdpPacketClient_pre_handle this p_message e) (\<lambda>(taken, e).
        if taken then Inr (True, e)
        else UdpPacketClient_handle_payload S this (m_packet_type header) (msg_buffer p_message) e))"

definition UdpPacketClient_handle_message ::
  "('o, 'p, 'b) serializer \<Rightarrow> nat \<Rightarrow> incoming_view_message_t \<Rightarrow>
   ('p, 'a) packet_client_env \<Rightarrow> (bool \<times> ('p, 'a) packet_client_env) result" where
  "UdpPacketClient_handle_message S this p_message e =
     bind_result (unpack_internal_packet_header (msg_buffer p_message) (length (msg_buffer p_message)))
       (\<lambda>maybe_header. case maybe_header of
          None \<Rightarrow> Inr (False, e)
        | Some header \<Rightarrow> UdpPacketClient_dispatch S this header p_message e)"

section \<open>Life cycle\<close>

definition UdpPacketClient_on_data ::
  "('o, 'p, 'b) serializer \<Rightarrow> nat \<Rightarrow> incoming_view_message_t \<Rightarrow>
   ('p, 'a) packet_client_env \<Rightarrow> ('p, 'a) packet_client_env result" where
  "UdpPacketClient_on_data S this p_message e =
     (if pc_alive (packet_clients (app e) this)
      then bind_result (UdpPacketClient_handle_message S this p_message e) (\<lambda>(_, e). Inr e)
      else Inr e)"

definition udp_packet_client_new :: "('p, 'a) udp_packet_client" where
  "udp_packet_client_new = \<lparr>pc_alive = True, pc_handlers = Map.empty, pc_pre_handler = None\<rparr>"

definition UdpPacketClient_create ::
  "('o, 'p, 'b) serializer \<Rightarrow> nat \<Rightarrow> ('p, 'a) packet_client_world \<Rightarrow> ('p, 'a) packet_client_world" where
  "UdpPacketClient_create S this w =
     (let w = UdpClient_new this w;
          w = w\<lparr>cenv := upd_packet_client this (\<lambda>_. udp_packet_client_new) (cenv w)\<rparr> in
      UdpClient_set_on_data_callback this (Some (UdpPacketClient_on_data S this)) w)"

text \<open>The members are destroyed in reverse order: callbacks and handlers, then the client.\<close>

definition UdpPacketClient_delete ::
  "client_thread \<Rightarrow> nat \<Rightarrow> ('p, 'a) packet_client_world \<Rightarrow> ('p, 'a) packet_client_world result" where
  "UdpPacketClient_delete caller this w =
     UdpClient_delete caller this
       (w\<lparr>cenv := upd_packet_client this
          (\<lambda>_. \<lparr>pc_alive = False, pc_handlers = Map.empty, pc_pre_handler = None\<rparr>) (cenv w)\<rparr>)"

definition UdpPacketClient_connect ::
  "steam_api \<Rightarrow> nat \<Rightarrow> string \<Rightarrow> u16 \<Rightarrow> 'w client_world \<Rightarrow> (bool \<times> 'w client_world) result" where
  "UdpPacketClient_connect st this p_address p_port w = UdpClient_connect st this p_address p_port w"

definition UdpPacketClient_stop :: "client_thread \<Rightarrow> nat \<Rightarrow> 'w client_world \<Rightarrow> 'w client_world result" where
  "UdpPacketClient_stop caller this w = UdpClient_stop caller this w"

definition UdpPacketClient_get_connection_status :: "nat \<Rightarrow> 'w client_world \<Rightarrow> connection_status_t" where
  "UdpPacketClient_get_connection_status this w = UdpClient_get_connection_status this w"

definition UdpPacketClient_is_running :: "nat \<Rightarrow> 'w client_world \<Rightarrow> bool" where
  "UdpPacketClient_is_running this w = UdpClient_is_running this w"

section \<open>Sending\<close>

definition UdpPacketClient_send_packet_internal ::
  "steam_api \<Rightarrow> 'b owning_buffer_api \<Rightarrow> nat \<Rightarrow> 'b internal_packet_t \<Rightarrow> bool \<Rightarrow> 'w client_world \<Rightarrow>
   bool \<times> 'w client_world" where
  "UdpPacketClient_send_packet_internal st ob this p_packet p_reliable w =
     UdpClient_send_raw st this (ob_data ob (pkt_buffer p_packet)) (ob_size ob (pkt_buffer p_packet)) p_reliable w"

definition UdpPacketClient_send_packet ::
  "steam_api \<Rightarrow> 'b owning_buffer_api \<Rightarrow> ('o, 'p, 'b) serializer \<Rightarrow> (nat \<Rightarrow> u8) \<Rightarrow> nat \<Rightarrow> packet_type_t \<Rightarrow> 'o \<Rightarrow>
   bool \<Rightarrow> 'w client_world \<Rightarrow> (bool \<times> 'w client_world) result" where
  "UdpPacketClient_send_packet st ob S junk this p_packet_type p_object p_reliable w =
     bind_result (serialize_packet S junk k_invalid_connection p_packet_type p_object) (\<lambda>packet.
       Inr (UdpPacketClient_send_packet_internal st ob this packet p_reliable w))"

section \<open>The handler table\<close>

interpretation client_handlers: handler_registry
    "UdpPacketClient_bind_packet_handler this" "UdpPacketClient_unbind_packet_handler this"
    "\<lambda>e. pc_handlers (packet_clients (app e) this)"
  for this :: nat
  by unfold_locales
    (auto simp: UdpPacketClient_bind_packet_handler_def UdpPacketClient_unbind_packet_handler_def)

section \<open>What reaches a handler\<close>

lemma handle_message_wire:
  "UdpPacketClient_handle_message S this \<lparr>msg_conn = c, msg_buffer = header_wire s t @ bytes\<rparr> e =
    (if s \<noteq> traits_serde S then Inr (False, e)
     else bind_result (UdpPacketClient_pre_handle this \<lparr>msg_conn = c, msg_buffer = header_wire s t @ bytes\<rparr> e)
       (\<lambda>(taken, e).
          if taken then Inr (True, e)
          else case pc_handlers (packet_clients (app e) this) t of
                 None \<Rightarrow> Inr (False, e)
               | Some handler \<Rightarrow>
                   (case deserialize_packet S bytes (length bytes) of
                      None \<Rightarrow> Inr (False, e)
                    | Some payload \<Rightarrow> bind_result (call_client_handler handler payload e) (\<lambda>e. Inr (True, e)))))"
  by (simp add: UdpPacketClient_handle_message_def UdpPacketClient_dispatch_def
      UdpPacketClient_handle_payload_def Let_def cong: if_cong option.case_cong)

lemma handle_message_other:
  assumes "\<And>s t bytes. msg_buffer m \<noteq> header_wire s t @ bytes"
  shows "UdpPacketClient_handle_message S this m e = Inr (False, e)"
proof -
  obtain r where r: "unpack_internal_packet_header (msg_buffer m) (length (msg_buffer m)) = Inr r"
    using unpack_eq [of "length (msg_buffer m)" "msg_buffer m"] by blast
  have "r = None" using unpack_SomeD(3) [of "length (msg_buffer m)" "msg_buffer m"] r assms by (cases r) auto
  with r show ?thesis by (simp add: UdpPacketClient_handle_message_def)
qed

context packet_codec
begin

lemma client_send:
  assumes "libs_ok" and "8 + length (body x) < 2 ^ 64"
  shows "UdpPacketClient_send_packet st ob S junk this t x reliable w =
    Inr (UdpClient_send_raw st this (header_wire (traits_serde S) (wire_type t) @ body x)
           (8 + length (body x)) reliable w)"
  using assms buffers
  by (simp add: UdpPacketClient_send_packet_def UdpPacketClient_send_packet_internal_def serialize)

text \<open>Without a pre-handler a packet of the codec reaches the handler of its type.\<close>

lemma client_handled:
  assumes "libs_ok" and "pc_pre_handler (packet_clients (app e) this) = None"
    and "pc_handlers (packet_clients (app e) this) (wire_type t) = Some handler"
  obtains p where "payload_as S p = Some x"
    and "UdpPacketClient_handle_message S this
        \<lparr>msg_conn = c, msg_buffer = header_wire (traits_serde S) (wire_type t) @ body x\<rparr> e =
      bind_result (call_client_handler handler p e) (\<lambda>e. Inr (True, e))"
proof -
  obtain p where "deserialize_packet S (body x) (length (body x)) = Some p" and "payload_as S p = Some x"
    by (rule decodeE [OF assms(1)])
  with assms(2,3) show thesis
    by (intro that [of p]) (simp_all add: handle_message_wire UdpPacketClient_pre_handle_def)
qed

end

end
