(* ===== verification/Async_Client.thy ===== *)
theory Async_Client
  imports Packet_Client
begin

text \<open>
  \<^verbatim>\<open>src/src/kb/net/udp/client/async_udp_packet_client.hpp\<close> and \<^verbatim>\<open>async_udp_packet_client.inl\<close>: the
  client whose coroutines wait for a packet of a type. A coroutine is cut where it suspends:
  \<^verbatim>\<open>async_wait_for_packet\<close> is the registration of an awaiter, and what it does once its event is set.
  The thread pool and \<^verbatim>\<open>coro::event\<close> are libcoro's; an event is its identity, and whether it is set.
\<close>

section \<open>Awaiters\<close>

record 'p awaiting_packet_t =
  aw_event :: nat
  aw_data :: "'p option"

text \<open>\<open>as_next_event\<close> gives each coroutine's local \<^verbatim>\<open>event\<close> its own identity.\<close>

record 'p async_client =
  as_alive :: bool
  as_awaiters :: "packet_type_t \<rightharpoonup> 'p awaiting_packet_t list"
  as_events_set :: "nat set"
  as_next_event :: nat

definition async_client_new :: "'p async_client" where
  "async_client_new = \<lparr>as_alive = True, as_awaiters = Map.empty, as_events_set = {}, as_next_event = 0\<rparr>"

definition AsyncUdpPacketClient_register_packet_awaiter ::
  "packet_type_t \<Rightarrow> 'p awaiting_packet_t \<Rightarrow> 'p async_client \<Rightarrow> 'p async_client" where
  "AsyncUdpPacketClient_register_packet_awaiter p_packet_type p_awaiting s =
     (case as_awaiters s p_packet_type of
        Some queue \<Rightarrow> s\<lparr>as_awaiters := (as_awaiters s)(p_packet_type \<mapsto> queue_push queue p_awaiting)\<rparr>
      | None \<Rightarrow> s\<lparr>as_awaiters := (as_awaiters s)(p_packet_type \<mapsto> queue_push [] p_awaiting)\<rparr>)"

text \<open>\<^verbatim>\<open>m_awaiters[p_packet_type]\<close> inserts an empty queue where there is none.\<close>

definition AsyncUdpPacketClient_get_packet_awaiter ::
  "packet_type_t \<Rightarrow> 'p async_client \<Rightarrow> 'p awaiting_packet_t option \<times> 'p async_client" where
  "AsyncUdpPacketClient_get_packet_awaiter p_packet_type s =
     (let queue = (case as_awaiters s p_packet_type of None \<Rightarrow> [] | Some q \<Rightarrow> q) in
      case queue of
        [] \<Rightarrow> (None, s\<lparr>as_awaiters := (as_awaiters s)(p_packet_type \<mapsto> [])\<rparr>)
      | a # rest \<Rightarrow> (Some a, s\<lparr>as_awaiters := (as_awaiters s)(p_packet_type \<mapsto> rest)\<rparr>))"

section \<open>Waiting for a packet\<close>

text \<open>Up to \<^verbatim>\<open>co_await event\<close>: the event the coroutine waits for, and the new state.\<close>

definition async_wait_begin :: "packet_type_t \<Rightarrow> 'p async_client \<Rightarrow> nat \<times> 'p async_client" where
  "async_wait_begin p_packet_type s =
     (let event = as_next_event s in
      (event, AsyncUdpPacketClient_register_packet_awaiter p_packet_type \<lparr>aw_event = event, aw_data = None\<rparr>
                (s\<lparr>as_next_event := event + 1\<rparr>)))"

text \<open>After it: the object the coroutine returns. It takes the front of the queue, whoever that is.\<close>

definition async_wait_end ::
  "('o, 'p, 'b) serializer \<Rightarrow> packet_type_t \<Rightarrow> 'p async_client \<Rightarrow> 'o option \<times> 'p async_client" where
  "async_wait_end S p_packet_type s =
     (case AsyncUdpPacketClient_get_packet_awaiter p_packet_type s of
        (None, s) \<Rightarrow> (None, s)
      | (Some awaiter, s) \<Rightarrow> (Option.bind (aw_data awaiter) (payload_as S), s))"

section \<open>Receiving\<close>

text \<open>
  \<^verbatim>\<open>on_data_received_pre_handler\<close> finds the front awaiter under the lock and uses the pointer to it
  after the lock is released. The pointer is the packet type and the awaiter's event; using it when
  another thread has popped that awaiter is a use after free.
\<close>

definition async_find_awaiter ::
  "packet_type_t \<Rightarrow> 'p async_client \<Rightarrow> (packet_type_t \<times> nat) option" where
  "async_find_awaiter packet_type s =
     (case as_awaiters s packet_type of
        None \<Rightarrow> None
      | Some queue \<Rightarrow> (case queue of [] \<Rightarrow> None | a # _ \<Rightarrow> Some (packet_type, aw_event a)))"

definition async_notify_awaiter ::
  "packet_type_t \<times> nat \<Rightarrow> 'p option \<Rightarrow> 'p async_client \<Rightarrow> 'p async_client result" where
  "async_notify_awaiter awaiter maybe_payload s =
     (case as_awaiters s (fst awaiter) of
        Some (a # rest) \<Rightarrow>
          if aw_event a = snd awaiter then
            Inr (s\<lparr>as_awaiters := (as_awaiters s)(fst awaiter \<mapsto>
                     (case maybe_payload of None \<Rightarrow> a | Some p \<Rightarrow> a\<lparr>aw_data := Some p\<rparr>) # rest),
                   as_events_set := insert (aw_event a) (as_events_set s)\<rparr>)
          else Inl Use_after_free
      | _ \<Rightarrow> Inl Use_after_free)"

definition async_take_packet ::
  "('o, 'p, 'b) serializer \<Rightarrow> packet_type_t \<Rightarrow> u8 list \<Rightarrow> 'p async_client \<Rightarrow> (bool \<times> 'p async_client) result" where
  "async_take_packet S packet_type buffer s =
     (case async_find_awaiter packet_type s of
        None \<Rightarrow> Inr (False, s)
      | Some awaiter \<Rightarrow>
          let payload_ptr = drop sizeof_internal_packet_header_t buffer;
              payload_size = length buffer - sizeof_internal_packet_header_t in
          bind_result (async_notify_awaiter awaiter (deserialize_packet S payload_ptr payload_size) s)
            (\<lambda>s. Inr (True, s)))"

text \<open>\<open>this\<close> is the index of the async client; the user state of the packet clients is the family of
  async clients, since the inner client is private and no handler of a user can be bound to it.\<close>

definition AsyncUdpPacketClient_on_data_received_pre_handler ::
  "('o, 'p, 'b) serializer \<Rightarrow> nat \<Rightarrow> incoming_view_message_t \<Rightarrow> (nat \<Rightarrow> 'p async_client) env \<Rightarrow>
   (bool \<times> (nat \<Rightarrow> 'p async_client) env) result" where
  "AsyncUdpPacketClient_on_data_received_pre_handler S this p_message e =
     bind_result (unpack_internal_packet_header (msg_buffer p_message) (length (msg_buffer p_message)))
       (\<lambda>maybe_header. case maybe_header of
          None \<Rightarrow> Inr (False, e)
        | Some header \<Rightarrow>
            if m_serde_type header \<noteq> traits_serde S then Inr (False, e)
            else bind_result (async_take_packet S (m_packet_type header) (msg_buffer p_message) (app e this))
                   (\<lambda>(taken, s). Inr (taken, e\<lparr>app := (app e)(this := s)\<rparr>)))"

section \<open>Life cycle\<close>

text \<open>The lambda \<^verbatim>\<open>create\<close> registers.\<close>

definition async_pre_handler :: "('o, 'p, 'b) serializer \<Rightarrow> nat \<Rightarrow> (nat \<Rightarrow> 'p async_client) pre_handler" where
  "async_pre_handler S this msg e =
     (if as_alive (app e this) then AsyncUdpPacketClient_on_data_received_pre_handler S this msg e
      else Inr (False, e))"

definition AsyncUdpPacketClient_create ::
  "('o, 'p, 'b) serializer \<Rightarrow> nat \<Rightarrow> ('p, nat \<Rightarrow> 'p async_client) packet_client_world \<Rightarrow>
   ('p, nat \<Rightarrow> 'p async_client) packet_client_world" where
  "AsyncUdpPacketClient_create S this w =
     (let w = UdpPacketClient_create S this w;
          clients = (pc_user (app (cenv w)))(this := async_client_new);
          e = (cenv w)\<lparr>app := (app (cenv w))\<lparr>pc_user := clients\<rparr>\<rparr> in
      w\<lparr>cenv := UdpPacketClient_register_on_data_received_pre_handler_callback this
                  (Some (async_pre_handler S this)) e\<rparr>)"

text \<open>Destruction: the awaiters go, and with \<^verbatim>\<open>m_client\<close> the last reference to the packet client. The
  events of coroutines that still wait are never set.\<close>

definition AsyncUdpPacketClient_delete ::
  "client_thread \<Rightarrow> nat \<Rightarrow> ('p, nat \<Rightarrow> 'p async_client) packet_client_world \<Rightarrow>
   ('p, nat \<Rightarrow> 'p async_client) packet_client_world result" where
  "AsyncUdpPacketClient_delete caller this w =
     (let s = pc_user (app (cenv w)) this;
          clients = (pc_user (app (cenv w)))(this := s\<lparr>as_alive := False, as_awaiters := Map.empty\<rparr>) in
      UdpPacketClient_delete caller this (w\<lparr>cenv := (cenv w)\<lparr>app := (app (cenv w))\<lparr>pc_user := clients\<rparr>\<rparr>\<rparr>))"

definition AsyncUdpPacketClient_stop :: "client_thread \<Rightarrow> nat \<Rightarrow> 'w client_world \<Rightarrow> 'w client_world result" where
  "AsyncUdpPacketClient_stop caller this w = UdpPacketClient_stop caller this w"

definition AsyncUdpPacketClient_is_running :: "nat \<Rightarrow> 'w client_world \<Rightarrow> bool" where
  "AsyncUdpPacketClient_is_running this w = UdpPacketClient_is_running this w"

definition AsyncUdpPacketClient_get_connection_status :: "nat \<Rightarrow> 'w client_world \<Rightarrow> connection_status_t" where
  "AsyncUdpPacketClient_get_connection_status this w = UdpPacketClient_get_connection_status this w"

definition AsyncUdpPacketClient_send_packet ::
  "steam_api \<Rightarrow> 'b owning_buffer_api \<Rightarrow> ('o, 'p, 'b) serializer \<Rightarrow> (nat \<Rightarrow> u8) \<Rightarrow> nat \<Rightarrow> packet_type_t \<Rightarrow> 'o \<Rightarrow>
   bool \<Rightarrow> 'w client_world \<Rightarrow> (bool \<times> 'w client_world) result" where
  "AsyncUdpPacketClient_send_packet st ob S junk this p_packet_type p_object p_reliable w =
     UdpPacketClient_send_packet st ob S junk this p_packet_type p_object p_reliable w"

section \<open>Connecting\<close>

definition max_iters :: nat where
  "max_iters = 1000 div 50"

text \<open>
  The loop that watches the status: \<open>reads k\<close> is the status the \<open>k\<close>-th read sees while the network
  thread goes on; the result is the last status and the number of sleeps of 50 ms.
\<close>

function connect_wait_loop :: "(nat \<Rightarrow> connection_status_t) \<Rightarrow> nat \<Rightarrow> connection_status_t \<times> nat" where
  "connect_wait_loop reads iter =
     (let connection_status = reads iter in
      if iter \<ge> max_iters then (connection_status, iter)
      else if connection_status = Connecting then connect_wait_loop reads (iter + 1)
      else (connection_status, iter + 1))"
  by pat_completeness auto
termination
  by (relation "measure (\<lambda>(reads, iter). max_iters - iter)") auto

declare connect_wait_loop.simps [simp del]

text \<open>The result of the coroutine, the sleeps it made, and the world right after the inner
  \<^verbatim>\<open>connect\<close>.\<close>

definition AsyncUdpPacketClient_connect ::
  "steam_api \<Rightarrow> nat \<Rightarrow> string \<Rightarrow> u16 \<Rightarrow> (nat \<Rightarrow> connection_status_t) \<Rightarrow> 'w client_world \<Rightarrow>
   (bool \<times> nat \<times> 'w client_world) result" where
  "AsyncUdpPacketClient_connect st this p_address p_port reads w =
     (if UdpPacketClient_is_running this w then Inr (False, 0, w)
      else bind_result (UdpPacketClient_connect st this p_address p_port w) (\<lambda>(res, w).
        if \<not> res then Inr (False, 0, w)
        else case connect_wait_loop reads 0 of
               (connection_status, sleeps) \<Rightarrow> Inr (connection_status = Connected, sleeps, w)))"

section \<open>Waiters and packets as a system\<close>

text \<open>\<open>ac_waiters\<close> are the suspended coroutines: the event of each, and the type it waits for.\<close>

record 'p async_system =
  ac_state :: "'p async_client"
  ac_waiters :: "nat \<rightharpoonup> packet_type_t"

definition async_system_init :: "'p async_system" where
  "async_system_init = \<lparr>ac_state = async_client_new, ac_waiters = Map.empty\<rparr>"

inductive async_step :: "('o, 'p, 'b) serializer \<Rightarrow> 'p async_system \<Rightarrow> 'p async_system \<Rightarrow> bool" for S where
  wait:
    "async_wait_begin t (ac_state s) = (ev, c) \<Longrightarrow>
     async_step S s (s\<lparr>ac_state := c, ac_waiters := (ac_waiters s)(ev \<mapsto> t)\<rparr>)"
| packet:
    "async_take_packet S t buffer (ac_state s) = Inr (taken, c) \<Longrightarrow>
     async_step S s (s\<lparr>ac_state := c\<rparr>)"
| resume:
    "ac_waiters s ev = Some t \<Longrightarrow> ev \<in> as_events_set (ac_state s) \<Longrightarrow>
     async_wait_end S t (ac_state s) = (r, c) \<Longrightarrow>
     async_step S s (s\<lparr>ac_state := c, ac_waiters := (ac_waiters s)(ev := None)\<rparr>)"

inductive async_reachable :: "('o, 'p, 'b) serializer \<Rightarrow> 'p async_system \<Rightarrow> bool" for S where
  init: "async_reachable S async_system_init"
| step: "async_reachable S s \<Longrightarrow> async_step S s t \<Longrightarrow> async_reachable S t"

end
