(* ===== verification/Wire_Properties.thy ===== *)
theory Wire_Properties
  imports Serializers
begin

text \<open>
  The properties of the wire format: the header parser accepts exactly the packets that start with
  a header, writer and parser are inverse, a serialized packet carries its object, and what the
  binary serializer puts in the type field.
\<close>

section \<open>Concrete libraries\<close>

text \<open>An owning buffer that is its bytes, the one-byte objects of msgpack (format \<^verbatim>\<open>uint 8\<close>), and
  \<^verbatim>\<open>u32\<close> as a trivially copyable type.\<close>

definition sample_buffer :: "u8 list owning_buffer_api" where
  "sample_buffer = \<lparr>ob_consume = (\<lambda>bs n. take n bs), ob_data = (\<lambda>b. b), ob_size = length\<rparr>"

definition sample_msgpack :: "(u8, u8) msgpack_api" where
  "sample_msgpack =
     \<lparr>mp_pack = (\<lambda>x. [0xCC, x]),
      mp_unpack = (\<lambda>bs. case bs of [f, x] \<Rightarrow> if f = 0xCC then Some x else None | _ \<Rightarrow> None),
      mp_convert = Some\<rparr>"

definition sample_pod :: "u32 pod_type" where
  "sample_pod = \<lparr>pod_sizeof = 4, pod_bytes = u32_to_bytes, pod_value = u32_of_bytes\<rparr>"

lemma sample_buffer_ok: "owning_buffer_ok sample_buffer"
  by (simp add: owning_buffer_ok_def sample_buffer_def)

lemma sample_msgpack_ok: "msgpack_ok sample_msgpack"
  by (simp add: msgpack_ok_def sample_msgpack_def)

lemma sample_pod_ok: "pod_ok sample_pod"
  by (simp add: pod_ok_def sample_pod_def)

section \<open>The header\<close>

text \<open>
  C3: The header parser never faults, whatever bytes arrive, as long as the size it is told is not
  larger than the data. It accepts exactly the packets of at least eight bytes that start with the
  magic bytes, and the header it yields is the one whose eight bytes the packet starts with.
\<close>

theorem unpack_header_exact:
  assumes "p_size \<le> length p_data"
  shows "\<exists>r. unpack_internal_packet_header p_data p_size = Inr r \<and>
    (\<forall>h. r = Some h \<longleftrightarrow>
       8 \<le> p_size \<and> (\<exists>s t. h = internal_packet_header_create s t \<and> p_data = header_wire s t @ drop 8 p_data))"
proof -
  obtain r where r: "unpack_internal_packet_header p_data p_size = Inr r"
    using unpack_eq [OF assms] by blast
  have "8 \<le> p_size \<and> (\<exists>s t. h = internal_packet_header_create s t \<and> p_data = header_wire s t @ drop 8 p_data)"
    if "r = Some h" for h
    using unpack_SomeD [OF assms, of h] r that by blast
  moreover have "r = Some (internal_packet_header_create s t)"
    if "8 \<le> p_size" and d: "p_data = header_wire s t @ drop 8 p_data" for s t
  proof -
    have "take 3 p_data = k_magic_bytes" "p_data ! 3 = s" "take 4 (drop 4 p_data) = u32_to_bytes t"
      by (subst d, simp add: header_wire_def nth_append)+
    then show ?thesis using r unpack_eq [OF assms] that(1) by simp
  qed
  ultimately show ?thesis using r by blast
qed

theorem unpack_header_exact_witness:
  "unpack_internal_packet_header [0x4B, 0x42, 0x4C, 1, 2, 0, 0, 0, 9] 9 =
     Inr (Some (internal_packet_header_create 1 2))"
proof -
  have "[0x4B, 0x42, 0x4C, 1, 2, 0, 0, 0, 9 :: u8] = header_wire 1 2 @ [9]"
    by (simp add: header_wire_def k_magic_bytes_def k_magic_byte_0_def k_magic_byte_1_def
        k_magic_byte_2_def KB_MAGIC_BYTE_0_def KB_MAGIC_BYTE_1_def KB_MAGIC_BYTE_2_def u32_to_bytes_eq)
  then show ?thesis
    using unpack_header_exact [of 9 "[0x4B, 0x42, 0x4C, 1, 2, 0, 0, 0, 9]"] by auto
qed

text \<open>
  C32: Writing a header into a buffer of at least eight bytes fills exactly the first eight, leaves
  the rest, reports a cursor of 8, and the parser reads the same header back. In a shorter buffer
  the writer runs out of bounds: it checks nothing.
\<close>

theorem write_header_roundtrip:
  "if 8 \<le> length b
   then \<exists>b'. write_internal_packet_header b h = Inr (b', 8) \<and> length b' = length b \<and> drop 8 b' = drop 8 b \<and>
     unpack_internal_packet_header b' (length b') =
       Inr (Some (internal_packet_header_create (m_serde_type h) (m_packet_type h)))
   else write_internal_packet_header b h = Inl Out_of_bounds"
proof (cases "8 \<le> length b")
  case True
  then show ?thesis by (simp add: write_internal_packet_header_eq)
next
  case False
  have magic: "write_magic b 0 =
    (if length b < 3 then Inl Out_of_bounds else Inr (k_magic_bytes @ drop 3 b, 3))"
    by (cases b rule: list.exhaust; cases "tl b"; cases "tl (tl b)")
      (auto simp: write_magic.simps buf_write_def k_magic_bytes_def)
  with False show ?thesis
    by (auto simp: write_internal_packet_header_def buf_write_def memcpy_in_def)
qed

section \<open>Packets\<close>

text \<open>
  C4: A msgpack packet carries its object. For every type and object, whatever was in the memory
  \<^verbatim>\<open>new\<close> returned, serialization succeeds; the bytes start with a header of serialization msgpack and
  the given type, and the bytes after it decode to the object.
\<close>

theorem msgpack_packet_roundtrip:
  assumes "owning_buffer_ok ob" and "msgpack_ok mp" and "8 + length (mp_pack mp x) < 2 ^ 64"
  shows "\<exists>p. msgpack_serialize_packet_internal ob mp junk c t x = Inr p \<and> pkt_conn p = c \<and>
    (let d = ob_data ob (pkt_buffer p); n = ob_size ob (pkt_buffer p) in
     n = length d \<and> unpack_internal_packet_header d n = Inr (Some (internal_packet_header_create serde_msgpack t)) \<and>
     Option.bind (msgpack_deserialize_packet_internal mp (drop 8 d) (n - 8)) (msgpack_payload_as_internal mp) = Some x)"
proof -
  obtain p where p: "msgpack_serialize_packet_internal ob mp junk c t x = Inr p"
    using msgpack.serialize [of ob mp x junk c t] assms by (simp add: msgpack_serializer_def)
  have "ob_data ob (pkt_buffer p) = header_wire serde_msgpack t @ mp_pack mp x"
    and "ob_size ob (pkt_buffer p) = 8 + length (mp_pack mp x)" and "pkt_conn p = c"
    using msgpack.sent_bytes [of ob mp x junk c t p] p assms by (simp_all add: msgpack_serializer_def)
  then show ?thesis
    using p msgpack.decode [of ob mp "length (mp_pack mp x)" x] assms(1,2)
    by (intro exI [of _ p]) (simp add: Let_def msgpack_serializer_def)
qed

theorem msgpack_packet_roundtrip_witness:
  "\<exists>p. msgpack_serialize_packet_internal sample_buffer sample_msgpack (\<lambda>_. 0xFF) 3 42 7 = Inr p \<and>
    unpack_internal_packet_header (pkt_buffer p) 10 = Inr (Some (internal_packet_header_create serde_msgpack 42))"
proof -
  have "8 + length (mp_pack sample_msgpack 7) < 2 ^ 64" by (simp add: sample_msgpack_def)
  note rt = msgpack_packet_roundtrip [OF sample_buffer_ok sample_msgpack_ok this, of "\<lambda>_. 0xFF" 3 42]
  then obtain p where p: "msgpack_serialize_packet_internal sample_buffer sample_msgpack (\<lambda>_. 0xFF) 3 42 7 = Inr p"
    and u: "unpack_internal_packet_header (pkt_buffer p) (length (pkt_buffer p)) =
      Inr (Some (internal_packet_header_create serde_msgpack 42))"
    by (auto simp: Let_def sample_buffer_def)
  have "length (pkt_buffer p) = 10"
    using msgpack.sent_bytes(2) [of sample_buffer sample_msgpack 7 "\<lambda>_. 0xFF" 3 42 p] p sample_buffer_ok sample_msgpack_ok
    by (simp add: msgpack_serializer_def sample_msgpack_def sample_buffer_def)
  with p u show ?thesis by auto
qed

text \<open>
  A binary packet carries its object but not its type. The in-memory header has the type the
  caller asked for; the header on the wire has type \<^verbatim>\<open>unknown\<close>, 0, for every requested type. The
  bytes after it are the object.
\<close>

lemma binary_packet_loses_type:
  assumes "owning_buffer_ok ob" and "pod_ok T" and "8 + pod_sizeof T < 2 ^ 64"
  shows "\<exists>p. binary_serialize_packet_internal ob T junk c t x = Inr p \<and>
    pkt_header p = internal_packet_header_create serde_bin t \<and>
    (let d = ob_data ob (pkt_buffer p); n = ob_size ob (pkt_buffer p) in
     n = length d \<and>
     unpack_internal_packet_header d n = Inr (Some (internal_packet_header_create serde_bin KB_PACKET_ID_UNKNOWN)) \<and>
     Option.bind (binary_deserialize_packet_internal (drop 8 d) (n - 8)) (binary_payload_as_internal T) = Some x)"
proof -
  have len: "length (pod_bytes T x) = pod_sizeof T" using assms(2) by (simp add: pod_ok_def)
  with assms(3) have sz: "8 + length (pod_bytes T x) < 2 ^ 64" by simp
  have p: "binary_serialize_packet_internal ob T junk c t x = Inr
      \<lparr>pkt_header = internal_packet_header_create serde_bin t,
       pkt_buffer = ob_consume ob (header_wire serde_bin KB_PACKET_ID_UNKNOWN @ pod_bytes T x) (8 + length (pod_bytes T x)),
       pkt_conn = c\<rparr>"
    using binary.serialize [of ob T x junk c t] assms(1,2) sz by (simp add: binary_serializer_def)
  then show ?thesis
    using binary.decode [of ob T "length (pod_bytes T x)" x] assms(1,2)
    by (intro exI conjI) (assumption | simp add: Let_def binary_serializer_def)+
qed

lemma binary_packet_loses_type_witness:
  "\<exists>p. binary_serialize_packet_internal sample_buffer sample_pod (\<lambda>_. 0) 3 42 0xDEADBEEF = Inr p \<and>
    m_packet_type (pkt_header p) = 42 \<and>
    unpack_internal_packet_header (pkt_buffer p) (length (pkt_buffer p)) =
      Inr (Some (internal_packet_header_create serde_bin 0))"
  using binary_packet_loses_type [OF sample_buffer_ok sample_pod_ok, of "\<lambda>_. 0" 3 42 "0xDEADBEEF"]
  by (auto simp: Let_def sample_buffer_def sample_pod_def KB_PACKET_ID_UNKNOWN_def)

section \<open>Addresses\<close>

text \<open>
  Converting a Steam address keeps all of its 16 address bytes and its port, by construction and
  by assignment, in the IPv4 and the IPv6 branch alike, and whatever the target held before.
\<close>

lemma steam_address_copy_exact:
  assumes "steam_addr_ok a" and "ip_address_ok d" and "length uninit = sizeof_ipv6"
  shows "ip_address_assign ipv4 d a = \<lparr>ip_union = sa_union a, ip_port = sa_port a\<rparr> \<and>
    ip_address_of_steam ipv4 uninit a = \<lparr>ip_union = sa_union a, ip_port = sa_port a\<rparr>"
  using assms
  by (simp add: ip_address_assign_def ip_address_of_steam_def copy_steam_to_ip_address_eq ip_address_ok_def)

lemma steam_address_copy_exact_witness:
  "ip_address_assign (\<lambda>a. True) ip_address_zero \<lparr>sa_union = replicate 16 7, sa_port = 80\<rparr> =
     \<lparr>ip_union = replicate 16 7, ip_port = 80\<rparr>"
  using steam_address_copy_exact [of "\<lparr>sa_union = replicate 16 7, sa_port = 80\<rparr>" ip_address_zero "replicate 16 0" "\<lambda>a. True"]
  by (simp add: steam_addr_ok_def sizeof_ipv6_def ip_address_zero_ok)

text \<open>
  The address check sees a C string: a \<^verbatim>\<open>string_view\<close> with a NUL inside is valid exactly when the
  part before the NUL is, so trailing garbage behind a NUL is accepted.
\<close>

lemma is_valid_ip_address_stops_at_nul:
  assumes "CHR 0x00 \<notin> set a"
  shows "is_valid_ip_address parse (a @ CHR 0x00 # rest) \<longleftrightarrow> parse a \<noteq> None"
proof -
  have "takeWhile (\<lambda>c. c \<noteq> CHR 0x00) (a @ CHR 0x00 # rest) = a"
    using assms by (subst takeWhile_append2) auto
  then show ?thesis by (simp add: is_valid_ip_address_def c_str_def)
qed

lemma is_valid_ip_address_stops_at_nul_witness:
  "is_valid_ip_address (\<lambda>s. if s = ''::1'' then Some \<lparr>sa_union = replicate 16 0, sa_port = 0\<rparr> else None)
     (''::1'' @ CHR 0x00 # ''garbage'')"
  using is_valid_ip_address_stops_at_nul [of "''::1''"] by simp

end
