(* ===== verification/Async_Properties.thy ===== *)
theory Async_Properties
  imports Async_Client Wire_Properties
begin

text \<open>
  The properties of the asynchronous client: the invariant of its awaiter queues, which waiter gets
  which packet, the packet that is lost when two arrive before the first waiter runs, the pointer
  that is used after its awaiter is gone, and the bounded wait of \<^verbatim>\<open>connect\<close>.
\<close>

section \<open>The awaiter queues\<close>

definition awaiter_queue :: "'p async_client \<Rightarrow> packet_type_t \<Rightarrow> 'p awaiting_packet_t list" where
  "awaiter_queue s t = (case as_awaiters s t of None \<Rightarrow> [] | Some q \<Rightarrow> q)"

lemma async_wait_begin_eq:
  "async_wait_begin t s =
    (as_next_event s,
     s\<lparr>as_awaiters := (as_awaiters s)(t \<mapsto> awaiter_queue s t @ [\<lparr>aw_event = as_next_event s, aw_data = None\<rparr>]),
       as_next_event := as_next_event s + 1\<rparr>)"
  by (cases s) (simp add: async_wait_begin_def Let_def AsyncUdpPacketClient_register_packet_awaiter_def
      queue_push_def awaiter_queue_def split: option.split)

lemma async_wait_end_eq:
  "async_wait_end S t s =
    ((case awaiter_queue s t of [] \<Rightarrow> None | a # _ \<Rightarrow> Option.bind (aw_data a) (payload_as S)),
     s\<lparr>as_awaiters := (as_awaiters s)(t \<mapsto> tl (awaiter_queue s t))\<rparr>)"
  by (auto simp: async_wait_end_def AsyncUdpPacketClient_get_packet_awaiter_def Let_def awaiter_queue_def
      split: option.split list.split)

text \<open>What a packet does to the front awaiter.\<close>

definition notified :: "'p option \<Rightarrow> 'p awaiting_packet_t \<Rightarrow> 'p awaiting_packet_t" where
  "notified p a = (case p of None \<Rightarrow> a | Some x \<Rightarrow> a\<lparr>aw_data := Some x\<rparr>)"

lemma notified_event [simp]: "aw_event (notified p a) = aw_event a"
  by (simp add: notified_def split: option.split)

lemma async_take_packet_eq:
  "async_take_packet S t buffer s =
    (case awaiter_queue s t of
       [] \<Rightarrow> Inr (False, s)
     | a # rest \<Rightarrow> Inr (True,
         s\<lparr>as_awaiters := (as_awaiters s)(t \<mapsto>
             notified (deserialize_packet S (drop 8 buffer) (length buffer - 8)) a # rest),
           as_events_set := insert (aw_event a) (as_events_set s)\<rparr>))"
proof (cases "awaiter_queue s t")
  case Nil
  then show ?thesis
    by (cases "as_awaiters s t") (simp_all add: async_take_packet_def async_find_awaiter_def awaiter_queue_def)
next
  case (Cons a rest)
  then have q: "as_awaiters s t = Some (a # rest)"
    by (cases "as_awaiters s t") (simp_all add: awaiter_queue_def)
  show ?thesis
    by (simp add: async_take_packet_def async_find_awaiter_def async_notify_awaiter_def q Cons
        notified_def [symmetric])
qed

lemma awaiter_queue_upd [simp]:
  "awaiter_queue (s\<lparr>as_awaiters := (as_awaiters s)(t \<mapsto> q)\<rparr>) t' = (if t' = t then q else awaiter_queue s t')"
  "awaiter_queue (s\<lparr>as_awaiters := (as_awaiters s)(t \<mapsto> q), as_next_event := n\<rparr>) t' =
    (if t' = t then q else awaiter_queue s t')"
  "awaiter_queue (s\<lparr>as_awaiters := (as_awaiters s)(t \<mapsto> q), as_events_set := E\<rparr>) t' =
    (if t' = t then q else awaiter_queue s t')"
  by (simp_all add: awaiter_queue_def)

section \<open>The invariant\<close>

text \<open>Each suspended coroutine has exactly one entry, in the queue of its type; only the front of a
  queue has been notified.\<close>

definition async_ok :: "'p async_system \<Rightarrow> bool" where
  "async_ok s \<longleftrightarrow>
     (\<forall>t. \<forall>a \<in> set (awaiter_queue (ac_state s) t). ac_waiters s (aw_event a) = Some t) \<and>
     (\<forall>t. distinct (map aw_event (awaiter_queue (ac_state s) t))) \<and>
     (\<forall>ev t. ac_waiters s ev = Some t \<longrightarrow> ev \<in> aw_event ` set (awaiter_queue (ac_state s) t)) \<and>
     (\<forall>t. \<forall>a \<in> set (tl (awaiter_queue (ac_state s) t)).
        aw_event a \<notin> as_events_set (ac_state s) \<and> aw_data a = None) \<and>
     (\<forall>ev. ac_waiters s ev \<noteq> None \<longrightarrow> ev < as_next_event (ac_state s)) \<and>
     (\<forall>ev \<in> as_events_set (ac_state s). ev < as_next_event (ac_state s))"

lemma async_okD:
  assumes "async_ok s"
  shows "a \<in> set (awaiter_queue (ac_state s) t) \<Longrightarrow> ac_waiters s (aw_event a) = Some t"
    and "distinct (map aw_event (awaiter_queue (ac_state s) t))"
    and "ac_waiters s ev = Some t \<Longrightarrow> ev \<in> aw_event ` set (awaiter_queue (ac_state s) t)"
    and "a \<in> set (tl (awaiter_queue (ac_state s) t)) \<Longrightarrow> aw_event a \<notin> as_events_set (ac_state s)"
    and "a \<in> set (tl (awaiter_queue (ac_state s) t)) \<Longrightarrow> aw_data a = None"
    and "ac_waiters s ev = Some t \<Longrightarrow> ev < as_next_event (ac_state s)"
    and "ev \<in> as_events_set (ac_state s) \<Longrightarrow> ev < as_next_event (ac_state s)"
  using assms unfolding async_ok_def by blast+

lemma async_okI:
  assumes "\<And>a t. a \<in> set (awaiter_queue (ac_state s) t) \<Longrightarrow> ac_waiters s (aw_event a) = Some t"
    and "\<And>t. distinct (map aw_event (awaiter_queue (ac_state s) t))"
    and "\<And>ev t. ac_waiters s ev = Some t \<Longrightarrow> ev \<in> aw_event ` set (awaiter_queue (ac_state s) t)"
    and "\<And>a t. a \<in> set (tl (awaiter_queue (ac_state s) t)) \<Longrightarrow>
      aw_event a \<notin> as_events_set (ac_state s) \<and> aw_data a = None"
    and "\<And>ev t. ac_waiters s ev = Some t \<Longrightarrow> ev < as_next_event (ac_state s)"
    and "\<And>ev. ev \<in> as_events_set (ac_state s) \<Longrightarrow> ev < as_next_event (ac_state s)"
  shows "async_ok s"
  using assms unfolding async_ok_def by blast

lemma async_init_ok: "async_ok async_system_init"
  by (simp add: async_ok_def async_system_init_def async_client_new_def awaiter_queue_def)

text \<open>A notified waiter is the front of its queue.\<close>

lemma notified_is_front:
  assumes "async_ok s" and "ac_waiters s ev = Some t" and "ev \<in> as_events_set (ac_state s)"
  obtains a rest where "awaiter_queue (ac_state s) t = a # rest" and "aw_event a = ev"
proof -
  obtain a where a: "a \<in> set (awaiter_queue (ac_state s) t)" "ev = aw_event a"
    using async_okD(3) [OF assms(1,2)] by blast
  then obtain b rest where q: "awaiter_queue (ac_state s) t = b # rest" by (cases "awaiter_queue (ac_state s) t") auto
  have "a \<notin> set rest"
    using async_okD(4) [OF assms(1), of a t] q a(2) assms(3) by auto
  with a q show thesis by (intro that [of b rest]) auto
qed

lemma async_wait_ok:
  assumes ok: "async_ok s"
  shows "async_ok (s\<lparr>ac_state := snd (async_wait_begin t (ac_state s)),
    ac_waiters := (ac_waiters s)(fst (async_wait_begin t (ac_state s)) \<mapsto> t)\<rparr>)" (is "async_ok ?s")
proof -
  let ?n = "as_next_event (ac_state s)" and ?q = "awaiter_queue (ac_state s)"
  have fresh: "aw_event a \<noteq> ?n" if "a \<in> set (?q t')" for a t'
    using async_okD(1,6) [OF ok] that by (metis nat_neq_iff)
  have unset: "?n \<notin> as_events_set (ac_state s)" using async_okD(7) [OF ok] by blast
  have q: "awaiter_queue (ac_state ?s) t' = (if t' = t then ?q t @ [\<lparr>aw_event = ?n, aw_data = None\<rparr>] else ?q t')" for t'
    by (simp add: async_wait_begin_eq)
  have f: "ac_waiters ?s = (ac_waiters s)(?n \<mapsto> t)" "as_events_set (ac_state ?s) = as_events_set (ac_state s)"
    "as_next_event (ac_state ?s) = ?n + 1"
    by (simp_all add: async_wait_begin_eq)
  have tl_snoc: "a \<in> set (tl xs) \<or> a = x" if "a \<in> set (tl (xs @ [x]))" for a x and xs :: "'a awaiting_packet_t list"
    using that by (cases xs) auto
  show ?thesis
  proof (rule async_okI, unfold q f)
    fix a t' assume "a \<in> set (if t' = t then ?q t @ [\<lparr>aw_event = ?n, aw_data = None\<rparr>] else ?q t')"
    then show "((ac_waiters s)(?n \<mapsto> t)) (aw_event a) = Some t'"
      using async_okD(1) [OF ok] fresh by (auto split: if_splits)
  next
    fix t' show "distinct (map aw_event (if t' = t then ?q t @ [\<lparr>aw_event = ?n, aw_data = None\<rparr>] else ?q t'))"
      using async_okD(2) [OF ok] fresh by (auto simp: image_iff) metis
  next
    fix ev t' assume "((ac_waiters s)(?n \<mapsto> t)) ev = Some t'"
    then show "ev \<in> aw_event ` set (if t' = t then ?q t @ [\<lparr>aw_event = ?n, aw_data = None\<rparr>] else ?q t')"
      using async_okD(3) [OF ok] by (fastforce split: if_splits)
  next
    fix a t' assume "a \<in> set (tl (if t' = t then ?q t @ [\<lparr>aw_event = ?n, aw_data = None\<rparr>] else ?q t'))"
    then show "aw_event a \<notin> as_events_set (ac_state s) \<and> aw_data a = None"
      using async_okD(4,5) [OF ok] unset tl_snoc by (fastforce split: if_splits)
  next
    fix ev t' assume "((ac_waiters s)(?n \<mapsto> t)) ev = Some t'"
    then show "ev < ?n + 1" using async_okD(6) [OF ok] by (fastforce split: if_splits)
  next
    fix ev assume "ev \<in> as_events_set (ac_state s)"
    then show "ev < ?n + 1" using async_okD(7) [OF ok] by fastforce
  qed
qed

text \<open>The front awaiter of a queue may change its data, and its event may be set.\<close>

lemma async_front_ok:
  assumes ok: "async_ok s" and front: "awaiter_queue (ac_state s) t = a # rest"
    and a': "aw_event a' = aw_event a" and E: "E \<subseteq> insert (aw_event a) (as_events_set (ac_state s))"
    and c: "c = (ac_state s)\<lparr>as_awaiters := (as_awaiters (ac_state s))(t \<mapsto> a' # rest), as_events_set := E\<rparr>"
  shows "async_ok (s\<lparr>ac_state := c\<rparr>)"
proof -
  let ?q = "awaiter_queue (ac_state s)"
  have q: "awaiter_queue c t' = (if t' = t then a' # rest else ?q t')" for t' by (simp add: c)
  have f: "as_events_set c = E" "as_next_event c = as_next_event (ac_state s)"
    by (simp_all add: c)
  have a: "ac_waiters s (aw_event a) = Some t" using async_okD(1) [OF ok, of a t] front by simp
  have ev: "aw_event a \<noteq> aw_event b" if "b \<in> set (tl (?q t'))" for b t'
  proof (cases "t' = t")
    case True
    then show ?thesis using async_okD(2) [OF ok, of t] front that by auto
  next
    case False
    then show ?thesis using async_okD(1) [OF ok, of b t'] a that by (metis list.set_sel(2) option.inject tl_Nil list.set_cases empty_iff empty_set)
  qed
  have sel: "ac_state (s\<lparr>ac_state := c\<rparr>) = c" "ac_waiters (s\<lparr>ac_state := c\<rparr>) = ac_waiters s" by simp_all
  show ?thesis
  proof (rule async_okI, unfold sel)
    show "ac_waiters s (aw_event b) = Some t'" if "b \<in> set (awaiter_queue c t')" for b t'
      using that async_okD(1) [OF ok, of b t'] a a' front async_okD(1) [OF ok, of b t] by (auto simp: q split: if_splits)
    show "distinct (map aw_event (awaiter_queue c t'))" for t'
      using async_okD(2) [OF ok, of t'] front a' by (auto simp: q)
    show "x \<in> aw_event ` set (awaiter_queue c t')" if "ac_waiters s x = Some t'" for x t'
      using async_okD(3) [OF ok that] front a' by (auto simp: q)
    show "aw_event b \<notin> as_events_set c \<and> aw_data b = None" if "b \<in> set (tl (awaiter_queue c t'))" for b t'
    proof -
      have b: "b \<in> set (tl (?q t'))" using that front by (simp add: q split: if_splits)
      show ?thesis using async_okD(4,5) [OF ok b] ev [OF b] E by (auto simp: f)
    qed
    show "x < as_next_event c" if "ac_waiters s x = Some t'" for x t'
      using async_okD(6) [OF ok that] by (simp add: f)
    show "x < as_next_event c" if "x \<in> as_events_set c" for x
      using that async_okD(7) [OF ok, of x] async_okD(6) [OF ok a] E by (auto simp: f)
  qed
qed

lemma async_packet_ok:
  assumes ok: "async_ok s" and take: "async_take_packet S t buffer (ac_state s) = Inr (taken, c)"
  shows "async_ok (s\<lparr>ac_state := c\<rparr>)"
proof (cases "awaiter_queue (ac_state s) t")
  case Nil
  then have "c = ac_state s" using take by (simp add: async_take_packet_eq)
  then have "s\<lparr>ac_state := c\<rparr> = s" by (cases s) simp
  with ok show ?thesis by simp
next
  case (Cons a rest)
  with take show ?thesis
    by (intro async_front_ok [OF ok Cons notified_event subset_refl]) (auto simp: async_take_packet_eq)
qed

lemma async_resume_ok:
  assumes ok: "async_ok s" and w: "ac_waiters s ev = Some t" "ev \<in> as_events_set (ac_state s)"
  shows "async_ok (s\<lparr>ac_state := snd (async_wait_end S t (ac_state s)), ac_waiters := (ac_waiters s)(ev := None)\<rparr>)"
    (is "async_ok ?s")
proof -
  obtain a rest where front: "awaiter_queue (ac_state s) t = a # rest" "aw_event a = ev"
    by (rule notified_is_front [OF ok w])
  let ?q = "awaiter_queue (ac_state s)"
  have q: "awaiter_queue (ac_state ?s) t' = (if t' = t then rest else ?q t')" for t'
    using front by (simp add: async_wait_end_eq)
  have f: "as_events_set (ac_state ?s) = as_events_set (ac_state s)" "as_next_event (ac_state ?s) = as_next_event (ac_state s)"
    "ac_waiters ?s = (ac_waiters s)(ev := None)"
    by (simp_all add: async_wait_end_eq)
  have other: "aw_event b \<noteq> ev" if "b \<in> set (if t' = t then rest else ?q t')" for b t'
    using that async_okD(2) [OF ok, of t] async_okD(1) [OF ok, of b t'] front w(1)
    by (auto split: if_splits) (metis image_eqI)
  have sub: "b \<in> set (?q t')" if "b \<in> set (if t' = t then rest else ?q t')" for b t'
    using that front by (auto split: if_splits)
  have sub_tl: "b \<in> set (tl (?q t'))" if "b \<in> set (tl (if t' = t then rest else ?q t'))" for b t'
    using that front by (cases rest) (auto split: if_splits)
  show ?thesis
  proof (rule async_okI, unfold q f)
    fix b t' assume b: "b \<in> set (if t' = t then rest else ?q t')"
    show "((ac_waiters s)(ev := None)) (aw_event b) = Some t'"
      using async_okD(1) [OF ok sub [OF b]] other [OF b] by simp
  next
    fix t' show "distinct (map aw_event (if t' = t then rest else ?q t'))"
      using async_okD(2) [OF ok, of t'] front by auto
  next
    fix x t' assume "((ac_waiters s)(ev := None)) x = Some t'"
    then have "x \<noteq> ev" and "x \<in> aw_event ` set (?q t')" using async_okD(3) [OF ok] by (auto split: if_splits)
    then show "x \<in> aw_event ` set (if t' = t then rest else ?q t')" using front by auto
  next
    fix b t' assume b: "b \<in> set (tl (if t' = t then rest else ?q t'))"
    show "aw_event b \<notin> as_events_set (ac_state s) \<and> aw_data b = None"
      using async_okD(4,5) [OF ok sub_tl [OF b]] by simp
  next
    fix x t' assume "((ac_waiters s)(ev := None)) x = Some t'"
    then show "x < as_next_event (ac_state s)" using async_okD(6) [OF ok, of x t'] by (simp split: if_splits)
  next
    fix x assume "x \<in> as_events_set (ac_state s)"
    then show "x < as_next_event (ac_state s)" by (rule async_okD(7) [OF ok])
  qed
qed

lemma async_reachable_ok: "async_reachable S s \<Longrightarrow> async_ok s"
proof (induction rule: async_reachable.induct)
  case init
  show ?case by (rule async_init_ok)
next
  case (step s t)
  from step(2) show ?case
  proof cases
    case (wait u ev c)
    then show ?thesis using async_wait_ok [OF step(3), of u] by simp
  next
    case (packet u buffer taken c)
    then show ?thesis using async_packet_ok [OF step(3)] by simp
  next
    case (resume ev u r c)
    then show ?thesis using async_resume_ok [OF step(3) resume(2,3), of S] by simp
  qed
qed

section \<open>Waiters and packets\<close>

text \<open>
  When looking up the awaiter of a packet and notifying it are one step: a coroutine that resumes finds its
  own entry at the front of the queue of its type and takes exactly that one, although the code pops
  whatever is in front. \<open>Async_Lookup\<close> cuts the packet handler where it releases the lock.
\<close>

lemma async_waiter_takes_own_entry:
  assumes "async_reachable S s" and "ac_waiters s ev = Some t" and "ev \<in> as_events_set (ac_state s)"
  shows "\<exists>a rest c. awaiter_queue (ac_state s) t = a # rest \<and> aw_event a = ev \<and>
    async_wait_end S t (ac_state s) = (Option.bind (aw_data a) (payload_as S), c) \<and> awaiter_queue c t = rest"
proof -
  obtain a rest where "awaiter_queue (ac_state s) t = a # rest" and "aw_event a = ev"
    by (rule notified_is_front [OF async_reachable_ok [OF assms(1)] assms(2,3)])
  then show ?thesis by (auto simp: async_wait_end_eq)
qed

text \<open>Two coroutines that wait for a packet of type 42, and then one or two packets.\<close>

definition byte_packet :: "u8 \<Rightarrow> u8 list" where
  "byte_packet x = header_wire serde_msgpack 42 @ mp_pack sample_msgpack x"

definition two_waiters :: "u8 async_system" where
  "two_waiters =
     \<lparr>ac_state = \<lparr>as_alive = True, as_awaiters = [42 \<mapsto> [\<lparr>aw_event = 0, aw_data = None\<rparr>, \<lparr>aw_event = 1, aw_data = None\<rparr>]],
        as_events_set = {}, as_next_event = 2\<rparr>,
      ac_waiters = [0 \<mapsto> 42, 1 \<mapsto> 42]\<rparr>"

definition first_notified :: "u8 \<Rightarrow> u8 async_system" where
  "first_notified x = two_waiters\<lparr>ac_state := (ac_state two_waiters)
     \<lparr>as_awaiters := [42 \<mapsto> [\<lparr>aw_event = 0, aw_data = Some x\<rparr>, \<lparr>aw_event = 1, aw_data = None\<rparr>]],
      as_events_set := {0}\<rparr>\<rparr>"

abbreviation sample_serializer :: "(u8, u8, u8 list) serializer" where
  "sample_serializer \<equiv> msgpack_serializer sample_buffer sample_msgpack"

lemma sample_deserialize: "deserialize_packet sample_serializer (drop 8 (byte_packet x)) (length (byte_packet x) - 8) = Some x"
  by (simp add: byte_packet_def msgpack_serializer_def msgpack_deserialize_packet_internal_def sample_msgpack_def)

lemma two_waiters_reachable: "async_reachable sample_serializer two_waiters"
proof -
  have "async_reachable sample_serializer
      (async_system_init\<lparr>ac_state := snd (async_wait_begin 42 async_client_new), ac_waiters := Map.empty(0 \<mapsto> 42)\<rparr>)"
    (is "async_reachable _ ?s")
    by (rule async_reachable.step [OF async_reachable.init])
      (auto simp: async_system_init_def async_wait_begin_eq async_client_new_def
        intro: async_step.wait [where s = async_system_init and ev = 0, simplified async_system_init_def, simplified])
  then have "async_reachable sample_serializer
      (?s\<lparr>ac_state := snd (async_wait_begin 42 (ac_state ?s)), ac_waiters := (ac_waiters ?s)(fst (async_wait_begin 42 (ac_state ?s)) \<mapsto> 42)\<rparr>)"
    by (rule async_reachable.step) (rule async_step.wait, simp)
  then show ?thesis
    by (simp add: two_waiters_def async_system_init_def async_wait_begin_eq async_client_new_def awaiter_queue_def
        numeral_2_eq_2)
qed

lemma two_waiters_take:
  "async_take_packet sample_serializer 42 (byte_packet x) (ac_state two_waiters) = Inr (True, ac_state (first_notified x))"
  by (simp add: async_take_packet_eq awaiter_queue_def sample_deserialize two_waiters_def first_notified_def notified_def)

lemma first_notified_reachable: "async_reachable sample_serializer (first_notified x)"
proof -
  have "first_notified x = two_waiters\<lparr>ac_state := ac_state (first_notified x)\<rparr>"
    by (simp add: first_notified_def two_waiters_def)
  then show ?thesis
    using async_reachable.step [OF two_waiters_reachable async_step.packet [OF two_waiters_take]] by metis
qed

lemma async_waiter_takes_own_entry_witness:
  "\<exists>c. async_wait_end sample_serializer 42 (ac_state (first_notified 7)) = (Some 7, c)"
proof -
  have "ac_waiters (first_notified 7) 0 = Some 42" "0 \<in> as_events_set (ac_state (first_notified 7))"
    by (simp_all add: first_notified_def two_waiters_def)
  from async_waiter_takes_own_entry [OF first_notified_reachable this] show ?thesis
    by (auto simp: awaiter_queue_def first_notified_def two_waiters_def msgpack_serializer_def
        msgpack_payload_as_internal_def sample_msgpack_def)
qed

text \<open>Coroutines that start to wait for a type, one after the other: their events, the first one first.\<close>

fun async_register_waiters :: "packet_type_t \<Rightarrow> nat \<Rightarrow> 'p async_client \<Rightarrow> nat list \<times> 'p async_client" where
  "async_register_waiters t 0 s = ([], s)"
| "async_register_waiters t (Suc n) s =
     (case async_wait_begin t s of (ev, s) \<Rightarrow>
        case async_register_waiters t n s of (evs, s) \<Rightarrow> (ev # evs, s))"

lemma async_register_waiters_queue:
  "async_register_waiters t n s = (evs, s1) \<Longrightarrow>
   length evs = n \<and> awaiter_queue s1 t = awaiter_queue s t @ map (\<lambda>ev. \<lparr>aw_event = ev, aw_data = None\<rparr>) evs"
  by (induction n arbitrary: s evs) (fastforce simp: async_wait_begin_eq split: prod.splits)+

text \<open>Packets that each arrive when the waiter before has resumed: for each that finds a waiter, the
  event it sets, and what the coroutine of that event returns.\<close>

fun async_exchange ::
  "('o, 'p, 'b) serializer \<Rightarrow> packet_type_t \<Rightarrow> u8 list list \<Rightarrow> 'p async_client \<Rightarrow>
   ((nat \<times> 'o option) list \<times> 'p async_client) result" where
  "async_exchange S t [] s = Inr ([], s)"
| "async_exchange S t (b # bs) s =
     (case async_find_awaiter t s of
        None \<Rightarrow> async_exchange S t bs s
      | Some (_, ev) \<Rightarrow>
          bind_result (async_take_packet S t b s) (\<lambda>(_, s).
            case async_wait_end S t s of (r, s) \<Rightarrow>
              bind_result (async_exchange S t bs s) (\<lambda>(rs, s). Inr ((ev, r) # rs, s))))"

lemma async_find_awaiter_eq:
  "async_find_awaiter t s = (case awaiter_queue s t of [] \<Rightarrow> None | a # _ \<Rightarrow> Some (t, aw_event a))"
  by (simp add: async_find_awaiter_def awaiter_queue_def split: option.split)

context packet_codec
begin

lemma exchange:
  assumes "libs_ok" and "length xs \<le> length (awaiter_queue s t)"
  shows "\<exists>s'. async_exchange S t (map (\<lambda>x. header_wire sd ty @ body x) xs) s =
      Inr (zip (map aw_event (awaiter_queue s t)) (map Some xs), s') \<and>
    awaiter_queue s' t = drop (length xs) (awaiter_queue s t)"
  using assms(2)
proof (induction xs arbitrary: s)
  case (Cons x xs)
  then obtain a rest where q: "awaiter_queue s t = a # rest" by (cases "awaiter_queue s t") auto
  obtain p where p: "deserialize_packet S (body x) (length (body x)) = Some p" "payload_as S p = Some x"
    by (rule decodeE [OF assms(1)])
  define s1 where "s1 = s\<lparr>as_awaiters := (as_awaiters s)(t \<mapsto> notified (Some p) a # rest),
      as_events_set := insert (aw_event a) (as_events_set s)\<rparr>"
  define s2 where "s2 = s1\<lparr>as_awaiters := (as_awaiters s1)(t \<mapsto> rest)\<rparr>"
  have take: "async_take_packet S t (header_wire sd ty @ body x) s = Inr (True, s1)"
    using p(1) by (simp add: async_take_packet_eq q s1_def)
  have wait: "async_wait_end S t s1 = (Some x, s2)"
    using p(2) by (simp add: async_wait_end_eq s1_def s2_def notified_def)
  have q2: "awaiter_queue s2 t = rest" by (simp add: s2_def)
  obtain s' where "async_exchange S t (map (\<lambda>x. header_wire sd ty @ body x) xs) s2 =
      Inr (zip (map aw_event rest) (map Some xs), s')"
    and "awaiter_queue s' t = drop (length xs) rest"
    using Cons.IH [of s2] Cons.prems q q2 by auto
  then show ?case by (simp add: take wait q async_find_awaiter_eq)
qed simp

end

text \<open>
  C36: When each packet arrives after the waiter before has resumed, waiters are served in the order they
  registered: after \<open>n\<close> more coroutines started to wait for a type, the \<open>k\<close>-th packet of the type sets the event of
  the \<open>k\<close>-th coroutine that waits, those that waited before first, and that coroutine returns exactly the object of
  the packet. The waiters that got none stay in the queue, in order.
\<close>

theorem async_waiters_fifo:
  assumes "owning_buffer_ok ob" and "msgpack_ok mp" and "async_register_waiters t n s = (evs, s1)"
    and "length xs \<le> length (awaiter_queue s t) + n"
  shows "\<exists>s'. async_exchange (msgpack_serializer ob mp) t (map (\<lambda>x. header_wire serde_msgpack t @ mp_pack mp x) xs) s1 =
      Inr (zip (map aw_event (awaiter_queue s t) @ evs) (map Some xs), s') \<and>
    map aw_event (awaiter_queue s' t) = drop (length xs) (map aw_event (awaiter_queue s t) @ evs)"
  using msgpack.exchange [of ob mp xs s1 t serde_msgpack t] async_register_waiters_queue [OF assms(3)] assms(1,2,4)
  by (auto simp: comp_def drop_map)

theorem async_waiters_fifo_witness:
  "\<exists>s1 s'. async_register_waiters 42 2 async_client_new = ([0, 1], s1) \<and>
    async_exchange sample_serializer 42 [byte_packet 7, byte_packet 9] s1 = Inr ([(0, Some 7), (1, Some 9)], s')"
proof -
  obtain s1 :: "u8 async_client" where s1: "async_register_waiters 42 2 async_client_new = ([0, 1], s1)"
    by (simp add: numeral_2_eq_2 async_wait_begin_eq async_client_new_def)
  have "awaiter_queue (async_client_new :: u8 async_client) 42 = []"
    by (simp add: awaiter_queue_def async_client_new_def)
  then show ?thesis
    using s1 async_waiters_fifo [OF sample_buffer_ok sample_msgpack_ok s1, of "[7, 9]"]
    by (auto simp: byte_packet_def)
qed

text \<open>
  A packet can get lost although a waiter for it is registered. When two packets of a type
  arrive before the first waiter has resumed, the second overwrites the first in the front entry:
  the first waiter returns the second packet's object, and the second waiter is not notified.
\<close>

lemma async_second_packet_overwrites:
  assumes "async_reachable S s" and "awaiter_queue (ac_state s) t = a # b # rest"
    and "deserialize_packet S (drop 8 m2) (length m2 - 8) = Some p2"
  shows "\<exists>c1 c2 c3. async_take_packet S t m1 (ac_state s) = Inr (True, c1) \<and>
    async_take_packet S t m2 c1 = Inr (True, c2) \<and>
    async_wait_end S t c2 = (payload_as S p2, c3) \<and>
    awaiter_queue c3 t = b # rest \<and> aw_data b = None \<and> aw_event b \<notin> as_events_set c3"
proof -
  have ok: "async_ok s" by (rule async_reachable_ok [OF assms(1)])
  have b: "b \<in> set (tl (awaiter_queue (ac_state s) t))" by (simp add: assms(2))
  have "aw_event a \<noteq> aw_event b" using async_okD(2) [OF ok, of t] by (simp add: assms(2))
  then show ?thesis
    using async_okD(4,5) [OF ok b] assms(3)
    by (auto simp: async_take_packet_eq async_wait_end_eq assms(2) notified_def split: option.split)
qed

lemma async_second_packet_overwrites_witness:
  "\<exists>c1 c2 c3. async_take_packet sample_serializer 42 (byte_packet 7) (ac_state two_waiters) = Inr (True, c1) \<and>
    async_take_packet sample_serializer 42 (byte_packet 9) c1 = Inr (True, c2) \<and>
    async_wait_end sample_serializer 42 c2 = (Some 9, c3)"
proof -
  have "awaiter_queue (ac_state two_waiters) 42 = [\<lparr>aw_event = 0, aw_data = None\<rparr>, \<lparr>aw_event = 1, aw_data = None\<rparr>]"
    by (simp add: awaiter_queue_def two_waiters_def)
  from async_second_packet_overwrites [OF two_waiters_reachable this sample_deserialize, of "byte_packet 7" 9]
  show ?thesis
    by (auto simp: msgpack_serializer_def msgpack_payload_as_internal_def sample_msgpack_def)
qed

text \<open>
  The pointer to the front awaiter is used after the lock is released. If the waiter of an
  already notified entry resumes in between, the entry is gone and the packet handler writes
  through a dangling pointer.
\<close>

lemma async_stale_awaiter_pointer:
  assumes "async_reachable S s" and "awaiter_queue (ac_state s) t = a # rest"
  shows "\<exists>ptr. async_find_awaiter t (ac_state s) = Some ptr \<and>
    async_notify_awaiter ptr p (snd (async_wait_end S t (ac_state s))) = Inl Use_after_free"
proof -
  have "aw_event a \<notin> aw_event ` set rest"
    using async_okD(2) [OF async_reachable_ok [OF assms(1)], of t] by (simp add: assms(2))
  moreover have "as_awaiters (ac_state s) t = Some (a # rest)"
    using assms(2) by (simp add: awaiter_queue_def split: option.splits)
  ultimately show ?thesis
    by (cases rest) (auto simp: async_find_awaiter_def async_notify_awaiter_def async_wait_end_eq assms(2))
qed

lemma async_stale_awaiter_pointer_witness:
  "async_notify_awaiter (42, 0) (Some 9) (snd (async_wait_end sample_serializer 42 (ac_state (first_notified 7)))) =
     Inl Use_after_free"
proof -
  have "awaiter_queue (ac_state (first_notified 7)) 42 = [\<lparr>aw_event = 0, aw_data = Some 7\<rparr>, \<lparr>aw_event = 1, aw_data = None\<rparr>]"
    by (simp add: awaiter_queue_def first_notified_def two_waiters_def)
  from async_stale_awaiter_pointer [OF first_notified_reachable this, of "Some 9"] show ?thesis
    by (simp add: async_find_awaiter_def first_notified_def two_waiters_def)
qed

section \<open>Connecting\<close>

text \<open>From read \<open>iter\<close> on, a read sees \<^verbatim>\<open>connected\<close> and all reads before it \<^verbatim>\<open>connecting\<close>.\<close>

definition sees_connected :: "(nat \<Rightarrow> connection_status_t) \<Rightarrow> nat \<Rightarrow> bool" where
  "sees_connected reads iter \<longleftrightarrow>
     (\<exists>k. iter \<le> k \<and> k \<le> 20 \<and> reads k = Connected \<and> (\<forall>j. iter \<le> j \<and> j < k \<longrightarrow> reads j = Connecting))"

lemma sees_connected_last: "sees_connected reads 20 \<longleftrightarrow> reads 20 = Connected"
  by (auto simp: sees_connected_def dest: le_antisym)

lemma sees_connected_step:
  assumes "iter < 20"
  shows "sees_connected reads iter \<longleftrightarrow>
    (if reads iter = Connecting then sees_connected reads (iter + 1) else reads iter = Connected)"
proof (cases "reads iter = Connecting")
  case True
  have prefix: "(\<forall>j. iter \<le> j \<and> j < k \<longrightarrow> reads j = Connecting) \<longleftrightarrow>
      (\<forall>j. iter + 1 \<le> j \<and> j < k \<longrightarrow> reads j = Connecting)" for k
    using True by (metis Suc_eq_plus1 Suc_leD Suc_leI nat_less_le)
  have start: "iter \<le> k \<and> reads k = Connected \<longleftrightarrow> iter + 1 \<le> k \<and> reads k = Connected" for k
    using True by (cases "k = iter") auto
  have "iter \<le> k \<and> k \<le> 20 \<and> reads k = Connected \<and> (\<forall>j. iter \<le> j \<and> j < k \<longrightarrow> reads j = Connecting) \<longleftrightarrow>
      iter + 1 \<le> k \<and> k \<le> 20 \<and> reads k = Connected \<and> (\<forall>j. iter + 1 \<le> j \<and> j < k \<longrightarrow> reads j = Connecting)" for k
    using start [of k] prefix [of k] by argo
  with True show ?thesis by (simp only: sees_connected_def refl if_True)
next
  case False
  have "reads iter = Connected" if s: "sees_connected reads iter"
    using s [unfolded sees_connected_def]
  proof (elim exE conjE)
    fix k
    assume k: "iter \<le> k" "reads k = Connected" and before: "\<forall>j. iter \<le> j \<and> j < k \<longrightarrow> reads j = Connecting"
    have "\<not> iter < k" by (rule notI) (use before [rule_format, of iter] False in simp)
    with k show ?thesis by simp
  qed
  moreover have "reads iter = Connected \<Longrightarrow> sees_connected reads iter"
    unfolding sees_connected_def using assms by (intro exI [of _ iter] conjI) auto
  ultimately show ?thesis using False by auto
qed

lemma connect_wait_loop_spec:
  "iter \<le> 20 \<Longrightarrow> snd (connect_wait_loop reads iter) \<le> 20 \<and>
    (fst (connect_wait_loop reads iter) = Connected \<longleftrightarrow> sees_connected reads iter)"
proof (induction "20 - iter" arbitrary: iter)
  case 0
  then have "iter = 20" by simp
  then show ?case
    using connect_wait_loop.simps [of reads 20] by (simp add: max_iters_def sees_connected_last)
next
  case (Suc n)
  then have lt: "iter < 20" by simp
  then show ?case
    using Suc.hyps(1) [of "iter + 1"] Suc.hyps(2)
    by (simp add: connect_wait_loop.simps [of reads iter] max_iters_def Let_def sees_connected_step)
qed

text \<open>
  C35: The asynchronous \<^verbatim>\<open>connect\<close> returns after at most 20 sleeps of 50 ms, whatever statuses it
  sees, and returns true exactly when one of its at most 21 reads sees \<^verbatim>\<open>connected\<close> and all reads
  before that one saw \<^verbatim>\<open>connecting\<close>.
\<close>

theorem async_connect_bounded:
  assumes "\<not> AsyncUdpPacketClient_is_running i w" and "UdpPacketClient_connect st i addr port w = Inr (True, w')"
  shows "\<exists>ok sleeps. AsyncUdpPacketClient_connect st i addr port reads w = Inr (ok, sleeps, w') \<and> sleeps \<le> 20 \<and>
    (ok \<longleftrightarrow> (\<exists>k \<le> 20. reads k = Connected \<and> (\<forall>j < k. reads j = Connecting)))"
  using connect_wait_loop_spec [of 0 reads] assms
  by (simp add: sees_connected_def AsyncUdpPacketClient_connect_def AsyncUdpPacketClient_is_running_def split: prod.split)
    (metis fst_conv snd_conv)

theorem async_connect_bounded_witness:
  "\<exists>ok sleeps w'. AsyncUdpPacketClient_connect (sample_steam [] []) 0 ''::1'' 80 (\<lambda>k. if k < 3 then Connecting else Connected)
      \<lparr>udp_clients = (\<lambda>_. udp_client_new), client_instance = None, cenv = \<lparr>calls = [], app = ()\<rparr>\<rparr> = Inr (ok, sleeps, w') \<and>
    ok \<and> sleeps \<le> 20"
proof -
  let ?w = "\<lparr>udp_clients = (\<lambda>_. udp_client_new), client_instance = None, cenv = \<lparr>calls = [], app = ()\<rparr>\<rparr> :: unit client_world"
  let ?reads = "\<lambda>k :: nat. if k < 3 then Connecting else Connected"
  have idle: "\<not> AsyncUdpPacketClient_is_running 0 ?w"
    by (simp add: AsyncUdpPacketClient_is_running_def UdpPacketClient_is_running_def UdpClient_is_running_def
        udp_client_new_def)
  obtain w' where c: "UdpPacketClient_connect (sample_steam [] []) 0 ''::1'' 80 ?w = Inr (True, w')"
    by (simp add: UdpPacketClient_connect_def UdpClient_connect_def try_connect_eq Let_def attempt_def attempt_ok_def
        sample_steam_simps c_str_def address_with_port_def udp_client_new_def client_history_def)
  have "\<exists>k \<le> 20. ?reads k = Connected \<and> (\<forall>j < k. ?reads j = Connecting)"
    by (intro exI [of _ 3]) simp
  with async_connect_bounded [OF idle c, of ?reads] show ?thesis by blast
qed

end
