(* ===== verification/Async_Lookup.thy ===== *)
theory Async_Lookup
  imports Async_Properties
begin

text \<open>
  \<^verbatim>\<open>on_data_received_pre_handler\<close> of \<^verbatim>\<open>async_udp_packet_client.inl\<close> cut where it releases
  \<^verbatim>\<open>m_awaiters_mutex\<close>: it looks the awaiter up under the lock, and writes the payload and sets the event
  through the pointer without it. Coroutines start to wait and resume in between, on the threads of the pool.
\<close>

section \<open>Using the pointer\<close>

text \<open>\<open>async_notify_awaiter\<close> in its two parts: the write of \<^verbatim>\<open>m_data\<close>, and the read of \<^verbatim>\<open>m_event\<close> and its \<^verbatim>\<open>set\<close>.\<close>

definition async_store_awaiter ::
  "packet_type_t \<times> nat \<Rightarrow> 'p \<Rightarrow> 'p async_client \<Rightarrow> 'p async_client result" where
  "async_store_awaiter awaiter payload s =
     (case as_awaiters s (fst awaiter) of
        Some (a # rest) \<Rightarrow>
          if aw_event a = snd awaiter
          then Inr (s\<lparr>as_awaiters := (as_awaiters s)(fst awaiter \<mapsto> a\<lparr>aw_data := Some payload\<rparr> # rest)\<rparr>)
          else Inl Use_after_free
      | _ \<Rightarrow> Inl Use_after_free)"

definition async_set_event :: "packet_type_t \<times> nat \<Rightarrow> 'p async_client \<Rightarrow> 'p async_client result" where
  "async_set_event awaiter s =
     (case as_awaiters s (fst awaiter) of
        Some (a # rest) \<Rightarrow>
          if aw_event a = snd awaiter then Inr (s\<lparr>as_events_set := insert (aw_event a) (as_events_set s)\<rparr>)
          else Inl Use_after_free
      | _ \<Rightarrow> Inl Use_after_free)"

lemma async_store_awaiter_eq:
  "async_store_awaiter ptr p s =
    (case awaiter_queue s (fst ptr) of
       [] \<Rightarrow> Inl Use_after_free
     | a # rest \<Rightarrow>
         if aw_event a = snd ptr then Inr (s\<lparr>as_awaiters := (as_awaiters s)(fst ptr \<mapsto> a\<lparr>aw_data := Some p\<rparr> # rest)\<rparr>)
         else Inl Use_after_free)"
  by (simp add: async_store_awaiter_def awaiter_queue_def split: option.split)

lemma async_set_event_eq:
  "async_set_event ptr s =
    (case awaiter_queue s (fst ptr) of
       [] \<Rightarrow> Inl Use_after_free
     | a # rest \<Rightarrow>
         if aw_event a = snd ptr then Inr (s\<lparr>as_events_set := insert (aw_event a) (as_events_set s)\<rparr>)
         else Inl Use_after_free)"
  by (simp add: async_set_event_def awaiter_queue_def split: option.split)

text \<open>Without a coroutine in between, the parts are the notification of \<open>Async_Client\<close>.\<close>

lemma async_notify_awaiter_parts:
  "async_notify_awaiter ptr p s =
    bind_result (case p of None \<Rightarrow> Inr s | Some x \<Rightarrow> async_store_awaiter ptr x s) (async_set_event ptr)"
proof (cases "as_awaiters s (fst ptr)")
  case (Some q)
  have same: "(as_awaiters s)(fst ptr \<mapsto> q) = as_awaiters s" using Some by auto
  show ?thesis
  proof (cases q)
    case (Cons a rest)
    with Some same show ?thesis
      by (cases s) (auto simp: async_notify_awaiter_def async_store_awaiter_def async_set_event_def split: option.split)
  qed (use Some in \<open>simp add: async_notify_awaiter_def async_store_awaiter_def async_set_event_def split: option.split\<close>)
qed (simp add: async_notify_awaiter_def async_store_awaiter_def async_set_event_def split: option.split)

section \<open>States and steps\<close>

text \<open>What the network thread is about to do with a pointer it keeps.\<close>

datatype async_pending =
    Pending_none
  | Pending_found "packet_type_t \<times> nat" "u8 list"
  | Pending_stored "packet_type_t \<times> nat"

record 'p async_fine =
  af_system :: "'p async_system"
  af_pending :: async_pending

abbreviation af_client :: "'p async_fine \<Rightarrow> 'p async_client" where
  "af_client s \<equiv> ac_state (af_system s)"

abbreviation async_decode :: "('o, 'p, 'b) serializer \<Rightarrow> u8 list \<Rightarrow> 'p option" where
  "async_decode S buffer \<equiv> deserialize_packet S (drop sizeof_internal_packet_header_t buffer)
     (length buffer - sizeof_internal_packet_header_t)"

text \<open>A packet without an awaiter changes nothing here, so it is no step.\<close>

inductive async_fine_step :: "('o, 'p, 'b) serializer \<Rightarrow> 'p async_fine \<Rightarrow> 'p async_fine \<Rightarrow> bool" for S where
  wait:
    "async_wait_begin t (af_client s) = (ev, c) \<Longrightarrow>
     async_fine_step S s (s\<lparr>af_system := \<lparr>ac_state = c, ac_waiters = (ac_waiters (af_system s))(ev \<mapsto> t)\<rparr>\<rparr>)"
| find:
    "af_pending s = Pending_none \<Longrightarrow> async_find_awaiter t (af_client s) = Some ptr \<Longrightarrow>
     async_fine_step S s (s\<lparr>af_pending := Pending_found ptr buffer\<rparr>)"
| store:
    "af_pending s = Pending_found ptr buffer \<Longrightarrow> async_decode S buffer = Some payload \<Longrightarrow>
     async_store_awaiter ptr payload (af_client s) = Inr c \<Longrightarrow>
     async_fine_step S s (s\<lparr>af_system := (af_system s)\<lparr>ac_state := c\<rparr>, af_pending := Pending_stored ptr\<rparr>)"
| undecodable:
    "af_pending s = Pending_found ptr buffer \<Longrightarrow> async_decode S buffer = None \<Longrightarrow>
     async_fine_step S s (s\<lparr>af_pending := Pending_stored ptr\<rparr>)"
| set_event:
    "af_pending s = Pending_stored ptr \<Longrightarrow> async_set_event ptr (af_client s) = Inr c \<Longrightarrow>
     async_fine_step S s (s\<lparr>af_system := (af_system s)\<lparr>ac_state := c\<rparr>, af_pending := Pending_none\<rparr>)"
| resume:
    "ac_waiters (af_system s) ev = Some t \<Longrightarrow> ev \<in> as_events_set (af_client s) \<Longrightarrow>
     async_wait_end S t (af_client s) = (r, c) \<Longrightarrow>
     async_fine_step S s (s\<lparr>af_system := \<lparr>ac_state = c, ac_waiters = (ac_waiters (af_system s))(ev := None)\<rparr>\<rparr>)"

inductive async_fine_reachable :: "('o, 'p, 'b) serializer \<Rightarrow> 'p async_fine \<Rightarrow> bool" for S where
  init: "async_fine_reachable S \<lparr>af_system = async_system_init, af_pending = Pending_none\<rparr>"
| step: "async_fine_reachable S s \<Longrightarrow> async_fine_step S s t \<Longrightarrow> async_fine_reachable S t"

section \<open>The invariant\<close>

text \<open>A pointer the network thread keeps: its awaiter is still in front of its queue, or its coroutine
  has resumed, which takes an earlier packet that set its event.\<close>

definition pointer_ok :: "packet_type_t \<times> nat \<Rightarrow> 'p async_system \<Rightarrow> bool" where
  "pointer_ok ptr s \<longleftrightarrow>
     (case ac_waiters s (snd ptr) of
        None \<Rightarrow> snd ptr \<in> as_events_set (ac_state s)
      | Some t \<Rightarrow> t = fst ptr \<and> (\<exists>a rest. awaiter_queue (ac_state s) t = a # rest \<and> aw_event a = snd ptr))"

fun pending_ok :: "async_pending \<Rightarrow> 'p async_system \<Rightarrow> bool" where
  "pending_ok Pending_none s \<longleftrightarrow> True"
| "pending_ok (Pending_found ptr buffer) s \<longleftrightarrow> pointer_ok ptr s"
| "pending_ok (Pending_stored ptr) s \<longleftrightarrow> pointer_ok ptr s"

lemma pointer_dangles:
  assumes "async_ok s" and "ac_waiters s (snd ptr) = None"
  shows "async_store_awaiter ptr p (ac_state s) = Inl Use_after_free" and "async_set_event ptr (ac_state s) = Inl Use_after_free"
proof -
  have "aw_event a \<noteq> snd ptr" if "awaiter_queue (ac_state s) (fst ptr) = a # rest" for a rest
    using async_okD(1) [OF assms(1), of a "fst ptr"] assms(2) that by auto
  then show "async_store_awaiter ptr p (ac_state s) = Inl Use_after_free" and "async_set_event ptr (ac_state s) = Inl Use_after_free"
    by (auto simp: async_store_awaiter_eq async_set_event_eq split: list.split)
qed

lemma pointer_live:
  assumes "pointer_ok ptr s" and "ac_waiters s (snd ptr) \<noteq> None"
  obtains a rest where "awaiter_queue (ac_state s) (fst ptr) = a # rest" and "aw_event a = snd ptr"
    and "ac_waiters s (snd ptr) = Some (fst ptr)"
  using assms by (auto simp: pointer_ok_def)

lemma pointer_ok_front:
  assumes "pointer_ok ptr s" and "awaiter_queue (ac_state s) t = a # rest" and "aw_event a' = aw_event a"
    and "as_events_set (ac_state s) \<subseteq> E"
  shows "pointer_ok ptr (s\<lparr>ac_state := (ac_state s)\<lparr>as_awaiters := (as_awaiters (ac_state s))(t \<mapsto> a' # rest), as_events_set := E\<rparr>\<rparr>)"
  using assms by (auto simp: pointer_ok_def split: option.splits)

lemma pointer_ok_wait:
  assumes "async_ok s" and "pointer_ok ptr s"
  shows "pointer_ok ptr \<lparr>ac_state = snd (async_wait_begin t (ac_state s)),
    ac_waiters = (ac_waiters s)(fst (async_wait_begin t (ac_state s)) \<mapsto> t)\<rparr>"
  using assms(2) async_okD(6,7) [OF assms(1), of "snd ptr"]
  by (fastforce simp: pointer_ok_def async_wait_begin_eq split: option.splits)

lemma pointer_ok_resume:
  assumes "async_ok s" and "pointer_ok ptr s" and "ac_waiters s ev = Some t" and "ev \<in> as_events_set (ac_state s)"
  shows "pointer_ok ptr \<lparr>ac_state = snd (async_wait_end S t (ac_state s)), ac_waiters = (ac_waiters s)(ev := None)\<rparr>"
proof -
  obtain a rest where front: "awaiter_queue (ac_state s) t = a # rest" "aw_event a = ev"
    by (rule notified_is_front [OF assms(1,3,4)])
  show ?thesis
    using assms(2-4) front by (auto simp: pointer_ok_def async_wait_end_eq split: option.splits)
qed

lemma async_fine_reachable_ok:
  "async_fine_reachable S s \<Longrightarrow> async_ok (af_system s) \<and> pending_ok (af_pending s) (af_system s)"
proof (induction rule: async_fine_reachable.induct)
  case init
  show ?case by (simp add: async_init_ok)
next
  case (step s u)
  let ?s = "af_system s"
  have ok: "async_ok ?s" and pend: "pending_ok (af_pending s) ?s" using step.IH by simp_all
  from step(2) show ?case
  proof cases
    case (wait t ev c)
    have "async_ok (?s\<lparr>ac_state := c, ac_waiters := (ac_waiters ?s)(ev \<mapsto> t)\<rparr>)"
      using async_wait_ok [OF ok, of t] wait(2) by simp
    with wait pend show ?thesis
      using pointer_ok_wait [OF ok, of _ t] by (cases "af_pending s") (cases ?s; simp)+
  next
    case (find t ptr buffer)
    then obtain a rest where "awaiter_queue (ac_state ?s) t = a # rest" and "ptr = (t, aw_event a)"
      by (auto simp: async_find_awaiter_eq split: list.splits)
    with find ok show ?thesis using async_okD(1) [OF ok, of a t] by (simp add: pointer_ok_def)
  next
    case (store ptr buffer payload c)
    then obtain a rest where q: "awaiter_queue (ac_state ?s) (fst ptr) = a # rest"
      and c: "c = (ac_state ?s)\<lparr>as_awaiters := (as_awaiters (ac_state ?s))(fst ptr \<mapsto> a\<lparr>aw_data := Some payload\<rparr> # rest),
        as_events_set := as_events_set (ac_state ?s)\<rparr>"
      by (auto simp: async_store_awaiter_eq split: list.splits if_splits)
    have "async_ok (?s\<lparr>ac_state := c\<rparr>)"
      by (rule async_front_ok [OF ok q _ subset_insertI c]) simp
    moreover have "pointer_ok ptr (?s\<lparr>ac_state := c\<rparr>)"
      using pend store(2) unfolding c by (intro pointer_ok_front [OF _ q]) simp_all
    ultimately show ?thesis using store(1) by simp
  next
    case (undecodable ptr buffer)
    with ok pend show ?thesis by simp
  next
    case (set_event ptr c)
    then obtain a rest where q: "awaiter_queue (ac_state ?s) (fst ptr) = a # rest"
      and c: "c = (ac_state ?s)\<lparr>as_awaiters := (as_awaiters (ac_state ?s))(fst ptr \<mapsto> a # rest),
        as_events_set := insert (aw_event a) (as_events_set (ac_state ?s))\<rparr>"
      by (auto simp: async_set_event_def awaiter_queue_def fun_upd_idem split: option.splits list.splits if_splits)
    have "async_ok (?s\<lparr>ac_state := c\<rparr>)"
      by (rule async_front_ok [OF ok q refl subset_refl c])
    with set_event show ?thesis by simp
  next
    case (resume ev t r c)
    have "async_ok (?s\<lparr>ac_state := c, ac_waiters := (ac_waiters ?s)(ev := None)\<rparr>)"
      using async_resume_ok [OF ok resume(2,3), of S] resume(4) by simp
    with resume pend show ?thesis
      using pointer_ok_resume [OF ok _ resume(2,3), of _ S] by (cases "af_pending s") (cases ?s; simp)+
  qed
qed

section \<open>Which entry a coroutine takes, and when the pointer dangles\<close>

lemma awaiter_queue_Cons: "awaiter_queue s t = a # rest \<longleftrightarrow> as_awaiters s t = Some (a # rest)"
  by (simp add: awaiter_queue_def split: option.split)

text \<open>A notified coroutine whose awaiter the network thread holds resumes before the write.\<close>

lemma async_resume_frees:
  assumes s: "async_fine_reachable S s" and pend: "af_pending s = Pending_found ptr buffer"
    and set: "snd ptr \<in> as_events_set (af_client s)" and live: "ac_waiters (af_system s) (snd ptr) \<noteq> None"
  shows "\<exists>u. async_fine_reachable S u \<and> af_pending u = af_pending s \<and>
    (\<forall>p. async_store_awaiter ptr p (af_client u) = Inl Use_after_free)"
proof -
  obtain t where t: "ac_waiters (af_system s) (snd ptr) = Some t" using live by blast
  obtain r c where e: "async_wait_end S t (af_client s) = (r, c)" by fastforce
  let ?u = "s\<lparr>af_system := \<lparr>ac_state = c, ac_waiters = (ac_waiters (af_system s))(snd ptr := None)\<rparr>\<rparr>"
  have u: "async_fine_reachable S ?u"
    by (rule async_fine_reachable.step [OF s async_fine_step.resume [OF t set e]])
  then have "async_ok (af_system ?u)" using async_fine_reachable_ok by blast
  from pointer_dangles(1) [OF this] u show ?thesis by (intro exI [of _ ?u]) simp
qed

text \<open>
  C21: The packet handler is cut where it gives up the lock: lookup of the front awaiter, write of the payload and
  set of the event are steps of their own, with coroutines that start to wait or resume between them. In
  every reachable state a coroutine whose event is set finds its own entry at the front of the queue of its
  type and takes exactly that one, although the code pops whatever is in front. The handler writes
  to the awaiter it looked up, in front of its queue, unless the coroutine of that awaiter has resumed
  meanwhile; then, and only then, the pointer dangles, which takes an earlier packet that set the same event, and
  happens in some run whenever the event is set at the lookup.
\<close>

theorem async_cut_waiter_takes_own_entry:
  assumes "async_fine_reachable S s"
  shows "(\<forall>ev t. ac_waiters (af_system s) ev = Some t \<and> ev \<in> as_events_set (af_client s) \<longrightarrow>
       (\<exists>a rest. as_awaiters (af_client s) t = Some (a # rest) \<and> aw_event a = ev \<and>
          async_wait_end S t (af_client s) = (Option.bind (aw_data a) (payload_as S),
            (af_client s)\<lparr>as_awaiters := (as_awaiters (af_client s))(t \<mapsto> rest)\<rparr>))) \<and>
    (\<forall>ptr buffer p. af_pending s = Pending_found ptr buffer \<longrightarrow>
       (if ac_waiters (af_system s) (snd ptr) = None
        then async_store_awaiter ptr p (af_client s) = Inl Use_after_free \<and> snd ptr \<in> as_events_set (af_client s)
        else \<exists>a rest. as_awaiters (af_client s) (fst ptr) = Some (a # rest) \<and> aw_event a = snd ptr \<and>
          async_store_awaiter ptr p (af_client s) = Inr ((af_client s)\<lparr>as_awaiters :=
            (as_awaiters (af_client s))(fst ptr \<mapsto> a\<lparr>aw_data := Some p\<rparr> # rest)\<rparr>))) \<and>
    (\<forall>ptr. af_pending s = Pending_stored ptr \<longrightarrow>
       async_set_event ptr (af_client s) =
         (if ac_waiters (af_system s) (snd ptr) = None then Inl Use_after_free
          else Inr ((af_client s)\<lparr>as_events_set := insert (snd ptr) (as_events_set (af_client s))\<rparr>))) \<and>
    (\<forall>ptr buffer. af_pending s = Pending_found ptr buffer \<and> snd ptr \<in> as_events_set (af_client s) \<and>
       ac_waiters (af_system s) (snd ptr) \<noteq> None \<longrightarrow>
       (\<exists>u. async_fine_reachable S u \<and> af_pending u = af_pending s \<and>
          (\<forall>p. async_store_awaiter ptr p (af_client u) = Inl Use_after_free)))"
proof (intro conjI allI impI, goal_cases)
  note ok = async_fine_reachable_ok [OF assms, THEN conjunct1] and pend = async_fine_reachable_ok [OF assms, THEN conjunct2]
  case (1 ev t)
  then obtain a rest where "awaiter_queue (af_client s) t = a # rest" "aw_event a = ev"
    using notified_is_front [OF ok] by blast
  then show ?case
    by (intro exI [of _ a] exI [of _ rest]) (simp add: awaiter_queue_Cons [symmetric] async_wait_end_eq)
next
  note ok = async_fine_reachable_ok [OF assms, THEN conjunct1] and pend = async_fine_reachable_ok [OF assms, THEN conjunct2]
  case (2 ptr buffer p)
  then have ptr: "pointer_ok ptr (af_system s)" using pend by simp
  show ?case
  proof (cases "ac_waiters (af_system s) (snd ptr) = None")
    case True
    with ptr show ?thesis using pointer_dangles(1) [OF ok True] by (simp add: pointer_ok_def)
  next
    case False
    then obtain a rest where "awaiter_queue (af_client s) (fst ptr) = a # rest" "aw_event a = snd ptr"
      using pointer_live [OF ptr] by blast
    with False show ?thesis by (auto simp: awaiter_queue_Cons [symmetric] async_store_awaiter_eq)
  qed
next
  note ok = async_fine_reachable_ok [OF assms, THEN conjunct1] and pend = async_fine_reachable_ok [OF assms, THEN conjunct2]
  case (3 ptr)
  then have ptr: "pointer_ok ptr (af_system s)" using pend by simp
  show ?case
  proof (cases "ac_waiters (af_system s) (snd ptr) = None")
    case True
    then show ?thesis using pointer_dangles(2) [OF ok True] by simp
  next
    case False
    then obtain a rest where "awaiter_queue (af_client s) (fst ptr) = a # rest" "aw_event a = snd ptr"
      using pointer_live [OF ptr] by blast
    with False show ?thesis by (simp add: async_set_event_eq)
  qed
next
  case (4 ptr buffer)
  then show ?case using async_resume_frees [OF assms] by blast
qed

text \<open>One coroutine that waits for type 42; a first packet is delivered, a second one looked up.\<close>

definition lookup_system :: "u8 option \<Rightarrow> nat set \<Rightarrow> async_pending \<Rightarrow> u8 async_fine" where
  "lookup_system data E pending =
     \<lparr>af_system = \<lparr>ac_state = \<lparr>as_alive = True, as_awaiters = [42 \<mapsto> [\<lparr>aw_event = 0, aw_data = data\<rparr>]],
        as_events_set = E, as_next_event = 1\<rparr>, ac_waiters = [0 \<mapsto> 42]\<rparr>, af_pending = pending\<rparr>"

lemma lookup_steps:
  "async_fine_step sample_serializer \<lparr>af_system = async_system_init, af_pending = Pending_none\<rparr> (lookup_system None {} Pending_none)"
  "async_fine_step sample_serializer (lookup_system d E Pending_none) (lookup_system d E (Pending_found (42, 0) (byte_packet x)))"
  "async_fine_step sample_serializer (lookup_system d E (Pending_found (42, 0) (byte_packet x))) (lookup_system (Some x) E (Pending_stored (42, 0)))"
  "async_fine_step sample_serializer (lookup_system d E (Pending_stored (42, 0))) (lookup_system d (insert 0 E) Pending_none)"
  using async_fine_step.wait [of 42 "\<lparr>af_system = async_system_init, af_pending = Pending_none\<rparr> :: u8 async_fine" 0 _ sample_serializer]
    async_fine_step.find [of "lookup_system d E Pending_none" 42 "(42, 0)" sample_serializer "byte_packet x"]
    async_fine_step.store [of "lookup_system d E (Pending_found (42, 0) (byte_packet x))" "(42, 0)" "byte_packet x" sample_serializer x]
    async_fine_step.set_event [of "lookup_system d E (Pending_stored (42, 0))" "(42, 0)" _ sample_serializer]
  by (simp_all add: lookup_system_def async_system_init_def async_client_new_def async_wait_begin_eq awaiter_queue_def
      async_find_awaiter_def async_store_awaiter_def async_set_event_def sample_deserialize [simplified])

lemma lookup_reachable:
  "async_fine_reachable sample_serializer (lookup_system (Some 7) {0} (Pending_found (42, 0) (byte_packet 9)))"
  using async_fine_reachable.step [OF async_fine_reachable.step [OF async_fine_reachable.step [OF async_fine_reachable.step
    [OF async_fine_reachable.step [OF async_fine_reachable.init lookup_steps(1)] lookup_steps(2)] lookup_steps(3)]
    lookup_steps(4)] lookup_steps(2)] .

theorem async_cut_waiter_takes_own_entry_witness:
  "(\<exists>u. async_fine_reachable sample_serializer u \<and> af_pending u = Pending_found (42, 0) (byte_packet 9) \<and>
      async_store_awaiter (42, 0) 9 (af_client u) = Inl Use_after_free) \<and>
   (\<exists>c. async_wait_end sample_serializer 42 (af_client (lookup_system (Some 7) {0} (Pending_found (42, 0) (byte_packet 9)))) = (Some 7, c))"
  using async_cut_waiter_takes_own_entry [OF lookup_reachable]
  by (auto simp: lookup_system_def msgpack_serializer_def msgpack_payload_as_internal_def sample_msgpack_def)

end
