(* ===== verification/Udp_Server.thy ===== *)
theory Udp_Server
  imports Third_Party Std_Map
begin

text \<open>
  \<^verbatim>\<open>src/src/kb/net/udp/server/udp_server.hpp\<close> and \<^verbatim>\<open>udp_server.cpp\<close>: the UDP server over Steam's
  sockets. A \<open>udp_server\<close> record has the members of class \<^verbatim>\<open>UdpServer\<close>; a \<open>server_world\<close> holds every
  server object of the process (\<open>this\<close> is the index of one), the file's static pointer
  \<^verbatim>\<open>s_instance\<close> and the world outside. Each member function is one definition on the world.
\<close>

section \<open>State\<close>

record client_info_t =
  ci_conn :: kb_connection_t
  ci_addr :: ip_address_t

text \<open>\<open>us_network_thread\<close> is whether the \<^verbatim>\<open>std::thread\<close> member is joinable; an unset
  \<^verbatim>\<open>std::function\<close> is \<open>None\<close>. A callback may fault, and acts on the world outside only.\<close>

type_synonym 'w data_received_callback_func_t = "client_info_t \<Rightarrow> u8 list \<Rightarrow> 'w env \<Rightarrow> 'w env result"
type_synonym 'w client_connected_callback_func_t = "client_info_t \<Rightarrow> 'w env \<Rightarrow> 'w env result"
type_synonym 'w client_disconnected_callback_func_t = "client_info_t \<Rightarrow> 'w env \<Rightarrow> 'w env result"

record 'w udp_server =
  us_network_thread :: bool
  us_is_running :: bool
  us_port :: u16
  us_on_data :: "'w data_received_callback_func_t option"
  us_on_connected :: "'w client_connected_callback_func_t option"
  us_on_disconnected :: "'w client_disconnected_callback_func_t option"
  us_clients :: "(kb_connection_t, client_info_t) std_map"
  us_listen_socket :: listen_socket_t
  us_poll_group :: poll_group_t

record 'w server_world =
  servers :: "nat \<Rightarrow> 'w udp_server"
  server_instance :: "nat option"
  senv :: "'w env"

datatype thread_id = App_thread | Network_thread nat

definition udp_server_new :: "'w udp_server" where
  "udp_server_new =
     \<lparr>us_network_thread = False, us_is_running = False, us_port = 0,
      us_on_data = None, us_on_connected = None, us_on_disconnected = None,
      us_clients = [], us_listen_socket = k_invalid_listen_socket,
      us_poll_group = k_invalid_poll_group\<rparr>"

definition upd_server ::
  "nat \<Rightarrow> ('w udp_server \<Rightarrow> 'w udp_server) \<Rightarrow> 'w server_world \<Rightarrow> 'w server_world" where
  "upd_server this f w = w\<lparr>servers := (servers w)(this := f (servers w this))\<rparr>"

definition server_log :: "steam_call \<Rightarrow> 'w server_world \<Rightarrow> 'w server_world" where
  "server_log c w = w\<lparr>senv := log_call c (senv w)\<rparr>"

definition server_history :: "'w server_world \<Rightarrow> history" where
  "server_history w = calls (senv w)"

definition UdpServer_new :: "nat \<Rightarrow> 'w server_world \<Rightarrow> 'w server_world" where
  "UdpServer_new this w = upd_server this (\<lambda>_. udp_server_new) w"

lemma upd_server_simps [simp]:
  "servers (upd_server this f w) = (servers w)(this := f (servers w this))"
  "server_instance (upd_server this f w) = server_instance w"
  "senv (upd_server this f w) = senv w"
  "server_history (upd_server this f w) = server_history w"
  by (simp_all add: upd_server_def server_history_def)

lemma server_log_simps [simp]:
  "servers (server_log c w) = servers w"
  "server_instance (server_log c w) = server_instance w"
  "senv (server_log c w) = log_call c (senv w)"
  "server_history (server_log c w) = server_history w @ [c]"
  by (simp_all add: server_log_def server_history_def)

lemma server_history_simps [simp]:
  "server_history (w\<lparr>server_instance := x\<rparr>) = server_history w"
  "server_history (w\<lparr>senv := e\<rparr>) = calls e"
  "server_history (w\<lparr>servers := s\<rparr>) = server_history w"
  by (simp_all add: server_history_def)

section \<open>Accessors\<close>

definition UdpServer_is_running :: "nat \<Rightarrow> 'w server_world \<Rightarrow> bool" where
  "UdpServer_is_running this w = us_is_running (servers w this)"

definition UdpServer_port :: "nat \<Rightarrow> 'w server_world \<Rightarrow> u16" where
  "UdpServer_port this w = us_port (servers w this)"

text \<open>The registered function may be an empty \<^verbatim>\<open>std::function\<close>, which unsets the callback.\<close>

definition UdpServer_set_on_data_callback ::
  "nat \<Rightarrow> 'w data_received_callback_func_t option \<Rightarrow> 'w server_world \<Rightarrow> 'w server_world" where
  "UdpServer_set_on_data_callback this p_call w = upd_server this (us_on_data_update (\<lambda>_. p_call)) w"

definition UdpServer_set_on_client_connected_callback ::
  "nat \<Rightarrow> 'w client_connected_callback_func_t option \<Rightarrow> 'w server_world \<Rightarrow> 'w server_world" where
  "UdpServer_set_on_client_connected_callback this p_call w =
     upd_server this (us_on_connected_update (\<lambda>_. p_call)) w"

definition UdpServer_set_on_client_disconnected_callback ::
  "nat \<Rightarrow> 'w client_disconnected_callback_func_t option \<Rightarrow> 'w server_world \<Rightarrow> 'w server_world" where
  "UdpServer_set_on_client_disconnected_callback this p_call w =
     upd_server this (us_on_disconnected_update (\<lambda>_. p_call)) w"

definition UdpServer_get_client_info :: "nat \<Rightarrow> kb_connection_t \<Rightarrow> 'w server_world \<Rightarrow> client_info_t option" where
  "UdpServer_get_client_info this p_conn w = map_find (us_clients (servers w this)) p_conn"

section \<open>Starting and stopping\<close>

definition UdpServer_on_fatal_message :: "nat \<Rightarrow> 'w server_world \<Rightarrow> 'w server_world" where
  "UdpServer_on_fatal_message this w = upd_server this (us_is_running_update (\<lambda>_. False)) w"

definition UdpServer_start_manual ::
  "steam_api \<Rightarrow> nat \<Rightarrow> u16 \<Rightarrow> 'w server_world \<Rightarrow> bool \<times> 'w server_world" where
  "UdpServer_start_manual st this p_port w =
     (if us_is_running (servers w this) then (False, w)
      else
        let sock = create_listen_socket st (server_history w) p_port;
            w = upd_server this (us_listen_socket_update (\<lambda>_. sock))
                  (server_log (CreateListenSocketIP p_port sock) w) in
        if sock = k_invalid_listen_socket then (False, UdpServer_on_fatal_message this w)
        else
          let pg = create_poll_group st (server_history w);
              w = upd_server this (us_poll_group_update (\<lambda>_. pg)) (server_log (CreatePollGroup pg) w) in
          if pg = k_invalid_poll_group then (False, UdpServer_on_fatal_message this w)
          else
            (True, upd_server this (\<lambda>s. s\<lparr>us_port := p_port, us_is_running := True\<rparr>)
                     (w\<lparr>server_instance := Some this\<rparr>)))"

text \<open>Move-assigning to a joinable \<^verbatim>\<open>std::thread\<close> calls \<^verbatim>\<open>std::terminate\<close>.\<close>

definition UdpServer_start_async ::
  "steam_api \<Rightarrow> nat \<Rightarrow> u16 \<Rightarrow> 'w server_world \<Rightarrow> (bool \<times> 'w server_world) result" where
  "UdpServer_start_async st this p_port w =
     (case UdpServer_start_manual st this p_port w of
        (False, w) \<Rightarrow> Inr (False, w)
      | (True, w) \<Rightarrow>
          if us_network_thread (servers w this) then Inl Terminate
          else Inr (True, upd_server this (us_network_thread_update (\<lambda>_. True)) w))"

text \<open>\<^verbatim>\<open>stop\<close> up to the join: clear the static pointer, \<^verbatim>\<open>m_is_running.exchange(false)\<close>.\<close>

definition UdpServer_stop_begin :: "nat \<Rightarrow> 'w server_world \<Rightarrow> bool \<times> 'w server_world" where
  "UdpServer_stop_begin this w =
     (us_is_running (servers w this),
      upd_server this (us_is_running_update (\<lambda>_. False)) (w\<lparr>server_instance := None\<rparr>))"

text \<open>\<^verbatim>\<open>stop\<close> after the join: close every client, the listen socket and the poll group.\<close>

fun close_all_connections :: "kb_connection_t list \<Rightarrow> 'w server_world \<Rightarrow> 'w server_world" where
  "close_all_connections [] w = w"
| "close_all_connections (conn # conns) w =
     close_all_connections conns
       (server_log (CloseConnection conn 0 (Some ''UdpServer shutting down'') True) w)"

definition UdpServer_stop_finish :: "nat \<Rightarrow> 'w server_world \<Rightarrow> 'w server_world" where
  "UdpServer_stop_finish this w =
     (let w = close_all_connections (map_keys (us_clients (servers w this))) w;
          w = upd_server this (us_clients_update (\<lambda>_. [])) w;
          w = (if us_listen_socket (servers w this) \<noteq> k_invalid_listen_socket
               then upd_server this (us_listen_socket_update (\<lambda>_. k_invalid_listen_socket))
                      (server_log (CloseListenSocket (us_listen_socket (servers w this))) w)
               else w) in
      if us_poll_group (servers w this) \<noteq> k_invalid_poll_group
      then upd_server this (us_poll_group_update (\<lambda>_. k_invalid_poll_group))
             (server_log (DestroyPollGroup (us_poll_group (servers w this))) w)
      else w)"

text \<open>The whole of \<^verbatim>\<open>stop\<close>, called on thread \<open>caller\<close>. A thread that joins itself gets a
  \<^verbatim>\<open>std::system_error\<close>, which leaves a \<^verbatim>\<open>noexcept\<close> function.\<close>

definition UdpServer_stop :: "thread_id \<Rightarrow> nat \<Rightarrow> 'w server_world \<Rightarrow> 'w server_world result" where
  "UdpServer_stop caller this w =
     (case UdpServer_stop_begin this w of
        (False, w) \<Rightarrow> Inr w
      | (True, w) \<Rightarrow>
          if us_network_thread (servers w this) then
            if caller = Network_thread this then Inl Terminate
            else Inr (UdpServer_stop_finish this (upd_server this (us_network_thread_update (\<lambda>_. False)) w))
          else Inr (UdpServer_stop_finish this w))"

text \<open>The destructor: \<^verbatim>\<open>stop\<close>, then the members; a joinable thread member terminates.\<close>

definition UdpServer_delete :: "thread_id \<Rightarrow> nat \<Rightarrow> 'w server_world \<Rightarrow> 'w server_world result" where
  "UdpServer_delete caller this w =
     bind_result (UdpServer_stop caller this w) (\<lambda>w.
       if us_network_thread (servers w this) then Inl Terminate else Inr w)"

section \<open>Sending\<close>

definition send_flags :: "bool \<Rightarrow> send_flag" where
  "send_flags p_reliable = (if p_reliable then Send_Reliable else Send_Unreliable)"

text \<open>\<^verbatim>\<open>send\<close> is \<^verbatim>\<open>const\<close>: it touches the outside world only.\<close>

definition UdpServer_send ::
  "steam_api \<Rightarrow> kb_connection_t \<Rightarrow> u8 list \<Rightarrow> u32 \<Rightarrow> bool \<Rightarrow> 'w env \<Rightarrow> bool \<times> 'w env" where
  "UdpServer_send st p_conn p_data p_size p_reliable e =
     (let bytes = take (unat p_size) p_data;
          flags = send_flags p_reliable;
          res = send_message st (calls e) p_conn bytes flags in
      (res = EResultOK, log_call (SendMessageToConnection p_conn bytes flags) e))"

fun broadcast_loop ::
  "steam_api \<Rightarrow> kb_connection_t list \<Rightarrow> u8 list \<Rightarrow> u32 \<Rightarrow> bool \<Rightarrow> bool \<Rightarrow> 'w env \<Rightarrow> bool \<times> 'w env" where
  "broadcast_loop st [] p_data p_size p_reliable ok e = (ok, e)"
| "broadcast_loop st (conn # conns) p_data p_size p_reliable ok e =
     (case UdpServer_send st conn p_data p_size p_reliable e of
        (sent, e) \<Rightarrow> broadcast_loop st conns p_data p_size p_reliable (if sent then ok else False) e)"

definition UdpServer_broadcast ::
  "steam_api \<Rightarrow> nat \<Rightarrow> u8 list \<Rightarrow> u32 \<Rightarrow> bool \<Rightarrow> 'w server_world \<Rightarrow> bool \<times> 'w server_world" where
  "UdpServer_broadcast st this p_data p_size p_reliable w =
     (let clients = us_clients (servers w this) in
      if clients = [] then (False, w)
      else case broadcast_loop st (map_keys clients) p_data p_size p_reliable True (senv w) of
             (ok, e) \<Rightarrow> (ok, w\<lparr>senv := e\<rparr>))"

definition UdpServer_disconnect :: "nat \<Rightarrow> kb_connection_t \<Rightarrow> i32 \<Rightarrow> 'w server_world \<Rightarrow> 'w server_world" where
  "UdpServer_disconnect this p_conn p_reason w =
     (let w = server_log (CloseConnection p_conn p_reason (Some ''Disconnected'') False) w in
      upd_server this (us_clients_update (\<lambda>m. map_erase m p_conn)) w)"

section \<open>Connection status callback\<close>

definition run_env :: "('w env \<Rightarrow> 'w env result) \<Rightarrow> 'w server_world \<Rightarrow> 'w server_world result" where
  "run_env f w = bind_result (f (senv w)) (\<lambda>e. Inr (w\<lparr>senv := e\<rparr>))"

definition UdpServer_on_closed :: "nat \<Rightarrow> status_changed \<Rightarrow> 'w server_world \<Rightarrow> 'w server_world result" where
  "UdpServer_on_closed this p_info w =
     (let conn = sc_hConn p_info in
      bind_result
        (if sc_eOldState p_info = State_Connected then
           case (us_on_disconnected (servers w this), UdpServer_get_client_info this conn w) of
             (Some callback, Some client_info) \<Rightarrow> run_env (callback client_info) w
           | _ \<Rightarrow> Inr w
         else Inr w)
        (\<lambda>w. Inr (server_log (CloseConnection conn 0 None False) w)))"

text \<open>\<^verbatim>\<open>m_clients[conn]\<close> is the entry, or a fresh one with every member zero.\<close>

definition client_info_at :: "(kb_connection_t, client_info_t) std_map \<Rightarrow> kb_connection_t \<Rightarrow> client_info_t" where
  "client_info_at clients conn =
     (case map_find clients conn of Some c \<Rightarrow> c | None \<Rightarrow> \<lparr>ci_conn = 0, ci_addr = ip_address_zero\<rparr>)"

definition UdpServer_add_client ::
  "steam_api \<Rightarrow> nat \<Rightarrow> kb_connection_t \<Rightarrow> 'w server_world \<Rightarrow> client_info_t \<times> 'w server_world" where
  "UdpServer_add_client st this conn w =
     (let addr = connection_info st (server_history w) conn;
          w = server_log (GetConnectionInfo conn) w;
          client = client_info_at (us_clients (servers w this)) conn;
          client = client\<lparr>ci_conn := conn,
                          ci_addr := ip_address_assign (is_ipv4 st) (ci_addr client) addr\<rparr> in
      (client, upd_server this (us_clients_update (\<lambda>m. map_put m conn client)) w))"

definition UdpServer_notify_connected ::
  "nat \<Rightarrow> client_info_t \<times> 'w server_world \<Rightarrow> 'w server_world result" where
  "UdpServer_notify_connected this = (\<lambda>(client, w).
     case us_on_connected (servers w this) of
       None \<Rightarrow> Inr w
     | Some callback \<Rightarrow> run_env (callback client) w)"

definition UdpServer_on_connecting ::
  "steam_api \<Rightarrow> nat \<Rightarrow> status_changed \<Rightarrow> 'w server_world \<Rightarrow> 'w server_world result" where
  "UdpServer_on_connecting st this p_info w =
     (let conn = sc_hConn p_info;
          accepted = accept_connection st (server_history w) conn;
          w = server_log (AcceptConnection conn) w in
      if accepted \<noteq> EResultOK then Inr (server_log (CloseConnection conn 0 None False) w)
      else
        let pg = us_poll_group (servers w this);
            grouped = set_connection_poll_group st (server_history w) conn pg;
            w = server_log (SetConnectionPollGroup conn pg) w in
        if \<not> grouped then Inr (server_log (CloseConnection conn 0 None False) w)
        else UdpServer_notify_connected this (UdpServer_add_client st this conn w))"

definition UdpServer_on_connection_status_changed ::
  "steam_api \<Rightarrow> nat \<Rightarrow> status_changed \<Rightarrow> 'w server_world \<Rightarrow> 'w server_world result" where
  "UdpServer_on_connection_status_changed st this p_info w =
     (case sc_eState p_info of
        State_None \<Rightarrow> Inr w
      | State_ClosedByPeer \<Rightarrow> UdpServer_on_closed this p_info w
      | State_ProblemDetectedLocally \<Rightarrow> UdpServer_on_closed this p_info w
      | State_Connecting \<Rightarrow> UdpServer_on_connecting st this p_info w
      | State_Connected \<Rightarrow> Inr w
      | State_other _ \<Rightarrow> Inr w)"

text \<open>The static callback Steam calls: it goes to \<^verbatim>\<open>s_instance\<close>, whatever server polled.\<close>

definition UdpServer_connection_status_changed_callback ::
  "steam_api \<Rightarrow> status_changed \<Rightarrow> 'w server_world \<Rightarrow> 'w server_world result" where
  "UdpServer_connection_status_changed_callback st p_info w =
     (case server_instance w of
        None \<Rightarrow> Inr w
      | Some this \<Rightarrow> UdpServer_on_connection_status_changed st this p_info w)"

section \<open>Polling\<close>

definition k_message_count :: nat where
  "k_message_count = 32"

text \<open>One received message: the data callback for a known client.\<close>

definition UdpServer_deliver :: "nat \<Rightarrow> steam_message \<Rightarrow> 'w server_world \<Rightarrow> 'w server_world result" where
  "UdpServer_deliver this message w =
     (case us_on_data (servers w this) of
        None \<Rightarrow> Inr w
      | Some callback \<Rightarrow>
          (case UdpServer_get_client_info this (sm_conn message) w of
             None \<Rightarrow> Inr w
           | Some client \<Rightarrow> run_env (callback client (sm_data message)) w))"

text \<open>
  The loop over \<^verbatim>\<open>messages[i]\<close> for \<^verbatim>\<open>i < message_count\<close>. Only the first \<open>length messages\<close> slots of
  the array hold a pointer; the others were never written.
\<close>

function server_message_loop ::
  "nat \<Rightarrow> nat \<Rightarrow> steam_message list \<Rightarrow> nat \<Rightarrow> 'w server_world \<Rightarrow> 'w server_world result" where
  "server_message_loop this message_count messages i w =
     (if i < message_count then
        if i < length messages then
          bind_result (UdpServer_deliver this (messages ! i) w) (\<lambda>w.
            server_message_loop this message_count messages (i + 1)
              (server_log (ReleaseMessage (messages ! i)) w))
        else Inl Uninitialised_read
      else Inr w)"
  by pat_completeness auto
termination
  by (relation "measure (\<lambda>(this, n, ms, i, w). n - i)") auto

declare server_message_loop.simps [simp del]

text \<open>\<^verbatim>\<open>RunCallbacks()\<close> calls the registered static callback for each queued event. It serves the whole
  process; the events of clients in it, which run the callback of \<^verbatim>\<open>UdpClient\<close>, are not among these.\<close>

fun server_dispatch ::
  "steam_api \<Rightarrow> status_changed list \<Rightarrow> 'w server_world \<Rightarrow> 'w server_world result" where
  "server_dispatch st [] w = Inr w"
| "server_dispatch st (ev # evs) w =
     bind_result (UdpServer_connection_status_changed_callback st ev w) (server_dispatch st evs)"

text \<open>\<^verbatim>\<open>const u32 message_count\<close> takes the \<^verbatim>\<open>int\<close> result modulo \<open>2 ^ 32\<close>.\<close>

definition UdpServer_poll :: "steam_api \<Rightarrow> nat \<Rightarrow> 'w server_world \<Rightarrow> 'w server_world result" where
  "UdpServer_poll st this w =
     (let pg = us_poll_group (servers w this);
          (n, messages) = receive_on_poll_group st (server_history w) pg k_message_count;
          message_count = u32_count n;
          w = server_log (ReceiveMessagesOnPollGroup pg k_message_count) w in
      bind_result (server_message_loop this message_count messages 0 w) (\<lambda>w.
        server_dispatch st (run_callbacks st (server_history w)) (server_log RunCallbacks w)))"

end
