(* ===== verification/Udp_Server_Correct.thy ===== *)
theory Udp_Server_Correct
  imports Udp_Server
begin

text \<open>
  What the operations of \<^verbatim>\<open>UdpServer\<close> do to the server objects and to the history of Steam calls:
  reference descriptions of the loops, the exact calls of start, stop, poll and broadcast, the
  effect of each connection event on the client table, and the per-server invariant.
\<close>

section \<open>Loops and their reference definitions\<close>

lemma close_all_connections_simps [simp]:
  "servers (close_all_connections conns w) = servers w"
  "server_instance (close_all_connections conns w) = server_instance w"
  "app (senv (close_all_connections conns w)) = app (senv w)"
  by (induction conns arbitrary: w) simp_all

lemma close_all_connections_history [simp]:
  "server_history (close_all_connections conns w) =
   server_history w @ map (\<lambda>c. CloseConnection c 0 (Some ''UdpServer shutting down'') True) conns"
  by (induction conns arbitrary: w) simp_all

text \<open>\<open>stop\<close> after the join makes these calls, in this order.\<close>

definition stop_calls :: "'w udp_server \<Rightarrow> history" where
  "stop_calls s =
     map (\<lambda>c. CloseConnection c 0 (Some ''UdpServer shutting down'') True) (map_keys (us_clients s)) @
     (if us_listen_socket s \<noteq> 0 then [CloseListenSocket (us_listen_socket s)] else []) @
     (if us_poll_group s \<noteq> 0 then [DestroyPollGroup (us_poll_group s)] else [])"

definition stopped :: "'w udp_server \<Rightarrow> 'w udp_server" where
  "stopped s = s\<lparr>us_clients := [], us_listen_socket := 0, us_poll_group := 0\<rparr>"

lemma stop_finish_servers [simp]:
  "servers (UdpServer_stop_finish this w) = (servers w)(this := stopped (servers w this))"
  by (simp add: UdpServer_stop_finish_def Let_def stopped_def handle_defs fun_eq_iff)

lemma stop_finish_instance [simp]:
  "server_instance (UdpServer_stop_finish this w) = server_instance w"
  by (simp add: UdpServer_stop_finish_def Let_def)

lemma stop_finish_history [simp]:
  "server_history (UdpServer_stop_finish this w) = server_history w @ stop_calls (servers w this)"
  by (simp add: UdpServer_stop_finish_def Let_def stop_calls_def handle_defs)

lemma stop_finish_app [simp]: "app (senv (UdpServer_stop_finish this w)) = app (senv w)"
  by (simp add: UdpServer_stop_finish_def Let_def)

text \<open>Broadcast: one send to each key, in order, whatever the earlier ones returned.\<close>

definition send_call :: "u8 list \<Rightarrow> bool \<Rightarrow> kb_connection_t \<Rightarrow> steam_call" where
  "send_call bytes reliable conn = SendMessageToConnection conn bytes (send_flags reliable)"

fun all_sent :: "steam_api \<Rightarrow> history \<Rightarrow> kb_connection_t list \<Rightarrow> u8 list \<Rightarrow> bool \<Rightarrow> bool" where
  "all_sent st h [] bytes reliable = True"
| "all_sent st h (c # cs) bytes reliable =
     (send_message st h c bytes (send_flags reliable) = EResultOK \<and>
      all_sent st (h @ [send_call bytes reliable c]) cs bytes reliable)"

lemma all_sent_iff:
  "all_sent st h cs bytes reliable \<longleftrightarrow>
   (\<forall>k < length cs. send_message st (h @ map (send_call bytes reliable) (take k cs)) (cs ! k) bytes
      (send_flags reliable) = EResultOK)"
proof (induction cs arbitrary: h)
  case (Cons c cs)
  show ?case
    unfolding all_sent.simps Cons.IH by (auto simp: less_Suc_eq_0_disj)
qed simp

lemma broadcast_loop_eq:
  "broadcast_loop st conns p_data p_size reliable ok e =
   (let bytes = take (unat p_size) p_data in
    (ok \<and> all_sent st (calls e) conns bytes reliable,
     e\<lparr>calls := calls e @ map (send_call bytes reliable) conns\<rparr>))"
  by (induction conns arbitrary: ok e)
    (auto simp: UdpServer_send_def Let_def send_call_def log_call_def)

lemma broadcast_eq:
  "UdpServer_broadcast st this p_data p_size reliable w =
   (let keys = map_keys (us_clients (servers w this)); bytes = take (unat p_size) p_data in
    (keys \<noteq> [] \<and> all_sent st (server_history w) keys bytes reliable,
     w\<lparr>senv := (senv w)\<lparr>calls := server_history w @ map (send_call bytes reliable) keys\<rparr>\<rparr>))"
  by (simp add: UdpServer_broadcast_def broadcast_loop_eq Let_def server_history_def map_keys_def)

text \<open>The indexed loop over the array is a recursion over the messages it holds.\<close>

fun deliver_messages :: "nat \<Rightarrow> steam_message list \<Rightarrow> 'w server_world \<Rightarrow> 'w server_world result" where
  "deliver_messages this [] w = Inr w"
| "deliver_messages this (m # ms) w =
     bind_result (UdpServer_deliver this m w) (\<lambda>w. deliver_messages this ms (server_log (ReleaseMessage m) w))"

lemma server_message_loop_eq:
  "n = length messages \<Longrightarrow> i \<le> n \<Longrightarrow>
   server_message_loop this n messages i w = deliver_messages this (drop i messages) w"
proof (induction "n - i" arbitrary: i w)
  case 0
  then show ?case by (subst server_message_loop.simps) simp
next
  case (Suc k)
  then have i: "i < length messages" and k: "k = n - Suc i" "Suc i \<le> n" by simp_all
  have "server_message_loop this n messages i w =
    bind_result (UdpServer_deliver this (messages ! i) w)
      (\<lambda>w. server_message_loop this n messages (Suc i) (server_log (ReleaseMessage (messages ! i)) w))"
    using i Suc.prems by (subst server_message_loop.simps) simp
  also have "\<dots> = bind_result (UdpServer_deliver this (messages ! i) w)
      (\<lambda>w. deliver_messages this (drop (Suc i) messages) (server_log (ReleaseMessage (messages ! i)) w))"
    using Suc.hyps(1) [OF k(1) Suc.prems(1) k(2)] by simp
  finally show ?case
    using i by (simp add: Cons_nth_drop_Suc [symmetric])
qed

lemma server_message_loop_empty:
  "0 < n \<Longrightarrow> server_message_loop this n [] 0 w = Inl Uninitialised_read"
  by (subst server_message_loop.simps) simp

text \<open>Delivery with a callback that does not fault: a fold over the messages, in which only those
  of known clients reach the callback.\<close>

definition deliver_one ::
  "(client_info_t \<Rightarrow> u8 list \<Rightarrow> 'w env \<Rightarrow> 'w env) \<Rightarrow> (kb_connection_t, client_info_t) std_map \<Rightarrow>
   steam_message \<Rightarrow> 'w env \<Rightarrow> 'w env" where
  "deliver_one f clients m e =
     log_call (ReleaseMessage m)
       (case map_find clients (sm_conn m) of None \<Rightarrow> e | Some c \<Rightarrow> f c (sm_data m) e)"

lemma deliver_messages_fold:
  assumes "us_on_data (servers w this) = Some (\<lambda>c d e. Inr (f c d e))"
  shows "deliver_messages this ms w =
    Inr (w\<lparr>senv := fold (deliver_one f (us_clients (servers w this))) ms (senv w)\<rparr>)"
  using assms
proof (induction ms arbitrary: w)
  case (Cons m ms)
  have "deliver_messages this (m # ms) w =
    deliver_messages this ms (w\<lparr>senv := deliver_one f (us_clients (servers w this)) m (senv w)\<rparr>)"
    using Cons.prems
    by (auto simp: UdpServer_deliver_def UdpServer_get_client_info_def run_env_def deliver_one_def
        server_log_def split: option.split)
  then show ?case using Cons by simp
qed simp

lemma deliver_messages_unset:
  assumes "us_on_data (servers w this) = None"
  shows "deliver_messages this ms w = Inr (w\<lparr>senv := fold (\<lambda>m. log_call (ReleaseMessage m)) ms (senv w)\<rparr>)"
  using assms by (induction ms arbitrary: w) (simp_all add: UdpServer_deliver_def server_log_def)

section \<open>What polling leaves alone\<close>

definition clients_ok :: "(kb_connection_t, client_info_t) std_map \<Rightarrow> bool" where
  "clients_ok m \<longleftrightarrow>
     map_ok m \<and> (\<forall>k c. map_find m k = Some c \<longrightarrow> ci_conn c = k \<and> ip_address_ok (ci_addr c))"

lemma clients_ok_Nil [simp]: "clients_ok []"
  by (simp add: clients_ok_def std_map.ok_empty)

lemma clients_ok_erase: "clients_ok m \<Longrightarrow> clients_ok (map_erase m k)"
  by (auto simp: clients_ok_def std_map.ok_erase std_map.find_erase split: if_splits)

lemma clients_ok_put:
  "clients_ok m \<Longrightarrow> ci_conn c = k \<Longrightarrow> ip_address_ok (ci_addr c) \<Longrightarrow> clients_ok (map_put m k c)"
  by (auto simp: clients_ok_def std_map.ok_put std_map.find_put split: if_splits)

lemma client_info_at_addr: "clients_ok m \<Longrightarrow> ip_address_ok (ci_addr (client_info_at m k))"
  by (auto simp: clients_ok_def client_info_at_def ip_address_zero_ok split: option.split)

text \<open>\<open>server_frame w w'\<close>: from \<open>w\<close> to \<open>w'\<close> only client tables changed (and stayed well formed),
  and only neutral Steam calls were made.\<close>

definition server_frame :: "'w server_world \<Rightarrow> 'w server_world \<Rightarrow> bool" where
  "server_frame w w' \<longleftrightarrow>
     env_frame (senv w) (senv w') \<and> server_instance w' = server_instance w \<and>
     (\<forall>i. servers w' i = (servers w i)\<lparr>us_clients := us_clients (servers w' i)\<rparr>) \<and>
     (\<forall>i. clients_ok (us_clients (servers w i)) \<longrightarrow> clients_ok (us_clients (servers w' i)))"

lemma server_frame_refl [simp]: "server_frame w w"
  by (simp add: server_frame_def)

lemma server_frame_trans [trans]:
  assumes "server_frame w1 w2" and "server_frame w2 w3"
  shows "server_frame w1 w3"
  unfolding server_frame_def
proof (intro conjI allI impI)
  show "env_frame (senv w1) (senv w3)"
    using assms env_frame_trans unfolding server_frame_def by blast
  fix i
  have "servers w3 i = (servers w2 i)\<lparr>us_clients := us_clients (servers w3 i)\<rparr>"
    and "servers w2 i = (servers w1 i)\<lparr>us_clients := us_clients (servers w2 i)\<rparr>"
    using assms unfolding server_frame_def by blast+
  then show "servers w3 i = (servers w1 i)\<lparr>us_clients := us_clients (servers w3 i)\<rparr>"
    by (metis (no_types, lifting) udp_server.unfold_congs(7) udp_server.update_convs(7)
        udp_server.surjective udp_server.select_convs(7))
qed (use assms in \<open>auto simp: server_frame_def\<close>)

lemma server_frame_fields:
  assumes "server_frame w w'"
  shows "us_network_thread (servers w' i) = us_network_thread (servers w i)"
    and "us_is_running (servers w' i) = us_is_running (servers w i)"
    and "us_port (servers w' i) = us_port (servers w i)"
    and "us_on_data (servers w' i) = us_on_data (servers w i)"
    and "us_on_connected (servers w' i) = us_on_connected (servers w i)"
    and "us_on_disconnected (servers w' i) = us_on_disconnected (servers w i)"
    and "us_listen_socket (servers w' i) = us_listen_socket (servers w i)"
    and "us_poll_group (servers w' i) = us_poll_group (servers w i)"
proof -
  obtain m where "servers w' i = (servers w i)\<lparr>us_clients := m\<rparr>"
    using assms unfolding server_frame_def by blast
  then show "us_network_thread (servers w' i) = us_network_thread (servers w i)"
    and "us_is_running (servers w' i) = us_is_running (servers w i)"
    and "us_port (servers w' i) = us_port (servers w i)"
    and "us_on_data (servers w' i) = us_on_data (servers w i)"
    and "us_on_connected (servers w' i) = us_on_connected (servers w i)"
    and "us_on_disconnected (servers w' i) = us_on_disconnected (servers w i)"
    and "us_listen_socket (servers w' i) = us_listen_socket (servers w i)"
    and "us_poll_group (servers w' i) = us_poll_group (servers w i)"
    by simp_all
qed

lemma server_frame_log [simp]: "neutral_call c \<Longrightarrow> server_frame w (server_log c w)"
  by (simp add: server_frame_def)

lemma server_frame_env: "env_frame (senv w) e \<Longrightarrow> server_frame w (w\<lparr>senv := e\<rparr>)"
  by (simp add: server_frame_def)

lemma server_frame_clients:
  "(clients_ok (us_clients (servers w this)) \<Longrightarrow> clients_ok (f (us_clients (servers w this)))) \<Longrightarrow>
   server_frame w (upd_server this (us_clients_update f) w)"
  by (simp add: server_frame_def)

text \<open>Every callback a server holds is well behaved.\<close>

definition callbacks_ok :: "'w udp_server \<Rightarrow> bool" where
  "callbacks_ok s \<longleftrightarrow>
     (\<forall>f. us_on_data s = Some f \<longrightarrow> (\<forall>c d. well_behaved (f c d))) \<and>
     (\<forall>f. us_on_connected s = Some f \<longrightarrow> (\<forall>c. well_behaved (f c))) \<and>
     (\<forall>f. us_on_disconnected s = Some f \<longrightarrow> (\<forall>c. well_behaved (f c)))"

lemma callbacks_ok_update [simp]:
  "callbacks_ok (us_network_thread_update a s) = callbacks_ok s"
  "callbacks_ok (us_is_running_update b s) = callbacks_ok s"
  "callbacks_ok (us_port_update p s) = callbacks_ok s"
  "callbacks_ok (us_clients_update m s) = callbacks_ok s"
  "callbacks_ok (us_listen_socket_update l s) = callbacks_ok s"
  "callbacks_ok (us_poll_group_update g s) = callbacks_ok s"
  by (simp_all add: callbacks_ok_def)

lemma callbacks_ok_frame:
  "server_frame w w' \<Longrightarrow> callbacks_ok (servers w' i) \<longleftrightarrow> callbacks_ok (servers w i)"
  by (simp add: callbacks_ok_def server_frame_fields)

text \<open>A step that returns and stays within the frame; such steps compose.\<close>

definition framed :: "'w server_world \<Rightarrow> 'w server_world result \<Rightarrow> bool" where
  "framed w r \<longleftrightarrow> (\<exists>w'. r = Inr w' \<and> server_frame w w')"

lemma framedI [intro]: "server_frame w w' \<Longrightarrow> framed w (Inr w')"
  by (simp add: framed_def)

lemma framedE:
  assumes "framed w r"
  obtains w' where "r = Inr w'" and "server_frame w w'"
  using assms by (auto simp: framed_def)

lemma framed_bind:
  assumes "framed w m" and "\<And>w1. server_frame w w1 \<Longrightarrow> framed w1 (f w1)"
  shows "framed w (bind_result m f)"
  using assms server_frame_trans by (fastforce simp: framed_def)

lemma framed_weaken: "server_frame w w1 \<Longrightarrow> framed w1 r \<Longrightarrow> framed w r"
  using server_frame_trans by (auto simp: framed_def)

lemma framed_log: "server_frame w w1 \<Longrightarrow> neutral_call c \<Longrightarrow> framed w (Inr (server_log c w1))"
  by (rule framed_weaken) auto

lemma run_env_framed: "well_behaved f \<Longrightarrow> framed w (run_env f w)"
  unfolding run_env_def by (erule well_behavedE [of f "senv w"]) (auto intro: server_frame_env)

lemma deliver_framed: "callbacks_ok (servers w this) \<Longrightarrow> framed w (UdpServer_deliver this m w)"
  by (auto simp: UdpServer_deliver_def callbacks_ok_def split: option.split intro: run_env_framed)

lemma deliver_messages_framed:
  "callbacks_ok (servers w this) \<Longrightarrow> framed w (deliver_messages this ms w)"
proof (induction ms arbitrary: w)
  case (Cons m ms)
  have "framed w1 (deliver_messages this ms (server_log (ReleaseMessage m) w1))" if "server_frame w w1" for w1
    using that Cons.prems
    by (intro framed_weaken [OF server_frame_log [of "ReleaseMessage m"] Cons.IH])
      (simp_all add: callbacks_ok_frame [OF that])
  then show ?case
    using Cons.prems by (simp only: deliver_messages.simps) (rule framed_bind [OF deliver_framed])
qed (simp add: framedI)

lemma on_closed_framed:
  assumes "callbacks_ok (servers w this)"
  shows "framed w (UdpServer_on_closed this ev w)"
  using assms unfolding UdpServer_on_closed_def Let_def
  by (intro framed_bind)
    (auto simp: callbacks_ok_def split: option.split intro: run_env_framed)

lemma add_client_frame:
  "addresses_ok st \<Longrightarrow> server_frame w (snd (UdpServer_add_client st this conn w))"
  unfolding UdpServer_add_client_def Let_def snd_conv
  by (rule server_frame_trans [OF server_frame_log server_frame_clients])
    (auto simp: addresses_ok_def intro!: clients_ok_put ip_address_assign_ok client_info_at_addr)

lemma notify_connected_framed:
  "callbacks_ok (servers (snd cw) this) \<Longrightarrow> framed (snd cw) (UdpServer_notify_connected this cw)"
  by (cases cw) (auto simp: UdpServer_notify_connected_def callbacks_ok_def split: option.split
      intro: run_env_framed)

lemma on_connecting_framed:
  assumes "callbacks_ok (servers w this)" and "addresses_ok st"
  shows "framed w (UdpServer_on_connecting st this ev w)"
proof -
  define conn where "conn = sc_hConn ev"
  define w1 where "w1 = server_log (AcceptConnection conn) w"
  define w2 where "w2 = server_log (SetConnectionPollGroup conn (us_poll_group (servers w this))) w1"
  have f1: "server_frame w w1" and f2: "server_frame w w2"
    using server_frame_trans [of w w1 w2] by (simp_all add: w1_def w2_def)
  have f3: "server_frame w (snd (UdpServer_add_client st this conn w2))"
    by (rule server_frame_trans [OF f2 add_client_frame [OF assms(2)]])
  have cb: "framed w (UdpServer_notify_connected this (UdpServer_add_client st this conn w2))"
    using assms(1) by (intro framed_weaken [OF f3] notify_connected_framed) (simp add: callbacks_ok_frame [OF f3])
  show ?thesis
    using cb f1 f2
    by (auto simp: UdpServer_on_connecting_def Let_def conn_def w1_def w2_def intro!: framed_log)
qed

lemma on_status_framed:
  assumes "callbacks_ok (servers w this)" and "addresses_ok st"
  shows "framed w (UdpServer_on_connection_status_changed st this ev w)"
  using assms
  by (auto simp: UdpServer_on_connection_status_changed_def split: steam_state.split
      intro: on_closed_framed on_connecting_framed)

lemma dispatch_framed:
  assumes "\<And>i. callbacks_ok (servers w i)" and "addresses_ok st"
  shows "framed w (server_dispatch st evs w)"
  using assms
proof (induction evs arbitrary: w)
  case (Cons ev evs)
  have "framed w (UdpServer_connection_status_changed_callback st ev w)"
    using Cons.prems
    by (auto simp: UdpServer_connection_status_changed_callback_def split: option.split intro: on_status_framed)
  moreover have "framed w1 (server_dispatch st evs w1)" if "server_frame w w1" for w1
    using Cons.prems by (intro Cons.IH) (simp_all add: callbacks_ok_frame [OF that])
  ultimately show ?case
    by (simp only: server_dispatch.simps) (rule framed_bind)
qed (simp add: framedI)

text \<open>A poll on a live poll group returns, and stays within the frame.\<close>

lemma poll_framed:
  assumes "\<And>i. callbacks_ok (servers w i)" and "addresses_ok st" and "messages_ok st"
    and "us_poll_group (servers w this) \<in> live_poll_groups (server_history w)"
  shows "framed w (UdpServer_poll st this w)"
proof -
  let ?pg = "us_poll_group (servers w this)"
  obtain n ms where recv: "receive_on_poll_group st (server_history w) ?pg k_message_count = (n, ms)"
    by fastforce
  then have n: "n = int (length ms)" and le: "length ms \<le> 32"
    using assms(3,4) unfolding messages_ok_def k_message_count_def by (metis fst_conv snd_conv)+
  have count: "u32_count n = length ms"
    using n le by simp
  let ?w = "server_log (ReceiveMessagesOnPollGroup ?pg k_message_count) w"
  have "framed ?w (bind_result (deliver_messages this ms ?w) (\<lambda>w.
        server_dispatch st (run_callbacks st (server_history w)) (server_log RunCallbacks w)))"
  proof (rule framed_bind)
    show "framed ?w (deliver_messages this ms ?w)"
      using assms(1) by (simp add: deliver_messages_framed)
    fix w1 assume fr: "server_frame ?w w1"
    have "callbacks_ok (servers (server_log RunCallbacks w1) i)" for i
      using assms(1) by (simp add: callbacks_ok_frame [OF fr])
    then show "framed w1 (server_dispatch st (run_callbacks st (server_history w1)) (server_log RunCallbacks w1))"
      by (intro framed_weaken [OF server_frame_log dispatch_framed] assms(2)) simp_all
  qed
  then have "framed w (bind_result (deliver_messages this ms ?w) (\<lambda>w.
        server_dispatch st (run_callbacks st (server_history w)) (server_log RunCallbacks w)))"
    by (rule framed_weaken [rotated]) simp
  then show ?thesis
    by (simp add: UdpServer_poll_def Let_def recv count server_message_loop_eq)
qed

text \<open>A poll on a group Steam does not know reads the first, unwritten, slot of the array.\<close>

lemma poll_dead_group:
  assumes "messages_ok st" and "us_poll_group (servers w this) \<notin> live_poll_groups (server_history w)"
  shows "UdpServer_poll st this w = Inl Uninitialised_read"
  using assms by (simp add: UdpServer_poll_def Let_def messages_ok_def u32_count_minus_one server_message_loop_empty)

section \<open>Starting\<close>

text \<open>The four ways a start ends, with the state and the calls of each.\<close>

lemma start_manual_cases:
  assumes "UdpServer_start_manual st this port w = (ok, w')"
  obtains
    (running) "us_is_running (servers w this)" "\<not> ok" "w' = w"
  | (no_socket) "\<not> us_is_running (servers w this)" "\<not> ok"
      "create_listen_socket st (server_history w) port = 0"
      "servers w' = (servers w)(this := (servers w this)\<lparr>us_listen_socket := 0\<rparr>)"
      "server_instance w' = server_instance w"
      "server_history w' = server_history w @ [CreateListenSocketIP port 0]"
  | (no_group) sock where "\<not> us_is_running (servers w this)" "\<not> ok"
      "sock = create_listen_socket st (server_history w) port" "sock \<noteq> 0"
      "servers w' = (servers w)(this := (servers w this)\<lparr>us_listen_socket := sock, us_poll_group := 0\<rparr>)"
      "server_instance w' = server_instance w"
      "server_history w' = server_history w @ [CreateListenSocketIP port sock, CreatePollGroup 0]"
      "create_poll_group st (server_history w @ [CreateListenSocketIP port sock]) = 0"
  | (started) sock pg where "\<not> us_is_running (servers w this)" "ok"
      "sock = create_listen_socket st (server_history w) port" "sock \<noteq> 0"
      "pg = create_poll_group st (server_history w @ [CreateListenSocketIP port sock])" "pg \<noteq> 0"
      "servers w' = (servers w)(this := (servers w this)
         \<lparr>us_listen_socket := sock, us_poll_group := pg, us_port := port, us_is_running := True\<rparr>)"
      "server_instance w' = Some this"
      "server_history w' = server_history w @ [CreateListenSocketIP port sock, CreatePollGroup pg]"
proof (cases "us_is_running (servers w this)")
  case True
  then have "ok = False" "w' = w"
    using assms by (simp_all add: UdpServer_start_manual_def)
  with True running show thesis by simp
next
  case idle: False
  have same: "s\<lparr>us_is_running := False\<rparr> = s" if "\<not> us_is_running s" for s :: "'a udp_server"
    using that by (cases s) simp
  define sock where "sock = create_listen_socket st (server_history w) port"
  define w1 where "w1 = upd_server this (us_listen_socket_update (\<lambda>_. sock)) (server_log (CreateListenSocketIP port sock) w)"
  define pg where "pg = create_poll_group st (server_history w1)"
  define w2 where "w2 = upd_server this (us_poll_group_update (\<lambda>_. pg)) (server_log (CreatePollGroup pg) w1)"
  have w1: "servers w1 = (servers w)(this := (servers w this)\<lparr>us_listen_socket := sock\<rparr>)"
    "server_instance w1 = server_instance w" "server_history w1 = server_history w @ [CreateListenSocketIP port sock]"
    by (simp_all add: w1_def)
  have w2: "servers w2 = (servers w)(this := (servers w this)\<lparr>us_listen_socket := sock, us_poll_group := pg\<rparr>)"
    "server_instance w2 = server_instance w"
    "server_history w2 = server_history w @ [CreateListenSocketIP port sock, CreatePollGroup pg]"
    by (simp_all add: w2_def w1)
  have run: "UdpServer_start_manual st this port w =
    (if sock = 0 then (False, UdpServer_on_fatal_message this w1)
     else if pg = 0 then (False, UdpServer_on_fatal_message this w2)
     else (True, upd_server this (\<lambda>s. s\<lparr>us_port := port, us_is_running := True\<rparr>) (w2\<lparr>server_instance := Some this\<rparr>)))"
    using idle by (simp add: UdpServer_start_manual_def Let_def sock_def w1_def pg_def w2_def handle_defs)
  consider "sock = 0" | "sock \<noteq> 0" "pg = 0" | "sock \<noteq> 0" "pg \<noteq> 0" by blast
  then show thesis
  proof cases
    case 1
    then have "ok = False" "w' = UdpServer_on_fatal_message this w1" using assms run by simp_all
    with 1 idle w1 show thesis
      by (intro no_socket) (simp_all add: UdpServer_on_fatal_message_def same sock_def)
  next
    case 2
    then have "ok = False" "w' = UdpServer_on_fatal_message this w2" using assms run by simp_all
    with 2 idle w2 show thesis
      by (intro no_group) (simp_all add: UdpServer_on_fatal_message_def same sock_def pg_def w1)
  next
    case 3
    then have "ok = True"
      "w' = upd_server this (\<lambda>s. s\<lparr>us_port := port, us_is_running := True\<rparr>) (w2\<lparr>server_instance := Some this\<rparr>)"
      using assms run by simp_all
    with 3 idle w2 show thesis
      by (intro started [of sock pg]) (simp_all add: sock_def pg_def w1)
  qed
qed

lemma start_manual_fields:
  assumes "UdpServer_start_manual st this port w = (ok, w')"
  shows "us_network_thread (servers w' i) = us_network_thread (servers w i)"
    and "us_clients (servers w' i) = us_clients (servers w i)"
    and "callbacks_ok (servers w' i) = callbacks_ok (servers w i)"
    and "us_is_running (servers w' i) \<longleftrightarrow> us_is_running (servers w i) \<or> ok \<and> i = this"
proof -
  show "us_network_thread (servers w' i) = us_network_thread (servers w i)"
    using assms by (cases rule: start_manual_cases) simp_all
  show "us_clients (servers w' i) = us_clients (servers w i)"
    using assms by (cases rule: start_manual_cases) simp_all
  show "callbacks_ok (servers w' i) = callbacks_ok (servers w i)"
    using assms by (cases rule: start_manual_cases) (simp_all add: callbacks_ok_def)
  show "us_is_running (servers w' i) \<longleftrightarrow> us_is_running (servers w i) \<or> ok \<and> i = this"
    using assms by (cases rule: start_manual_cases) auto
qed

section \<open>Stopping\<close>

lemma stop_begin_eq:
  "UdpServer_stop_begin this w = (was, w') \<longleftrightarrow>
   was = us_is_running (servers w this) \<and>
   w' = upd_server this (us_is_running_update (\<lambda>_. False)) (w\<lparr>server_instance := None\<rparr>)"
  by (auto simp: UdpServer_stop_begin_def)

lemma stopped_fields [simp]:
  "us_network_thread (stopped s) = us_network_thread s"
  "us_is_running (stopped s) = us_is_running s"
  "us_clients (stopped s) = []"
  "us_listen_socket (stopped s) = 0"
  "us_poll_group (stopped s) = 0"
  "callbacks_ok (stopped s) = callbacks_ok s"
  by (simp_all add: stopped_def callbacks_ok_def)

text \<open>The handles that are left after the calls of a stop.\<close>

lemma live_stop_calls:
  "live_poll_groups (h @ stop_calls s) = live_poll_groups h - {us_poll_group s}"
  "live_sockets (h @ stop_calls s) = live_sockets h - {us_listen_socket s}"
proof -
  define closes where
    "closes = map (\<lambda>c. CloseConnection c 0 (Some ''UdpServer shutting down'') True) (map_keys (us_clients s))"
  have n: "list_all neutral_call closes" by (simp add: list_all_iff closes_def)
  have split: "stop_calls s = closes @
      (if us_listen_socket s \<noteq> 0 then [CloseListenSocket (us_listen_socket s)] else []) @
      (if us_poll_group s \<noteq> 0 then [DestroyPollGroup (us_poll_group s)] else [])"
    by (simp add: stop_calls_def closes_def)
  have two: "live_poll_groups (h' @ [a, b]) = live_poll_group_step (live_poll_group_step (live_poll_groups h') a) b"
    "live_sockets (h' @ [a, b]) = live_socket_step (live_socket_step (live_sockets h') a) b" for h' a b
    using live_simps(2,4) [of "h' @ [a]" b] by simp_all
  show "live_poll_groups (h @ stop_calls s) = live_poll_groups h - {us_poll_group s}"
    and "live_sockets (h @ stop_calls s) = live_sockets h - {us_listen_socket s}"
    using live_neutral [OF n, of h] live_simps(2,4) [of "h @ closes"] two [of "h @ closes"]
    by (cases "us_listen_socket s = 0"; cases "us_poll_group s = 0"; simp add: split)+
qed

end
