(* ===== verification/Packet_Server.thy ===== *)
theory Packet_Server
  imports Handler_Registry Udp_Server_Correct Serializers
begin

text \<open>
  \<^verbatim>\<open>src/src/kb/net/udp/server/udp_packet_server.hpp\<close> and \<^verbatim>\<open>udp_packet_server.inl\<close>: a server that
  dispatches packets to handlers by their type. The template parameter \<^verbatim>\<open>SerdeT\<close> is the serializer
  \<open>S\<close> with its tag \<open>traits_serde S\<close>. The table of handlers is in the state the data callback of the
  underlying \<^verbatim>\<open>UdpServer\<close> acts on; packet server \<open>this\<close> owns \<^verbatim>\<open>UdpServer\<close> \<open>this\<close>.
\<close>

section \<open>State\<close>

type_synonym ('p, 'a) server_packet_handler = "kb_connection_t \<Rightarrow> 'p \<Rightarrow> 'a env \<Rightarrow> 'a env result"

text \<open>\<open>ps_alive\<close> is whether a \<^verbatim>\<open>shared_ptr\<close> to the object exists, what \<^verbatim>\<open>weak.lock()\<close> tests.\<close>

record ('p, 'a) udp_packet_server =
  ps_alive :: bool
  ps_handlers :: "packet_type_t \<rightharpoonup> ('p, 'a) server_packet_handler option"

record ('p, 'a) packet_servers_app =
  packet_servers :: "nat \<Rightarrow> ('p, 'a) udp_packet_server"
  ps_user :: 'a

type_synonym ('p, 'a) packet_env = "('p, 'a) packet_servers_app env"
type_synonym ('p, 'a) packet_world = "('p, 'a) packet_servers_app server_world"

definition upd_packet_server ::
  "nat \<Rightarrow> (('p, 'a) udp_packet_server \<Rightarrow> ('p, 'a) udp_packet_server) \<Rightarrow> ('p, 'a) packet_env \<Rightarrow> ('p, 'a) packet_env" where
  "upd_packet_server this f e =
     e\<lparr>app := (app e)\<lparr>packet_servers := (packet_servers (app e))(this := f (packet_servers (app e) this))\<rparr>\<rparr>"

lemma upd_packet_server_simps [simp]:
  "packet_servers (app (upd_packet_server this f e)) =
     (packet_servers (app e))(this := f (packet_servers (app e) this))"
  "ps_user (app (upd_packet_server this f e)) = ps_user (app e)"
  "calls (upd_packet_server this f e) = calls e"
  by (simp_all add: upd_packet_server_def)

section \<open>Handlers\<close>

definition UdpPacketServer_bind_packet_handler ::
  "nat \<Rightarrow> packet_type_t \<Rightarrow> ('p, 'a) server_packet_handler option \<Rightarrow> ('p, 'a) packet_env \<Rightarrow> bool \<times> ('p, 'a) packet_env" where
  "UdpPacketServer_bind_packet_handler this p_packet_type packet_handler_func e =
     (if ps_handlers (packet_servers (app e) this) p_packet_type \<noteq> None then (False, e)
      else (True, upd_packet_server this
              (\<lambda>s. s\<lparr>ps_handlers := (ps_handlers s)(p_packet_type \<mapsto> packet_handler_func)\<rparr>) e))"

definition UdpPacketServer_unbind_packet_handler ::
  "nat \<Rightarrow> packet_type_t \<Rightarrow> ('p, 'a) packet_env \<Rightarrow> ('p, 'a) packet_env" where
  "UdpPacketServer_unbind_packet_handler this p_packet_type e =
     upd_packet_server this (\<lambda>s. s\<lparr>ps_handlers := (ps_handlers s)(p_packet_type := None)\<rparr>) e"

text \<open>\<^verbatim>\<open>handler_it->second(p_client.m_conn, payload)\<close>.\<close>

definition call_server_handler ::
  "('p, 'a) server_packet_handler option \<Rightarrow> kb_connection_t \<Rightarrow> 'p \<Rightarrow> ('p, 'a) packet_env \<Rightarrow> ('p, 'a) packet_env result" where
  "call_server_handler handler conn payload e =
     call_function handler (\<lambda>f. run_user ps_user (\<lambda>u a. a\<lparr>ps_user := u\<rparr>) (f conn payload) e)"

text \<open>The part of \<^verbatim>\<open>handle_packet\<close> after a handler is found. \<^verbatim>\<open>payload_size\<close> does not wrap: a header
  was parsed, so there are at least eight bytes.\<close>

definition UdpPacketServer_handle_payload ::
  "('o, 'p, 'b) serializer \<Rightarrow> ('p, 'a) server_packet_handler option \<Rightarrow> kb_connection_t \<Rightarrow> u8 list \<Rightarrow> nat \<Rightarrow>
   ('p, 'a) packet_env \<Rightarrow> (bool \<times> ('p, 'a) packet_env) result" where
  "UdpPacketServer_handle_payload S handler conn p_data p_len e =
     (let payload_ptr = drop sizeof_internal_packet_header_t p_data;
          payload_size = p_len - sizeof_internal_packet_header_t in
      bind_result (kb_assert (payload_size < p_len)) (\<lambda>_.
        case deserialize_packet S payload_ptr payload_size of
          None \<Rightarrow> Inr (False, e)
        | Some payload \<Rightarrow> bind_result (call_server_handler handler conn payload e) (\<lambda>e. Inr (True, e))))"

definition UdpPacketServer_dispatch ::
  "('o, 'p, 'b) serializer \<Rightarrow> nat \<Rightarrow> kb_connection_t \<Rightarrow> internal_packet_header_t \<Rightarrow> u8 list \<Rightarrow> nat \<Rightarrow>
   ('p, 'a) packet_env \<Rightarrow> (bool \<times> ('p, 'a) packet_env) result" where
  "UdpPacketServer_dispatch S this conn header p_data p_len e =
     (if m_serde_type header \<noteq> traits_serde S then Inr (False, e)
      else case ps_handlers (packet_servers (app e) this) (m_packet_type header) of
             None \<Rightarrow> Inr (False, e)
           | Some handler \<Rightarrow> UdpPacketServer_handle_payload S handler conn p_data p_len e)"

definition UdpPacketServer_handle_packet ::
  "('o, 'p, 'b) serializer \<Rightarrow> nat \<Rightarrow> client_info_t \<Rightarrow> u8 list \<Rightarrow> nat \<Rightarrow>
   ('p, 'a) packet_env \<Rightarrow> (bool \<times> ('p, 'a) packet_env) result" where
  "UdpPacketServer_handle_packet S this p_client p_data p_len e =
     bind_result (unpack_internal_packet_header p_data p_len) (\<lambda>maybe_header.
       case maybe_header of
         None \<Rightarrow> Inr (False, e)
       | Some header \<Rightarrow> UdpPacketServer_dispatch S this (ci_conn p_client) header p_data p_len e)"

section \<open>Life cycle\<close>

text \<open>The lambda \<^verbatim>\<open>create\<close> registers: nothing happens once the object is gone.\<close>

definition UdpPacketServer_on_data ::
  "('o, 'p, 'b) serializer \<Rightarrow> nat \<Rightarrow> client_info_t \<Rightarrow> u8 list \<Rightarrow> ('p, 'a) packet_env \<Rightarrow> ('p, 'a) packet_env result" where
  "UdpPacketServer_on_data S this client data e =
     (if ps_alive (packet_servers (app e) this)
      then bind_result (UdpPacketServer_handle_packet S this client data (length data) e) (\<lambda>(_, e). Inr e)
      else Inr e)"

definition UdpPacketServer_create ::
  "('o, 'p, 'b) serializer \<Rightarrow> nat \<Rightarrow> ('p, 'a) packet_world \<Rightarrow> ('p, 'a) packet_world" where
  "UdpPacketServer_create S this w =
     (let w = UdpServer_new this w;
          w = w\<lparr>senv := upd_packet_server this (\<lambda>_. \<lparr>ps_alive = True, ps_handlers = Map.empty\<rparr>) (senv w)\<rparr> in
      UdpServer_set_on_data_callback this (Some (UdpPacketServer_on_data S this)) w)"

text \<open>The members are destroyed in reverse order: the handlers, then the server.\<close>

definition UdpPacketServer_delete ::
  "thread_id \<Rightarrow> nat \<Rightarrow> ('p, 'a) packet_world \<Rightarrow> ('p, 'a) packet_world result" where
  "UdpPacketServer_delete caller this w =
     UdpServer_delete caller this
       (w\<lparr>senv := upd_packet_server this (\<lambda>_. \<lparr>ps_alive = False, ps_handlers = Map.empty\<rparr>) (senv w)\<rparr>)"

definition UdpPacketServer_start ::
  "steam_api \<Rightarrow> nat \<Rightarrow> u16 \<Rightarrow> ('p, 'a) packet_world \<Rightarrow> (bool \<times> ('p, 'a) packet_world) result" where
  "UdpPacketServer_start st this p_port w = UdpServer_start_async st this p_port w"

definition UdpPacketServer_stop ::
  "thread_id \<Rightarrow> nat \<Rightarrow> ('p, 'a) packet_world \<Rightarrow> ('p, 'a) packet_world result" where
  "UdpPacketServer_stop caller this w = UdpServer_stop caller this w"

section \<open>Sending\<close>

text \<open>The size is cast to \<^verbatim>\<open>u32\<close>: \<open>of_nat\<close> to a 32-bit word.\<close>

definition UdpPacketServer_send_packet_internal ::
  "steam_api \<Rightarrow> 'b owning_buffer_api \<Rightarrow> 'b internal_packet_t \<Rightarrow> bool \<Rightarrow> 'w env \<Rightarrow> bool \<times> 'w env" where
  "UdpPacketServer_send_packet_internal st ob p_packet p_reliable e =
     UdpServer_send st (pkt_conn p_packet) (ob_data ob (pkt_buffer p_packet))
       (of_nat (ob_size ob (pkt_buffer p_packet))) p_reliable e"

definition UdpPacketServer_broadcast_packet_internal ::
  "steam_api \<Rightarrow> 'b owning_buffer_api \<Rightarrow> nat \<Rightarrow> 'b internal_packet_t \<Rightarrow> bool \<Rightarrow> 'w server_world \<Rightarrow> bool \<times> 'w server_world" where
  "UdpPacketServer_broadcast_packet_internal st ob this p_packet p_reliable w =
     UdpServer_broadcast st this (ob_data ob (pkt_buffer p_packet))
       (of_nat (ob_size ob (pkt_buffer p_packet))) p_reliable w"

definition UdpPacketServer_send ::
  "steam_api \<Rightarrow> 'b owning_buffer_api \<Rightarrow> ('o, 'p, 'b) serializer \<Rightarrow> (nat \<Rightarrow> u8) \<Rightarrow> kb_connection_t \<Rightarrow>
   packet_type_t \<Rightarrow> 'o \<Rightarrow> bool \<Rightarrow> 'w env \<Rightarrow> (bool \<times> 'w env) result" where
  "UdpPacketServer_send st ob S junk p_conn p_packet_type p_obj p_reliable e =
     bind_result (serialize_packet S junk p_conn p_packet_type p_obj) (\<lambda>packet.
       Inr (UdpPacketServer_send_packet_internal st ob packet p_reliable e))"

definition UdpPacketServer_broadcast ::
  "steam_api \<Rightarrow> 'b owning_buffer_api \<Rightarrow> ('o, 'p, 'b) serializer \<Rightarrow> (nat \<Rightarrow> u8) \<Rightarrow> nat \<Rightarrow>
   packet_type_t \<Rightarrow> 'o \<Rightarrow> bool \<Rightarrow> 'w server_world \<Rightarrow> (bool \<times> 'w server_world) result" where
  "UdpPacketServer_broadcast st ob S junk this p_packet_type p_obj p_reliable w =
     bind_result (serialize_packet S junk k_invalid_connection p_packet_type p_obj) (\<lambda>packet.
       Inr (UdpPacketServer_broadcast_packet_internal st ob this packet p_reliable w))"

section \<open>The handler table\<close>

interpretation server_handlers: handler_registry
    "UdpPacketServer_bind_packet_handler this" "UdpPacketServer_unbind_packet_handler this"
    "\<lambda>e. ps_handlers (packet_servers (app e) this)"
  for this :: nat
  by unfold_locales
    (auto simp: UdpPacketServer_bind_packet_handler_def UdpPacketServer_unbind_packet_handler_def)

section \<open>What reaches a handler\<close>

lemma handle_payload_eq:
  assumes "p_len = length p_data" and "8 \<le> p_len"
  shows "UdpPacketServer_handle_payload S handler conn p_data p_len e =
    (case deserialize_packet S (drop 8 p_data) (length p_data - 8) of
       None \<Rightarrow> Inr (False, e)
     | Some payload \<Rightarrow> bind_result (call_server_handler handler conn payload e) (\<lambda>e. Inr (True, e)))"
  using assms by (simp add: UdpPacketServer_handle_payload_def Let_def)

text \<open>A packet with a header.\<close>

lemma handle_packet_wire:
  "UdpPacketServer_handle_packet S this client (header_wire s t @ bytes) (8 + length bytes) e =
    (if s \<noteq> traits_serde S then Inr (False, e)
     else case ps_handlers (packet_servers (app e) this) t of
            None \<Rightarrow> Inr (False, e)
          | Some handler \<Rightarrow>
              (case deserialize_packet S bytes (length bytes) of
                 None \<Rightarrow> Inr (False, e)
               | Some payload \<Rightarrow>
                   bind_result (call_server_handler handler (ci_conn client) payload e) (\<lambda>e. Inr (True, e))))"
  by (simp add: UdpPacketServer_handle_packet_def UdpPacketServer_dispatch_def handle_payload_eq
      split: option.split)

text \<open>Any other packet is dropped.\<close>

lemma handle_packet_other:
  assumes "\<And>s t bytes. p_data \<noteq> header_wire s t @ bytes"
  shows "UdpPacketServer_handle_packet S this client p_data (length p_data) e = Inr (False, e)"
proof -
  obtain r where r: "unpack_internal_packet_header p_data (length p_data) = Inr r"
    using unpack_eq [of "length p_data" p_data] by blast
  have "r = None" using unpack_SomeD(3) [of "length p_data" p_data] r assms by (cases r) auto
  with r show ?thesis by (simp add: UdpPacketServer_handle_packet_def)
qed

context packet_codec
begin

text \<open>A packet of the codec reaches the handler of its type with its object.\<close>

lemma handled:
  assumes "libs_ok" and "ps_handlers (packet_servers (app e) this) (wire_type t) = Some handler"
  obtains p where "payload_as S p = Some x"
    and "UdpPacketServer_handle_packet S this client (header_wire (traits_serde S) (wire_type t) @ body x) (8 + length (body x)) e =
      bind_result (call_server_handler handler (ci_conn client) p e) (\<lambda>e. Inr (True, e))"
proof -
  obtain p where "deserialize_packet S (body x) (length (body x)) = Some p" and "payload_as S p = Some x"
    by (rule decodeE [OF assms(1)])
  with assms(2) show thesis by (intro that [of p]) (simp_all add: handle_packet_wire)
qed

lemma unhandled:
  "ps_handlers (packet_servers (app e) this) (wire_type t) = None \<Longrightarrow>
   UdpPacketServer_handle_packet S this client (header_wire (traits_serde S) (wire_type t) @ body x) (8 + length (body x)) e =
     Inr (False, e)"
  by (simp add: handle_packet_wire)

text \<open>The bytes a send hands to Steam: all of them below 4 GiB, else a prefix.\<close>

lemma server_send:
  assumes "libs_ok" and "8 + length (body x) < 2 ^ 64"
  shows "UdpPacketServer_send st ob S junk c t x reliable e =
    Inr (UdpServer_send st c (header_wire (traits_serde S) (wire_type t) @ body x)
           (of_nat (8 + length (body x))) reliable e)"
  using assms buffers by (simp add: UdpPacketServer_send_def UdpPacketServer_send_packet_internal_def serialize)

lemma server_broadcast:
  assumes "libs_ok" and "8 + length (body x) < 2 ^ 64"
  shows "UdpPacketServer_broadcast st ob S junk this t x reliable w =
    Inr (UdpServer_broadcast st this (header_wire (traits_serde S) (wire_type t) @ body x)
           (of_nat (8 + length (body x))) reliable w)"
  using assms buffers
  by (simp add: UdpPacketServer_broadcast_def UdpPacketServer_broadcast_packet_internal_def serialize)

end

end
