(* ===== verification/Udp_Factories.thy ===== *)
theory Udp_Factories
  imports Packet_Server Async_Client
begin

text \<open>
  \<^verbatim>\<open>src/src/kb/net/udp/udp.hpp\<close>: the functions an application makes its packet servers and clients
  with, one per kind of object and serialization. Each makes object \<open>this\<close>.
\<close>

definition create_binary_server ::
  "'b owning_buffer_api \<Rightarrow> 'o pod_type \<Rightarrow> nat \<Rightarrow> (u8 list, 'a) packet_world \<Rightarrow> (u8 list, 'a) packet_world" where
  "create_binary_server ob T this w = UdpPacketServer_create (binary_serializer ob T) this w"

definition create_msgpack_server ::
  "'b owning_buffer_api \<Rightarrow> ('o, 'p) msgpack_api \<Rightarrow> nat \<Rightarrow> ('p, 'a) packet_world \<Rightarrow> ('p, 'a) packet_world" where
  "create_msgpack_server ob mp this w = UdpPacketServer_create (msgpack_serializer ob mp) this w"

definition create_binary_client ::
  "'b owning_buffer_api \<Rightarrow> 'o pod_type \<Rightarrow> nat \<Rightarrow> (u8 list, 'a) packet_client_world \<Rightarrow> (u8 list, 'a) packet_client_world" where
  "create_binary_client ob T this w = UdpPacketClient_create (binary_serializer ob T) this w"

definition create_msgpack_client ::
  "'b owning_buffer_api \<Rightarrow> ('o, 'p) msgpack_api \<Rightarrow> nat \<Rightarrow> ('p, 'a) packet_client_world \<Rightarrow> ('p, 'a) packet_client_world" where
  "create_msgpack_client ob mp this w = UdpPacketClient_create (msgpack_serializer ob mp) this w"

definition create_async_binary_client ::
  "'b owning_buffer_api \<Rightarrow> 'o pod_type \<Rightarrow> nat \<Rightarrow> (u8 list, nat \<Rightarrow> u8 list async_client) packet_client_world \<Rightarrow>
   (u8 list, nat \<Rightarrow> u8 list async_client) packet_client_world" where
  "create_async_binary_client ob T this w = AsyncUdpPacketClient_create (binary_serializer ob T) this w"

definition create_async_msgpack_client ::
  "'b owning_buffer_api \<Rightarrow> ('o, 'p) msgpack_api \<Rightarrow> nat \<Rightarrow> ('p, nat \<Rightarrow> 'p async_client) packet_client_world \<Rightarrow>
   ('p, nat \<Rightarrow> 'p async_client) packet_client_world" where
  "create_async_msgpack_client ob mp this w = AsyncUdpPacketClient_create (msgpack_serializer ob mp) this w"

section \<open>Waiting through a client\<close>

text \<open>The two halves of \<^verbatim>\<open>async_wait_for_packet\<close> on async client \<open>this\<close>, in the world its callback
  acts on: up to \<^verbatim>\<open>co_await event\<close>, with the event; and the object returned after it.\<close>

definition AsyncUdpPacketClient_wait_begin ::
  "nat \<Rightarrow> packet_type_t \<Rightarrow> ('p, nat \<Rightarrow> 'p async_client) packet_client_env \<Rightarrow>
   nat \<times> ('p, nat \<Rightarrow> 'p async_client) packet_client_env" where
  "AsyncUdpPacketClient_wait_begin this p_packet_type e =
     (case async_wait_begin p_packet_type (pc_user (app e) this) of
        (event, s) \<Rightarrow> (event, e\<lparr>app := (app e)\<lparr>pc_user := (pc_user (app e))(this := s)\<rparr>\<rparr>))"

definition AsyncUdpPacketClient_wait_end ::
  "('o, 'p, 'b) serializer \<Rightarrow> nat \<Rightarrow> packet_type_t \<Rightarrow> ('p, nat \<Rightarrow> 'p async_client) packet_client_env \<Rightarrow>
   'o option \<times> ('p, nat \<Rightarrow> 'p async_client) packet_client_env" where
  "AsyncUdpPacketClient_wait_end S this p_packet_type e =
     (case async_wait_end S p_packet_type (pc_user (app e) this) of
        (x, s) \<Rightarrow> (x, e\<lparr>app := (app e)\<lparr>pc_user := (pc_user (app e))(this := s)\<rparr>\<rparr>))"

end
