(* ===== verification/Server_System.thy ===== *)
theory Server_System
  imports Udp_Server_Correct
begin

text \<open>
  The servers of a process as a concurrent system: the application thread calls the member
  functions, and each server started with \<^verbatim>\<open>start_async\<close> has a network thread in
  \<^verbatim>\<open>UdpServer::network_loop\<close>. A step is one call of the application, one check of
  \<^verbatim>\<open>m_is_running\<close> or one \<^verbatim>\<open>poll\<close>; \<^verbatim>\<open>stop\<close> takes two steps, before and after the join, so that the
  polls the network thread still makes come in between.
\<close>

section \<open>States and steps\<close>

record 'w server_system =
  sys_world :: "'w server_world"
  sys_net :: "nat \<Rightarrow> net_pc"
  sys_app :: app_pc

definition server_system_init :: "'w \<Rightarrow> 'w server_system" where
  "server_system_init a =
     \<lparr>sys_world = \<lparr>servers = (\<lambda>_. udp_server_new), server_instance = None, senv = \<lparr>calls = [], app = a\<rparr>\<rparr>,
      sys_net = (\<lambda>_. Net_none), sys_app = App_idle\<rparr>"

definition net_loop_test :: "nat \<Rightarrow> 'w server_world \<Rightarrow> net_pc" where
  "net_loop_test this w = (if us_is_running (servers w this) then Net_poll else Net_exited)"

inductive server_step :: "steam_api \<Rightarrow> 'w server_system \<Rightarrow> 'w server_system \<Rightarrow> bool" for st where
  start_async:
    "sys_app s = App_idle \<Longrightarrow> UdpServer_start_async st i port (sys_world s) = Inr (ok, w) \<Longrightarrow>
     server_step st s (s\<lparr>sys_world := w, sys_net := (if ok then (sys_net s)(i := Net_check) else sys_net s)\<rparr>)"
| start_manual:
    "sys_app s = App_idle \<Longrightarrow> UdpServer_start_manual st i port (sys_world s) = (ok, w) \<Longrightarrow>
     server_step st s (s\<lparr>sys_world := w\<rparr>)"
| stop_not_running:
    "sys_app s = App_idle \<Longrightarrow> UdpServer_stop_begin i (sys_world s) = (False, w) \<Longrightarrow>
     server_step st s (s\<lparr>sys_world := w\<rparr>)"
| stop_manual:
    "sys_app s = App_idle \<Longrightarrow> UdpServer_stop_begin i (sys_world s) = (True, w) \<Longrightarrow>
     \<not> us_network_thread (servers w i) \<Longrightarrow>
     server_step st s (s\<lparr>sys_world := UdpServer_stop_finish i w\<rparr>)"
| stop_waits:
    "sys_app s = App_idle \<Longrightarrow> UdpServer_stop_begin i (sys_world s) = (True, w) \<Longrightarrow>
     us_network_thread (servers w i) \<Longrightarrow>
     server_step st s (s\<lparr>sys_world := w, sys_app := App_joining i\<rparr>)"
| stop_joined:
    "sys_app s = App_joining i \<Longrightarrow> sys_net s i = Net_exited \<Longrightarrow>
     server_step st s
       (s\<lparr>sys_world := UdpServer_stop_finish i (upd_server i (us_network_thread_update (\<lambda>_. False)) (sys_world s)),
          sys_net := (sys_net s)(i := Net_none), sys_app := App_idle\<rparr>)"
| loop_test:
    "sys_net s i = Net_check \<Longrightarrow>
     server_step st s (s\<lparr>sys_net := (sys_net s)(i := net_loop_test i (sys_world s))\<rparr>)"
| loop_poll:
    "sys_net s i = Net_poll \<Longrightarrow> UdpServer_poll st i (sys_world s) = Inr w \<Longrightarrow>
     server_step st s (s\<lparr>sys_world := w, sys_net := (sys_net s)(i := Net_check)\<rparr>)"
| manual_poll:
    "sys_app s = App_idle \<Longrightarrow> us_is_running (servers (sys_world s) i) \<Longrightarrow>
     UdpServer_poll st i (sys_world s) = Inr w \<Longrightarrow> server_step st s (s\<lparr>sys_world := w\<rparr>)"
| broadcast:
    "sys_app s = App_idle \<Longrightarrow> UdpServer_broadcast st i bytes sz reliable (sys_world s) = (ok, w) \<Longrightarrow>
     server_step st s (s\<lparr>sys_world := w\<rparr>)"
| send:
    "sys_app s = App_idle \<Longrightarrow> UdpServer_send st conn bytes sz reliable (senv (sys_world s)) = (ok, e) \<Longrightarrow>
     server_step st s (s\<lparr>sys_world := (sys_world s)\<lparr>senv := e\<rparr>\<rparr>)"
| disconnect:
    "sys_app s = App_idle \<Longrightarrow>
     server_step st s (s\<lparr>sys_world := UdpServer_disconnect i conn reason (sys_world s)\<rparr>)"
| set_on_data:
    "sys_app s = App_idle \<Longrightarrow> (\<And>g c d. f = Some g \<Longrightarrow> well_behaved (g c d)) \<Longrightarrow>
     server_step st s (s\<lparr>sys_world := UdpServer_set_on_data_callback i f (sys_world s)\<rparr>)"
| set_on_connected:
    "sys_app s = App_idle \<Longrightarrow> (\<And>f c. g = Some f \<Longrightarrow> well_behaved (f c)) \<Longrightarrow>
     server_step st s (s\<lparr>sys_world := UdpServer_set_on_client_connected_callback i g (sys_world s)\<rparr>)"
| set_on_disconnected:
    "sys_app s = App_idle \<Longrightarrow> (\<And>f c. g = Some f \<Longrightarrow> well_behaved (f c)) \<Longrightarrow>
     server_step st s (s\<lparr>sys_world := UdpServer_set_on_client_disconnected_callback i g (sys_world s)\<rparr>)"

inductive server_reachable :: "steam_api \<Rightarrow> 'w server_system \<Rightarrow> bool" for st where
  init: "server_reachable st (server_system_init a)"
| step: "server_reachable st s \<Longrightarrow> server_step st s t \<Longrightarrow> server_reachable st t"

section \<open>Invariants\<close>

text \<open>Every handle a server holds exists in Steam and belongs to that server alone; a running
  server holds both; the static pointer points to a running server or nowhere.\<close>

definition world_ok :: "'w server_world \<Rightarrow> bool" where
  "world_ok w \<longleftrightarrow>
     (\<forall>i. clients_ok (us_clients (servers w i)) \<and> callbacks_ok (servers w i)) \<and>
     handles_ok (live_poll_groups (server_history w)) (\<lambda>i. us_poll_group (servers w i)) \<and>
     handles_ok (live_sockets (server_history w)) (\<lambda>i. us_listen_socket (servers w i)) \<and>
     (\<forall>i. us_is_running (servers w i) \<longrightarrow>
        us_poll_group (servers w i) \<noteq> 0 \<and> us_listen_socket (servers w i) \<noteq> 0) \<and>
     (\<forall>i. server_instance w = Some i \<longrightarrow> us_is_running (servers w i))"

text \<open>A thread exists for each joinable member; it outlives \<^verbatim>\<open>m_is_running\<close> only while a \<^verbatim>\<open>stop\<close>
  waits for it, and that server still holds its poll group.\<close>

definition threads_ok :: "'w server_system \<Rightarrow> bool" where
  "threads_ok s \<longleftrightarrow>
     (\<forall>i. us_network_thread (servers (sys_world s) i) \<longleftrightarrow> sys_net s i \<noteq> Net_none) \<and>
     (\<forall>i. us_network_thread (servers (sys_world s) i) \<and> \<not> us_is_running (servers (sys_world s) i) \<longrightarrow>
        sys_app s = App_joining i) \<and>
     (\<forall>i. sys_net s i = Net_exited \<longrightarrow> \<not> us_is_running (servers (sys_world s) i)) \<and>
     (\<forall>i. sys_app s = App_joining i \<longrightarrow>
        us_network_thread (servers (sys_world s) i) \<and> \<not> us_is_running (servers (sys_world s) i) \<and>
        us_poll_group (servers (sys_world s) i) \<noteq> 0)"

lemma world_ok_frame:
  assumes "server_frame w w'" and "world_ok w"
  shows "world_ok w'"
proof -
  have "live_poll_groups (server_history w') = live_poll_groups (server_history w)"
    and "live_sockets (server_history w') = live_sockets (server_history w)"
    and "server_instance w' = server_instance w"
    using assms(1) by (simp_all add: server_frame_def server_history_def env_frame_live)
  moreover have "clients_ok (us_clients (servers w' i))" for i
    using assms unfolding world_ok_def server_frame_def by blast
  ultimately show ?thesis
    using assms(2) callbacks_ok_frame [OF assms(1)]
    by (simp add: world_ok_def server_frame_fields [OF assms(1)])
qed

lemma threads_ok_frame:
  assumes "server_frame (sys_world s) w"
  shows "threads_ok (s\<lparr>sys_world := w\<rparr>) \<longleftrightarrow> threads_ok s"
  by (simp add: threads_ok_def server_frame_fields [OF assms])

lemma world_ok_cong:
  assumes "world_ok w" and "server_history w' = server_history w"
    and "\<And>i. us_clients (servers w' i) = us_clients (servers w i)"
    and "\<And>i. callbacks_ok (servers w' i)"
    and "\<And>i. us_poll_group (servers w' i) = us_poll_group (servers w i)"
    and "\<And>i. us_listen_socket (servers w' i) = us_listen_socket (servers w i)"
    and "\<And>i. us_is_running (servers w' i) \<Longrightarrow> us_is_running (servers w i)"
    and "\<And>i. server_instance w' = Some i \<Longrightarrow> us_is_running (servers w' i)"
  shows "world_ok w'"
  using assms by (simp add: world_ok_def)

lemma world_okD:
  assumes "world_ok w"
  shows "clients_ok (us_clients (servers w i))" and "callbacks_ok (servers w i)"
    and "us_poll_group (servers w i) \<noteq> 0 \<Longrightarrow> us_poll_group (servers w i) \<in> live_poll_groups (server_history w)"
    and "us_is_running (servers w i) \<Longrightarrow> us_poll_group (servers w i) \<noteq> 0"
    and "server_instance w = Some i \<Longrightarrow> us_is_running (servers w i)"
  using assms by (auto simp: world_ok_def intro: handles_okD)

lemma world_ok_init: "world_ok (sys_world (server_system_init a))"
  by (simp add: world_ok_def server_system_init_def udp_server_new_def callbacks_ok_def handle_defs)

lemma threads_ok_init: "threads_ok (server_system_init a)"
  by (simp add: threads_ok_def server_system_init_def udp_server_new_def)

text \<open>One lemma per operation: the world invariant is kept.\<close>

lemma fun_upd_field: "(\<lambda>i. g ((f(x := a)) i)) = (\<lambda>i. g (f i))(x := g a)"
  by (simp add: fun_eq_iff)

lemma start_manual_world_ok:
  assumes "steam_ok st" and "world_ok w" and start: "UdpServer_start_manual st this port w = (ok, w')"
  shows "world_ok w'"
proof -
  define pgs where "pgs = (\<lambda>i. us_poll_group (servers w i))"
  define socks where "socks = (\<lambda>i. us_listen_socket (servers w i))"
  let ?h = "server_history w"
  have new_pg: "create_poll_group st h \<notin> live_poll_groups h" and new_sock: "create_listen_socket st h p \<notin> live_sockets h"
    for h p using assms(1) by (simp_all add: steam_ok_def poll_groups_ok_def sockets_ok_def)
  have base: "clients_ok (us_clients (servers w' i))" "callbacks_ok (servers w' i)" for i
    using assms(2) start_manual_fields [OF start] by (simp_all add: world_ok_def)
  have h: "handles_ok (live_poll_groups ?h) pgs" "handles_ok (live_sockets ?h) socks"
    and run: "\<And>i. us_is_running (servers w i) \<Longrightarrow> pgs i \<noteq> 0 \<and> socks i \<noteq> 0"
    and inst: "\<And>i. server_instance w = Some i \<Longrightarrow> us_is_running (servers w i)"
    using assms(2) by (simp_all add: world_ok_def pgs_def socks_def)
  have two: "live_poll_groups (?h @ [a, b]) = live_poll_group_step (live_poll_group_step (live_poll_groups ?h) a) b"
    "live_sockets (?h @ [a, b]) = live_socket_step (live_socket_step (live_sockets ?h) a) b" for a b
    using live_simps(2,4) [of "?h @ [a]" b] by simp_all
  from start show ?thesis
  proof (cases rule: start_manual_cases)
    case running
    with assms(2) show ?thesis by simp
  next
    case no_socket
    have "(\<lambda>i. us_poll_group (servers w' i)) = pgs" "(\<lambda>i. us_listen_socket (servers w' i)) = socks(this := 0)"
      using no_socket by (auto simp: pgs_def socks_def fun_eq_iff)
    moreover have "us_is_running (servers w' i) = us_is_running (servers w i)" for i
      using no_socket by simp
    ultimately show ?thesis
      using no_socket h run inst base handles_ok_zero [OF h(2)]
      by (auto simp: world_ok_def pgs_def socks_def)
  next
    case (no_group sock)
    have "(\<lambda>i. us_poll_group (servers w' i)) = pgs(this := 0)" "(\<lambda>i. us_listen_socket (servers w' i)) = socks(this := sock)"
      using no_group by (auto simp: pgs_def socks_def fun_eq_iff)
    moreover have "us_is_running (servers w' i) = us_is_running (servers w i)" for i
      using no_group by simp
    ultimately show ?thesis
      using no_group h run inst base handles_ok_zero [OF h(1)] handles_ok_new [OF h(2) new_sock]
      by (auto simp: world_ok_def pgs_def socks_def two)
  next
    case (started sock pg)
    have "(\<lambda>i. us_poll_group (servers w' i)) = pgs(this := pg)" "(\<lambda>i. us_listen_socket (servers w' i)) = socks(this := sock)"
      using started by (auto simp: pgs_def socks_def fun_eq_iff)
    moreover have "us_is_running (servers w' i) = (us_is_running (servers w i) \<or> i = this)" for i
      using started by simp
    moreover have "pg \<notin> live_poll_groups ?h"
      using new_pg [of "?h @ [CreateListenSocketIP port sock]"] started by simp
    ultimately show ?thesis
      using started h run inst base handles_ok_new [OF h(1)] handles_ok_new [OF h(2) new_sock]
      by (auto simp: world_ok_def pgs_def socks_def two)
  qed
qed

lemma stop_finish_world_ok:
  assumes "world_ok w" and "\<not> us_is_running (servers w this)"
  shows "world_ok (UdpServer_stop_finish this w)"
proof -
  have h: "handles_ok (live_poll_groups (server_history w)) (\<lambda>i. us_poll_group (servers w i))"
    "handles_ok (live_sockets (server_history w)) (\<lambda>i. us_listen_socket (servers w i))"
    using assms(1) by (simp_all add: world_ok_def)
  show ?thesis
    using assms handles_ok_release [OF h(1), of this] handles_ok_release [OF h(2), of this]
    unfolding world_ok_def by (simp add: live_stop_calls fun_upd_field del: fun_upd_apply) auto
qed

lemma upd_thread_world_ok:
  assumes "world_ok w"
  shows "world_ok (upd_server this (us_network_thread_update f) w)"
  using world_okD [OF assms] by (intro world_ok_cong [OF assms]) (auto split: if_splits)

lemma stop_begin_world_ok:
  assumes "world_ok w" and "UdpServer_stop_begin this w = (was, w')"
  shows "world_ok w'"
  using world_okD [OF assms(1)] assms(2)
  by (intro world_ok_cong [OF assms(1)]) (auto simp: stop_begin_eq split: if_splits)

lemma disconnect_frame: "server_frame w (UdpServer_disconnect this conn reason w)"
  unfolding UdpServer_disconnect_def Let_def
  by (rule server_frame_trans [OF server_frame_log server_frame_clients]) (auto intro: clients_ok_erase)

lemma send_frame: "UdpServer_send st conn bytes sz reliable e = (ok, e') \<Longrightarrow> env_frame e e'"
  by (auto simp: UdpServer_send_def Let_def)

lemma broadcast_frame:
  assumes "UdpServer_broadcast st this bytes sz reliable w = (ok, w')"
  shows "server_frame w w'"
proof -
  have "list_all neutral_call (map (send_call b reliable) cs)" for b cs
    by (simp add: list_all_iff send_call_def)
  then show ?thesis
    using assms by (auto simp: broadcast_eq Let_def server_history_def env_frame_def intro!: server_frame_env)
qed

definition system_ok :: "'w server_system \<Rightarrow> bool" where
  "system_ok s \<longleftrightarrow> world_ok (sys_world s) \<and> threads_ok s"

lemma system_ok_frame:
  "system_ok s \<Longrightarrow> server_frame (sys_world s) w \<Longrightarrow> system_ok (s\<lparr>sys_world := w\<rparr>)"
  using world_ok_frame threads_ok_frame by (fastforce simp: system_ok_def)

text \<open>Registering a well-behaved callback changes nothing else.\<close>

lemma set_callback_ok:
  assumes "system_ok s" and "callbacks_ok (f (servers (sys_world s) i))"
    and "\<And>x. us_clients (f x) = us_clients x" and "\<And>x. us_poll_group (f x) = us_poll_group x"
    and "\<And>x. us_listen_socket (f x) = us_listen_socket x" and "\<And>x. us_is_running (f x) = us_is_running x"
    and "\<And>x. us_network_thread (f x) = us_network_thread x"
  shows "system_ok (s\<lparr>sys_world := upd_server i f (sys_world s)\<rparr>)"
proof -
  have w: "world_ok (sys_world s)" and t: "threads_ok s" using assms(1) by (simp_all add: system_ok_def)
  have eq: "us_clients (((servers (sys_world s))(i := f (servers (sys_world s) i))) j) = us_clients (servers (sys_world s) j)"
    "us_poll_group (((servers (sys_world s))(i := f (servers (sys_world s) i))) j) = us_poll_group (servers (sys_world s) j)"
    "us_listen_socket (((servers (sys_world s))(i := f (servers (sys_world s) i))) j) = us_listen_socket (servers (sys_world s) j)"
    "us_is_running (((servers (sys_world s))(i := f (servers (sys_world s) i))) j) = us_is_running (servers (sys_world s) j)"
    "us_network_thread (((servers (sys_world s))(i := f (servers (sys_world s) i))) j) = us_network_thread (servers (sys_world s) j)"
    for j using assms(3-7) by simp_all
  have upd: "sys_world (s\<lparr>sys_world := w'\<rparr>) = w'" "sys_net (s\<lparr>sys_world := w'\<rparr>) = sys_net s"
    "sys_app (s\<lparr>sys_world := w'\<rparr>) = sys_app s" for w' by simp_all
  have "world_ok (upd_server i f (sys_world s))"
  proof (rule world_ok_cong [OF w])
    fix j
    show "callbacks_ok (servers (upd_server i f (sys_world s)) j)"
      using world_okD(2) [OF w, of j] assms(2) by (cases "j = i") simp_all
    show "us_is_running (servers (upd_server i f (sys_world s)) j)"
      if "server_instance (upd_server i f (sys_world s)) = Some j"
      using that world_okD(5) [OF w, of j] unfolding upd_server_simps eq by simp
    show "us_is_running (servers (sys_world s) j)" if "us_is_running (servers (upd_server i f (sys_world s)) j)"
      using that unfolding upd_server_simps eq .
  qed (simp_all only: upd_server_simps eq)
  moreover have "threads_ok (s\<lparr>sys_world := upd_server i f (sys_world s)\<rparr>) = threads_ok s"
    by (simp only: threads_ok_def upd upd_server_simps eq)
  ultimately show ?thesis using t by (simp add: system_ok_def)
qed

lemma poll_frame:
  assumes "steam_ok st" and "world_ok w" and "us_poll_group (servers w this) \<noteq> 0"
  obtains w' where "UdpServer_poll st this w = Inr w'" and "server_frame w w'"
  using assms poll_framed [of w st this] world_okD [OF assms(2)]
  by (auto simp: steam_ok_def elim: framedE)

lemma threads_okD:
  assumes "threads_ok s"
  shows "us_network_thread (servers (sys_world s) i) \<longleftrightarrow> sys_net s i \<noteq> Net_none"
    and "sys_net s i \<noteq> Net_none \<Longrightarrow> \<not> us_is_running (servers (sys_world s) i) \<Longrightarrow> sys_app s = App_joining i"
    and "sys_net s i = Net_exited \<Longrightarrow> \<not> us_is_running (servers (sys_world s) i)"
    and "sys_app s = App_joining i \<Longrightarrow> sys_net s i \<noteq> Net_none"
    and "sys_app s = App_joining i \<Longrightarrow> \<not> us_is_running (servers (sys_world s) i)"
    and "sys_app s = App_joining i \<Longrightarrow> us_poll_group (servers (sys_world s) i) \<noteq> 0"
  using assms unfolding threads_ok_def by blast+

lemma threads_okI:
  assumes "\<And>i. us_network_thread (servers (sys_world s) i) \<longleftrightarrow> sys_net s i \<noteq> Net_none"
    and "\<And>i. sys_net s i \<noteq> Net_none \<Longrightarrow> \<not> us_is_running (servers (sys_world s) i) \<Longrightarrow> sys_app s = App_joining i"
    and "\<And>i. sys_net s i = Net_exited \<Longrightarrow> \<not> us_is_running (servers (sys_world s) i)"
    and "\<And>i. sys_app s = App_joining i \<Longrightarrow> sys_net s i \<noteq> Net_none"
    and "\<And>i. sys_app s = App_joining i \<Longrightarrow> \<not> us_is_running (servers (sys_world s) i)"
    and "\<And>i. sys_app s = App_joining i \<Longrightarrow> us_poll_group (servers (sys_world s) i) \<noteq> 0"
  shows "threads_ok s"
  using assms unfolding threads_ok_def by blast

text \<open>While the application thread is idle, the threads are those of running servers.\<close>

lemma threads_ok_idle:
  assumes "sys_app s = App_idle"
  shows "threads_ok s \<longleftrightarrow>
    (\<forall>i. (us_network_thread (servers (sys_world s) i) \<longleftrightarrow> sys_net s i \<noteq> Net_none) \<and>
         (sys_net s i \<noteq> Net_none \<longrightarrow> us_is_running (servers (sys_world s) i)) \<and>
         (sys_net s i \<noteq> Net_exited))"
  using assms unfolding threads_ok_def by auto

text \<open>A thread in its loop belongs to a server that still has its poll group.\<close>

lemma net_poll_group:
  assumes "system_ok s" and "sys_net s i \<noteq> Net_none"
  shows "us_poll_group (servers (sys_world s) i) \<noteq> 0"
proof -
  have w: "world_ok (sys_world s)" and t: "threads_ok s"
    using assms(1) by (simp_all add: system_ok_def)
  show ?thesis
    using world_okD(4) [OF w] threads_okD(2,6) [OF t] assms(2) by blast
qed

lemma start_manual_step_ok:
  assumes "steam_ok st" and ok: "system_ok s" and idle: "sys_app s = App_idle"
    and m: "UdpServer_start_manual st i port (sys_world s) = (started, w)"
  shows "system_ok (s\<lparr>sys_world := w\<rparr>)"
proof -
  have "world_ok w" using start_manual_world_ok [OF assms(1) _ m] ok by (simp add: system_ok_def)
  moreover have "threads_ok (s\<lparr>sys_world := w\<rparr>)"
    using ok idle start_manual_fields(1,4) [OF m] by (simp add: system_ok_def threads_ok_idle)
  ultimately show ?thesis by (simp add: system_ok_def)
qed

text \<open>On an idle application thread, \<^verbatim>\<open>start_async\<close> never assigns to a joinable thread.\<close>

lemma start_async_returns:
  assumes "system_ok s" and "sys_app s = App_idle"
    and m: "UdpServer_start_manual st i port (sys_world s) = (started, w)"
  shows "UdpServer_start_async st i port (sys_world s) =
    Inr (started, if started then upd_server i (us_network_thread_update (\<lambda>_. True)) w else w)"
proof (cases started)
  case True
  with m have "\<not> us_is_running (servers (sys_world s) i)"
    by (cases rule: start_manual_cases) simp_all
  then have "\<not> us_network_thread (servers w i)"
    using assms start_manual_fields(1) [OF m] by (auto simp: system_ok_def threads_ok_idle)
  with True m show ?thesis by (simp add: UdpServer_start_async_def)
next
  case False
  with m show ?thesis by (simp add: UdpServer_start_async_def)
qed

lemma start_async_step_ok:
  assumes "steam_ok st" and ok: "system_ok s" and idle: "sys_app s = App_idle"
    and start: "UdpServer_start_async st i port (sys_world s) = Inr (started, w)"
  shows "system_ok (s\<lparr>sys_world := w, sys_net := (if started then (sys_net s)(i := Net_check) else sys_net s)\<rparr>)"
proof -
  obtain b w1 where m: "UdpServer_start_manual st i port (sys_world s) = (b, w1)" by fastforce
  have w: "started = b" "w = (if b then upd_server i (us_network_thread_update (\<lambda>_. True)) w1 else w1)"
    using start start_async_returns [OF ok idle m] by auto
  have s1: "system_ok (s\<lparr>sys_world := w1\<rparr>)"
    by (rule start_manual_step_ok [OF assms(1) ok idle m])
  then have "world_ok w" using upd_thread_world_ok [of w1] by (simp add: system_ok_def w)
  moreover have "threads_ok (s\<lparr>sys_world := w, sys_net := (if started then (sys_net s)(i := Net_check) else sys_net s)\<rparr>)"
    using s1 idle start_manual_fields(4) [OF m, of i] by (simp add: system_ok_def threads_ok_idle w)
  ultimately show ?thesis by (simp add: system_ok_def)
qed

lemma stop_begin_step_ok:
  assumes "system_ok s" and "sys_app s = App_idle"
    and b: "UdpServer_stop_begin i (sys_world s) = (was, w)"
  shows "us_network_thread (servers w i) \<Longrightarrow> system_ok (s\<lparr>sys_world := w, sys_app := App_joining i\<rparr>)"
    and "\<not> us_network_thread (servers w i) \<Longrightarrow> system_ok (s\<lparr>sys_world := w\<rparr>)"
proof -
  have w: "world_ok w"
    using stop_begin_world_ok assms by (auto simp: system_ok_def)
  have eq: "w = upd_server i (us_is_running_update (\<lambda>_. False)) ((sys_world s)\<lparr>server_instance := None\<rparr>)"
    using b by (simp add: stop_begin_eq)
  have idle: "\<And>j. us_network_thread (servers (sys_world s) j) \<longleftrightarrow> sys_net s j \<noteq> Net_none"
    "\<And>j. sys_net s j \<noteq> Net_none \<Longrightarrow> us_is_running (servers (sys_world s) j)" "\<And>j. sys_net s j \<noteq> Net_exited"
    using assms by (auto simp: system_ok_def threads_ok_idle)
  show "system_ok (s\<lparr>sys_world := w, sys_app := App_joining i\<rparr>)" if "us_network_thread (servers w i)"
  proof -
    have "us_poll_group (servers (sys_world s) i) \<noteq> 0"
      using that idle(1) [of i] net_poll_group [OF assms(1), of i] by (simp add: eq)
    moreover have "threads_ok (s\<lparr>sys_world := w, sys_app := App_joining i\<rparr>)"
      unfolding threads_ok_def using idle that calculation by (auto simp: eq)
    ultimately show ?thesis using w by (simp add: system_ok_def)
  qed
  show "system_ok (s\<lparr>sys_world := w\<rparr>)" if "\<not> us_network_thread (servers w i)"
    using w idle that assms(2) by (auto simp: system_ok_def threads_ok_idle eq)
qed

lemma stop_finish_idle_ok:
  assumes "world_ok w" and "\<not> us_is_running (servers w i)" and "sys_app s = App_idle"
    and "threads_ok (s\<lparr>sys_world := w\<rparr>)"
  shows "system_ok (s\<lparr>sys_world := UdpServer_stop_finish i w\<rparr>)"
proof -
  have "threads_ok (s\<lparr>sys_world := UdpServer_stop_finish i w\<rparr>)"
    using assms(3,4) by (simp add: threads_ok_idle)
  then show ?thesis using stop_finish_world_ok [OF assms(1,2)] by (simp add: system_ok_def)
qed

lemma stop_joined_step_ok:
  assumes "system_ok s" and "sys_app s = App_joining i"
  shows "system_ok
    (s\<lparr>sys_world := UdpServer_stop_finish i (upd_server i (us_network_thread_update (\<lambda>_. False)) (sys_world s)),
       sys_net := (sys_net s)(i := Net_none), sys_app := App_idle\<rparr>)"
proof -
  let ?w = "upd_server i (us_network_thread_update (\<lambda>_. False)) (sys_world s)"
  let ?s = "s\<lparr>sys_net := (sys_net s)(i := Net_none), sys_app := App_idle\<rparr>"
  have t: "threads_ok s" and w: "world_ok (sys_world s)" using assms(1) by (simp_all add: system_ok_def)
  have "sys_net s j = Net_none \<or> us_is_running (servers (sys_world s) j)" if "j \<noteq> i" for j
    using threads_okD(2) [OF t, of j] assms(2) that by auto
  moreover have "sys_net s j \<noteq> Net_exited" if "j \<noteq> i" for j
    using threads_okD(2,3) [OF t, of j] assms(2) that by auto
  ultimately have "threads_ok (?s\<lparr>sys_world := ?w\<rparr>)"
    using threads_okD(1) [OF t] by (auto simp: threads_ok_idle)
  moreover have "world_ok ?w" and "\<not> us_is_running (servers ?w i)"
    using upd_thread_world_ok [OF w] threads_okD(5) [OF t assms(2)] by simp_all
  ultimately have "system_ok (?s\<lparr>sys_world := UdpServer_stop_finish i ?w\<rparr>)"
    by (intro stop_finish_idle_ok) simp_all
  then show ?thesis by (cases s) simp
qed

lemma net_pc_step_ok:
  assumes "system_ok s" and "sys_net s i \<noteq> Net_none" and "pc \<noteq> Net_none"
    and "pc = Net_exited \<Longrightarrow> \<not> us_is_running (servers (sys_world s) i)"
  shows "system_ok (s\<lparr>sys_net := (sys_net s)(i := pc)\<rparr>)"
proof -
  let ?s = "s\<lparr>sys_net := (sys_net s)(i := pc)\<rparr>"
  have w: "world_ok (sys_world s)" and t: "threads_ok s"
    using assms(1) by (simp_all add: system_ok_def)
  have none: "sys_net ?s j = Net_none \<longleftrightarrow> sys_net s j = Net_none" for j
    using assms(2,3) by simp
  have "sys_net ?s j = Net_exited \<Longrightarrow> \<not> us_is_running (servers (sys_world s) j)" for j
    using assms(4) threads_okD(3) [OF t, of j] by (cases "j = i") simp_all
  moreover have "sys_world ?s = sys_world s" and "sys_app ?s = sys_app s"
    by simp_all
  ultimately have "threads_ok ?s"
    using t none unfolding threads_ok_def by metis
  with w show ?thesis by (simp add: system_ok_def)
qed

lemma server_step_ok:
  assumes "steam_ok st" and "server_step st s t" and ok: "system_ok s"
  shows "system_ok t"
  using assms(2)
proof cases
  case (start_async i port ok w)
  then show ?thesis using start_async_step_ok assms(1) assms(3) by blast
next
  case (start_manual i port ok w)
  then show ?thesis using start_manual_step_ok assms(1) assms(3) by blast
next
  case (stop_not_running i w)
  then have "\<not> us_network_thread (servers w i)"
    using ok by (auto simp: stop_begin_eq system_ok_def threads_ok_idle)
  then show ?thesis using stop_begin_step_ok(2) [OF ok] stop_not_running by blast
next
  case (stop_manual i w)
  have s1: "system_ok (s\<lparr>sys_world := w\<rparr>)"
    using stop_begin_step_ok(2) [OF ok] stop_manual by blast
  have "\<not> us_is_running (servers w i)" using stop_manual by (simp add: stop_begin_eq)
  with s1 show ?thesis
    unfolding stop_manual(1) by (intro stop_finish_idle_ok stop_manual(2)) (simp_all add: system_ok_def)
next
  case (stop_waits i w)
  then show ?thesis using stop_begin_step_ok(1) [OF ok] by blast
next
  case (stop_joined i)
  then show ?thesis using stop_joined_step_ok [OF ok] by blast
next
  case (loop_test i)
  then show ?thesis
    unfolding loop_test(1) by (intro net_pc_step_ok ok) (simp_all add: net_loop_test_def split: if_splits)
next
  case (loop_poll i w)
  obtain w' where "UdpServer_poll st i (sys_world s) = Inr w'" "server_frame (sys_world s) w'"
    by (rule poll_frame [OF assms(1)]) (use ok net_poll_group [OF ok, of i] loop_poll(2) in \<open>simp_all add: system_ok_def\<close>)
  with loop_poll have "system_ok (s\<lparr>sys_world := w\<rparr>)" using system_ok_frame [OF ok] by simp
  then show ?thesis using net_pc_step_ok [of "s\<lparr>sys_world := w\<rparr>" i Net_check] loop_poll by simp
next
  case (manual_poll i w)
  obtain w' where "UdpServer_poll st i (sys_world s) = Inr w'" "server_frame (sys_world s) w'"
    by (rule poll_frame [OF assms(1)])
      (use ok world_okD(4) [of "sys_world s" i] manual_poll(3) in \<open>simp_all add: system_ok_def\<close>)
  with manual_poll show ?thesis using system_ok_frame [OF ok] by simp
next
  case (broadcast i bytes sz reliable ok' w)
  then show ?thesis using system_ok_frame [OF ok] broadcast_frame by blast
next
  case (send conn bytes sz reliable ok' e)
  then show ?thesis using system_ok_frame [OF ok] server_frame_env send_frame by blast
next
  case (disconnect i conn reason)
  then show ?thesis using system_ok_frame [OF ok] disconnect_frame by blast
next
  case (set_on_data f i)
  have "callbacks_ok (us_on_data_update (\<lambda>_. f) (servers (sys_world s) i))"
    using ok set_on_data(3) world_okD(2) [of "sys_world s" i] by (auto simp: system_ok_def callbacks_ok_def)
  with ok show ?thesis
    unfolding set_on_data(1) UdpServer_set_on_data_callback_def by (intro set_callback_ok) simp_all
next
  case (set_on_connected f i)
  have "callbacks_ok (us_on_connected_update (\<lambda>_. f) (servers (sys_world s) i))"
    using ok set_on_connected(3) world_okD(2) [of "sys_world s" i] by (auto simp: system_ok_def callbacks_ok_def)
  with ok show ?thesis
    unfolding set_on_connected(1) UdpServer_set_on_client_connected_callback_def by (intro set_callback_ok) simp_all
next
  case (set_on_disconnected f i)
  have "callbacks_ok (us_on_disconnected_update (\<lambda>_. f) (servers (sys_world s) i))"
    using ok set_on_disconnected(3) world_okD(2) [of "sys_world s" i] by (auto simp: system_ok_def callbacks_ok_def)
  with ok show ?thesis
    unfolding set_on_disconnected(1) UdpServer_set_on_client_disconnected_callback_def by (intro set_callback_ok) simp_all
qed

lemma reachable_system_ok:
  assumes "steam_ok st" and "server_reachable st s"
  shows "system_ok s"
  using assms(2)
proof induction
  case (init a)
  show ?case by (simp add: system_ok_def world_ok_init threads_ok_init)
next
  case (step s t)
  then show ?case using server_step_ok [OF assms(1)] by blast
qed

end
