(* ===== verification/Server_Properties.thy ===== *)
theory Server_Properties
  imports Server_System Sample_Steam
begin

text \<open>
  The properties of \<^verbatim>\<open>UdpServer\<close>: the safety of its threads in every reachable state, the contracts
  of start, stop, poll, broadcast and of each connection event, and the executions in which the
  code does not do what its comments and names promise.
\<close>

section \<open>A concrete server\<close>

definition sample_client :: "kb_connection_t \<Rightarrow> client_info_t" where
  "sample_client c = \<lparr>ci_conn = c, ci_addr = ip_address_zero\<rparr>"

text \<open>The application of the examples counts the bytes and connections it is told of.\<close>

definition count_data :: "client_info_t \<Rightarrow> u8 list \<Rightarrow> nat env \<Rightarrow> nat env" where
  "count_data c d e = e\<lparr>app := app e + length d\<rparr>"

definition count_client :: "client_info_t \<Rightarrow> nat env \<Rightarrow> nat env result" where
  "count_client c e = Inr (e\<lparr>app := app e + 1\<rparr>)"

definition sample_server :: "nat udp_server" where
  "sample_server = udp_server_new
     \<lparr>us_is_running := True, us_port := 27015, us_on_data := Some (\<lambda>c d e. Inr (count_data c d e)),
      us_on_connected := Some count_client, us_on_disconnected := Some count_client,
      us_clients := [(5, sample_client 5), (7, sample_client 7)],
      us_listen_socket := 1, us_poll_group := 1\<rparr>"

definition sample_world :: "nat server_world" where
  "sample_world =
     \<lparr>servers = (\<lambda>_. udp_server_new)(0 := sample_server), server_instance = Some 0,
      senv = \<lparr>calls = [CreateListenSocketIP 27015 1, CreatePollGroup 1], app = 0\<rparr>\<rparr>"

definition idle_world :: "nat server_world" where
  "idle_world = sys_world (server_system_init 0)"

lemma sample_history:
  "server_history sample_world = [CreateListenSocketIP 27015 1, CreatePollGroup 1]"
  "live_poll_groups [CreateListenSocketIP 27015 1, CreatePollGroup 1] = {1}"
  "live_sockets [CreateListenSocketIP 27015 1, CreatePollGroup 1] = {1}"
  by (simp_all add: sample_world_def server_history_def live_poll_groups_def live_sockets_def)

lemma sample_servers:
  "servers sample_world 0 = sample_server"
  "i \<noteq> 0 \<Longrightarrow> servers sample_world i = udp_server_new"
  "server_instance sample_world = Some 0"
  "servers idle_world i = udp_server_new"
  "server_history idle_world = []"
  "server_instance idle_world = None"
  by (simp_all add: sample_world_def idle_world_def server_system_init_def server_history_def)

lemma sample_fields:
  "us_poll_group (servers sample_world 0) = 1"
  "us_clients (servers sample_world 0) = [(5, sample_client 5), (7, sample_client 7)]"
  "us_on_connected (servers sample_world 0) = Some count_client"
  "us_on_data (servers sample_world 0) = Some (\<lambda>c d e. Inr (count_data c d e))"
  "app (senv sample_world) = 0"
  by (simp_all add: sample_servers sample_server_def udp_server_new_def) (simp add: sample_world_def)

lemma sample_clients_ok: "clients_ok (us_clients (servers sample_world 0))"
  by (simp add: sample_fields clients_ok_def map_ok_def sample_client_def ip_address_zero_ok)

lemma all_less_two: "(\<forall>k < Suc (Suc 0). P k) \<longleftrightarrow> P 0 \<and> P (Suc 0)"
  by (auto simp: less_Suc_eq)

lemma sample_callbacks_ok: "callbacks_ok sample_server"
  by (simp add: callbacks_ok_def sample_server_def udp_server_new_def well_behaved_def
      count_data_def count_client_def env_frame_def)

text \<open>A reachable system with a server started on the network thread.\<close>

definition started_world :: "nat server_world" where
  "started_world =
     \<lparr>servers = (\<lambda>_. udp_server_new)
        (0 := udp_server_new\<lparr>us_network_thread := True, us_is_running := True, us_port := 27015,
           us_listen_socket := 1, us_poll_group := 1\<rparr>),
      server_instance = Some 0,
      senv = \<lparr>calls = [CreateListenSocketIP 27015 1, CreatePollGroup 1], app = 0\<rparr>\<rparr>"

definition started_system :: "nat server_system" where
  "started_system =
     \<lparr>sys_world = started_world, sys_net = (\<lambda>_. Net_none)(0 := Net_check), sys_app = App_idle\<rparr>"

lemma start_idle_world:
  "UdpServer_start_async (sample_steam ms evs) 0 27015 (sys_world (server_system_init 0)) = Inr (True, started_world)"
  by (simp add: UdpServer_start_async_def UdpServer_start_manual_def Let_def server_system_init_def
      started_world_def udp_server_new_def sample_steam_def handle_defs server_history_def upd_server_def
      server_log_def log_call_def live_poll_groups_def live_sockets_def)

lemma started_reachable: "server_reachable (sample_steam ms evs) started_system"
proof -
  have idle: "sys_app (server_system_init (0 :: nat)) = App_idle" by (simp add: server_system_init_def)
  show ?thesis
    using server_reachable.step [OF server_reachable.init server_step.start_async [OF idle start_idle_world]]
    by (simp add: started_system_def server_system_init_def)
qed

text \<open>The same server while a \<^verbatim>\<open>stop\<close> waits for its network thread.\<close>

definition stopping_system :: "nat server_system" where
  "stopping_system = started_system
     \<lparr>sys_world := upd_server 0 (us_is_running_update (\<lambda>_. False)) (started_world\<lparr>server_instance := None\<rparr>),
      sys_app := App_joining 0\<rparr>"

lemma stopping_reachable: "server_reachable (sample_steam ms evs) stopping_system"
  unfolding stopping_system_def
  by (rule server_reachable.step [OF started_reachable server_step.stop_waits])
    (simp_all add: stop_begin_eq started_system_def started_world_def)

section \<open>Threads: safety and liveness\<close>

text \<open>
  C1: With each poll as one step, in every state the process can reach: a running server, and one whose network thread
  has not been joined, holds a poll group. A poll of a server that holds one returns and reads no array slot
  Steam did not fill; a poll of a server that holds none, which only a manual poll of a server
  that does not run can be, always reads such a slot. \<^verbatim>\<open>start_async\<close> on an idle application thread never
  hits \<^verbatim>\<open>std::terminate\<close>.
\<close>

theorem server_threads_safe:
  assumes "steam_ok st" and "server_reachable st s"
  shows "(us_is_running (servers (sys_world s) i) \<or> sys_net s i \<noteq> Net_none \<longrightarrow> us_poll_group (servers (sys_world s) i) \<noteq> 0) \<and>
         (if us_poll_group (servers (sys_world s) i) = 0 then UdpServer_poll st i (sys_world s) = Inl Uninitialised_read
          else \<exists>w. UdpServer_poll st i (sys_world s) = Inr w) \<and>
         (sys_app s = App_idle \<longrightarrow> (\<exists>r. UdpServer_start_async st i port (sys_world s) = Inr r))"
proof -
  have ok: "system_ok s" by (rule reachable_system_ok [OF assms])
  then have w: "world_ok (sys_world s)" by (simp add: system_ok_def)
  have "us_poll_group (servers (sys_world s) i) \<noteq> 0"
    if "us_is_running (servers (sys_world s) i) \<or> sys_net s i \<noteq> Net_none"
    using that world_okD(4) [OF w] net_poll_group [OF ok] by blast
  moreover have "UdpServer_poll st i (sys_world s) = Inl Uninitialised_read"
    if "us_poll_group (servers (sys_world s) i) = 0"
    using assms(1) that by (intro poll_dead_group) (simp_all add: steam_ok_def)
  moreover have "\<exists>w. UdpServer_poll st i (sys_world s) = Inr w" if "us_poll_group (servers (sys_world s) i) \<noteq> 0"
    using poll_frame [OF assms(1) w that] by blast
  moreover have "\<exists>r. UdpServer_start_async st i port (sys_world s) = Inr r" if "sys_app s = App_idle"
    using start_async_returns [OF ok that] by (metis surj_pair)
  ultimately show ?thesis by simp
qed

theorem server_threads_safe_witness:
  "(\<exists>w. UdpServer_poll (sample_steam [] []) 0 (sys_world stopping_system) = Inr w) \<and>
   UdpServer_poll (sample_steam [] []) 0 (sys_world (server_system_init (0 :: nat))) = Inl Uninitialised_read \<and>
   (\<exists>r. UdpServer_start_async (sample_steam [] []) 0 80 (sys_world started_system) = Inr r)"
proof (intro conjI)
  have "sys_net stopping_system 0 \<noteq> Net_none" by (simp add: stopping_system_def started_system_def)
  then show "\<exists>w. UdpServer_poll (sample_steam [] []) 0 (sys_world stopping_system) = Inr w"
    using server_threads_safe [OF sample_steam_ok [of "[]" "[]"] stopping_reachable, where i = 0 and port = 80]
    by (metis (lifting))
  have "us_poll_group (servers (sys_world (server_system_init (0 :: nat))) 0) = 0"
    by (simp add: server_system_init_def udp_server_new_def handle_defs)
  then show "UdpServer_poll (sample_steam [] []) 0 (sys_world (server_system_init (0 :: nat))) = Inl Uninitialised_read"
    using server_threads_safe [OF sample_steam_ok [of "[]" "[]"] server_reachable.init [of _ "0 :: nat"], where i = 0 and port = 80]
    by presburger
  have "sys_app started_system = App_idle" by (simp add: started_system_def)
  then show "\<exists>r. UdpServer_start_async (sample_steam [] []) 0 80 (sys_world started_system) = Inr r"
    using server_threads_safe [OF sample_steam_ok [of "[]" "[]"] started_reachable, where i = 0 and port = 80] by blast
qed

text \<open>
  C9: In every reachable state the handles are sound: a server's poll group and listen socket are
  live in Steam and shared with no other server, a running server holds both, the static pointer
  names a running server or none, and every client table is ordered by connection, with each entry
  under its own connection.
\<close>

theorem server_handles_sound:
  assumes "steam_ok st" and "server_reachable st s"
  shows "let w = sys_world s in
         (\<forall>i. us_poll_group (servers w i) \<noteq> 0 \<longrightarrow>
            us_poll_group (servers w i) \<in> live_poll_groups (server_history w) \<and>
            (\<forall>j. j \<noteq> i \<longrightarrow> us_poll_group (servers w j) \<noteq> us_poll_group (servers w i))) \<and>
         (\<forall>i. us_listen_socket (servers w i) \<noteq> 0 \<longrightarrow>
            us_listen_socket (servers w i) \<in> live_sockets (server_history w) \<and>
            (\<forall>j. j \<noteq> i \<longrightarrow> us_listen_socket (servers w j) \<noteq> us_listen_socket (servers w i))) \<and>
         (\<forall>i. us_is_running (servers w i) \<longrightarrow>
            us_poll_group (servers w i) \<noteq> 0 \<and> us_listen_socket (servers w i) \<noteq> 0) \<and>
         (\<forall>i. server_instance w = Some i \<longrightarrow> us_is_running (servers w i)) \<and>
         (\<forall>i. sorted_wrt (<) (map_keys (us_clients (servers w i)))) \<and>
         (\<forall>i c ci. UdpServer_get_client_info i c w = Some ci \<longrightarrow>
            ci_conn ci = c \<and> length (ip_union (ci_addr ci)) = 16)"
proof -
  have "world_ok (sys_world s)"
    using reachable_system_ok [OF assms] by (simp add: system_ok_def)
  then show ?thesis
    unfolding Let_def world_ok_def handles_ok_def clients_ok_def map_ok_def UdpServer_get_client_info_def
      ip_address_ok_def sizeof_ipv6_def by blast
qed

theorem server_handles_sound_witness:
  "us_poll_group (servers (sys_world started_system) 0)
     \<in> live_poll_groups (server_history (sys_world started_system)) \<and>
   us_listen_socket (servers (sys_world started_system) 0)
     \<in> live_sockets (server_history (sys_world started_system))"
proof -
  have "us_poll_group (servers (sys_world started_system) 0) \<noteq> 0"
    and "us_listen_socket (servers (sys_world started_system) 0) \<noteq> 0"
    by (simp_all add: started_system_def started_world_def)
  then show ?thesis
    using server_handles_sound [OF sample_steam_ok [of "[]" "[]"] started_reachable]
    unfolding Let_def by blast
qed

text \<open>How far the network thread is from its return, once the loop test has failed.\<close>

definition stop_rank :: "nat \<Rightarrow> 'w server_system \<Rightarrow> nat" where
  "stop_rank i s = (case sys_net s i of Net_poll \<Rightarrow> 2 | Net_check \<Rightarrow> 1 | _ \<Rightarrow> 0)"

lemma joining_progress:
  assumes "steam_ok st" and ok: "system_ok s" and join: "sys_app s = App_joining i"
  shows "\<exists>t. server_step st s t \<and>
    (sys_app t = App_idle \<and> us_poll_group (servers (sys_world t) i) = 0 \<and> us_clients (servers (sys_world t) i) = [] \<or>
     sys_app t = App_joining i \<and> stop_rank i t < stop_rank i s)"
proof -
  have w: "world_ok (sys_world s)" and t: "threads_ok s" using ok by (simp_all add: system_ok_def)
  have "sys_net s i \<noteq> Net_none" by (rule threads_okD(4) [OF t join])
  then consider "sys_net s i = Net_poll" | "sys_net s i = Net_check" | "sys_net s i = Net_exited"
    by (cases "sys_net s i") simp_all
  then show ?thesis
  proof cases
    case 1
    obtain w' where "UdpServer_poll st i (sys_world s) = Inr w'"
      by (rule poll_frame [OF assms(1) w threads_okD(6) [OF t join]])
    with 1 have "server_step st s (s\<lparr>sys_world := w', sys_net := (sys_net s)(i := Net_check)\<rparr>)"
      by (rule server_step.loop_poll)
    then show ?thesis
      by - (rule exI, rule conjI, assumption, simp add: stop_rank_def 1 join)
  next
    case 2
    have "net_loop_test i (sys_world s) = Net_exited"
      using threads_okD(5) [OF t join] by (simp add: net_loop_test_def)
    with server_step.loop_test [OF 2, of st]
    have "server_step st s (s\<lparr>sys_net := (sys_net s)(i := Net_exited)\<rparr>)" by simp
    then show ?thesis
      by - (rule exI, rule conjI, assumption, simp add: stop_rank_def 2 join)
  next
    case 3
    show ?thesis
      by (rule exI, rule conjI, rule server_step.stop_joined [OF join 3]) simp
  qed
qed

text \<open>What a \<^verbatim>\<open>stop\<close> leaves behind.\<close>

definition stop_done :: "nat \<Rightarrow> 'w server_system \<Rightarrow> bool" where
  "stop_done i t \<longleftrightarrow>
     sys_app t = App_idle \<and> \<not> us_is_running (servers (sys_world t) i) \<and>
     us_poll_group (servers (sys_world t) i) = 0 \<and> us_listen_socket (servers (sys_world t) i) = 0 \<and>
     us_clients (servers (sys_world t) i) = [] \<and> \<not> us_network_thread (servers (sys_world t) i)"



lemma joining_step:
  assumes "server_step st s t" and "sys_app s = App_joining i" and "system_ok s"
  shows "stop_done i t \<or> sys_app t = App_joining i \<and> stop_rank i t \<le> stop_rank i s"
proof -
  have idle: "sys_app s \<noteq> App_idle" using assms(2) by simp
  have run: "\<not> us_is_running (servers (sys_world s) i)"
    using assms(2,3) threads_okD(5) [of s i] by (simp add: system_ok_def)
  from assms(1) show ?thesis
  proof cases
    case (stop_joined j)
    with assms(2) have "j = i" by simp
    with stop_joined run show ?thesis by (simp add: stop_done_def)
  next
    case (loop_test j)
    then show ?thesis
      using assms(2) run by (cases "j = i") (simp_all add: stop_rank_def net_loop_test_def)
  next
    case (loop_poll j w)
    then show ?thesis
      using assms(2) by (cases "j = i") (simp_all add: stop_rank_def)
  qed (use idle in simp_all)
qed

lemma joining_completes:
  assumes "steam_ok st"
  shows "system_ok s \<Longrightarrow> sys_app s = App_joining i \<Longrightarrow> \<exists>t. (server_step st)\<^sup>*\<^sup>* s t \<and> stop_done i t"
proof (induction "stop_rank i s" arbitrary: s rule: less_induct)
  case less
  obtain t where t: "server_step st s t"
    "sys_app t = App_idle \<or> sys_app t = App_joining i \<and> stop_rank i t < stop_rank i s"
    using joining_progress [OF assms less.prems] by blast
  show ?case
  proof (cases "stop_done i t")
    case True
    with t(1) show ?thesis by blast
  next
    case False
    then have "sys_app t = App_joining i"
      using joining_step [OF t(1) less.prems(2,1)] by simp
    moreover from this have "stop_rank i t < stop_rank i s" using t(2) by simp
    ultimately obtain u where "(server_step st)\<^sup>*\<^sup>* t u" and "stop_done i u"
      using less.hyps server_step_ok [OF assms t(1) less.prems(1)] by blast
    with t(1) show ?thesis by (blast intro: converse_rtranclp_into_rtranclp)
  qed
qed

text \<open>
  C10: With each poll as one step, \<^verbatim>\<open>stop\<close> terminates. While it waits for the network thread, some step is always enabled that
  brings the thread closer to its return or finishes the stop; no step of any thread moves it
  further away; and the stop can be completed, leaving the server without thread, handles and
  clients.
\<close>

theorem server_stop_terminates:
  assumes "steam_ok st" and "server_reachable st s" and "sys_app s = App_joining i"
  shows "(\<exists>t. server_step st s t \<and> (stop_done i t \<or> stop_rank i t < stop_rank i s)) \<and>
         (\<forall>t. server_step st s t \<longrightarrow>
            stop_done i t \<or> sys_app t = App_joining i \<and> stop_rank i t \<le> stop_rank i s) \<and>
         (\<exists>t. (server_step st)\<^sup>*\<^sup>* s t \<and> stop_done i t)"
proof (intro conjI allI impI)
  note ok = reachable_system_ok [OF assms(1,2)]
  obtain t where t: "server_step st s t"
    "sys_app t = App_idle \<or> sys_app t = App_joining i \<and> stop_rank i t < stop_rank i s"
    using joining_progress [OF assms(1) ok assms(3)] by blast
  then show "\<exists>t. server_step st s t \<and> (stop_done i t \<or> stop_rank i t < stop_rank i s)"
    using joining_step [OF t(1) assms(3) ok] by auto
  show "stop_done i t \<or> sys_app t = App_joining i \<and> stop_rank i t \<le> stop_rank i s" if "server_step st s t" for t
    using joining_step [OF that assms(3) ok] .
  show "\<exists>t. (server_step st)\<^sup>*\<^sup>* s t \<and> stop_done i t"
    by (rule joining_completes [OF assms(1) ok assms(3)])
qed

theorem server_stop_terminates_witness:
  "\<exists>t. (server_step (sample_steam [] []))\<^sup>*\<^sup>* stopping_system t \<and> stop_done 0 t"
  using server_stop_terminates [OF sample_steam_ok stopping_reachable, of 0]
  by (simp add: stopping_system_def)

section \<open>Start and stop\<close>

text \<open>
  C26: \<^verbatim>\<open>start_manual\<close> on a stopped server: it succeeds exactly when Steam yields a listen socket and
  then a poll group; on success the server runs, holds the port and both handles and receives the
  process's connection events; on failure it stays stopped and the static pointer is unchanged.
  It makes one call, or two, and touches no other server.
\<close>

theorem server_start_contract:
  assumes "\<not> us_is_running (servers w i)" and "UdpServer_start_manual st i port w = (ok, w')"
  shows "let sock = create_listen_socket st (server_history w) port;
             pg = create_poll_group st (server_history w @ [CreateListenSocketIP port sock]) in
         (ok \<longleftrightarrow> sock \<noteq> 0 \<and> pg \<noteq> 0) \<and>
         UdpServer_is_running i w' = ok \<and>
         server_instance w' = (if ok then Some i else server_instance w) \<and>
         us_listen_socket (servers w' i) = sock \<and>
         (ok \<longrightarrow> UdpServer_port i w' = port \<and> us_poll_group (servers w' i) = pg) \<and>
         server_history w' = server_history w @
           CreateListenSocketIP port sock # (if sock = 0 then [] else [CreatePollGroup pg]) \<and>
         (\<forall>j. j \<noteq> i \<longrightarrow> servers w' j = servers w j)"
  using assms(2) assms(1)
  by (cases rule: start_manual_cases) (auto simp: UdpServer_is_running_def UdpServer_port_def)

theorem server_start_contract_witness:
  "\<exists>w'. UdpServer_start_manual (sample_steam [] []) 0 80 idle_world = (True, w') \<and>
     UdpServer_port 0 w' = 80 \<and> server_instance w' = Some 0"
proof -
  obtain ok w' where start: "UdpServer_start_manual (sample_steam [] []) 0 80 idle_world = (ok, w')" by fastforce
  have "\<not> us_is_running (servers idle_world 0)" by (simp add: sample_servers udp_server_new_def)
  from server_start_contract [OF this start] show ?thesis
    by (intro exI [of _ w']) (simp add: start Let_def sample_servers sample_steam_simps live_poll_groups_def live_sockets_def)
qed

text \<open>
  A start that gets a listen socket but no poll group leaks the socket: the start reports
  failure, and a following \<^verbatim>\<open>stop\<close> returns early, because the server never ran, so the socket
  stays open in Steam.
\<close>

lemma server_start_leaks_socket:
  assumes "\<not> us_is_running (servers w i)"
    and "create_listen_socket st (server_history w) port \<noteq> 0"
    and "\<And>h. create_poll_group st h = 0"
    and "UdpServer_start_manual st i port w = (ok, w')"
  shows "\<not> ok \<and> (\<exists>w''. UdpServer_stop App_thread i w' = Inr w'' \<and>
    create_listen_socket st (server_history w) port \<in> live_sockets (server_history w''))"
  using assms(4)
proof (cases rule: start_manual_cases)
  case (no_group sock)
  have "live_sockets (server_history w') = insert sock (live_sockets (server_history w))"
    using no_group(4,7) live_simps(4) [of "server_history w @ [CreateListenSocketIP port sock]" "CreatePollGroup 0"]
    by simp
  with no_group show ?thesis by (simp add: UdpServer_stop_def UdpServer_stop_begin_def)
qed (use assms in simp_all)

lemma server_start_leaks_socket_witness:
  "\<exists>w''. UdpServer_stop App_thread 0
      (snd (UdpServer_start_manual ((sample_steam [] [])\<lparr>create_poll_group := \<lambda>h. 0\<rparr>) 0 80 idle_world)) = Inr w'' \<and>
    1 \<in> live_sockets (server_history w'')"
proof -
  let ?st = "(sample_steam [] [])\<lparr>create_poll_group := \<lambda>h. 0\<rparr>"
  obtain ok w' where start: "UdpServer_start_manual ?st 0 80 idle_world = (ok, w')" by fastforce
  have "\<not> us_is_running (servers idle_world 0)" and "create_listen_socket ?st (server_history idle_world) 80 = 1"
    by (simp_all add: sample_servers udp_server_new_def sample_steam_simps)
  with server_start_leaks_socket [OF _ _ _ start] show ?thesis by (simp add: start)
qed

text \<open>
  C27: \<^verbatim>\<open>stop\<close> of a running server, called on another thread: it joins the network thread, closes
  every client in ascending order, then the listen socket, then the poll group, each exactly once;
  all handles and clients are gone, the port and the callbacks are kept, no other server object
  changes, and a second \<^verbatim>\<open>stop\<close> does nothing.
\<close>

theorem server_stop_contract:
  assumes "us_is_running (servers w i)" and "us_listen_socket (servers w i) \<noteq> 0"
    and "us_poll_group (servers w i) \<noteq> 0" and "caller \<noteq> Network_thread i"
  shows "\<exists>w'. UdpServer_stop caller i w = Inr w' \<and>
    servers w' = (servers w)(i := (servers w i)
      \<lparr>us_network_thread := False, us_is_running := False, us_clients := [],
       us_listen_socket := 0, us_poll_group := 0\<rparr>) \<and>
    server_history w' = server_history w @
      map (\<lambda>c. CloseConnection c 0 (Some ''UdpServer shutting down'') True) (map_keys (us_clients (servers w i))) @
      [CloseListenSocket (us_listen_socket (servers w i)), DestroyPollGroup (us_poll_group (servers w i))] \<and>
    server_instance w' = None \<and> app (senv w') = app (senv w) \<and>
    UdpServer_stop caller i w' = Inr w'"
  using assms
  by (cases "us_network_thread (servers w i)")
    (simp_all add: UdpServer_stop_def UdpServer_stop_begin_def stopped_def stop_calls_def upd_server_def fun_eq_iff)

theorem server_stop_contract_witness:
  "\<exists>w'. UdpServer_stop App_thread 0 sample_world = Inr w' \<and> server_instance w' = None \<and>
    server_history w' = [CreateListenSocketIP 27015 1, CreatePollGroup 1,
      CloseConnection 5 0 (Some ''UdpServer shutting down'') True,
      CloseConnection 7 0 (Some ''UdpServer shutting down'') True,
      CloseListenSocket 1, DestroyPollGroup 1]"
  using server_stop_contract [of sample_world 0 App_thread]
  by (auto simp: sample_servers sample_history sample_server_def udp_server_new_def)

text \<open>
  The static instance pointer is shared by all servers: \<^verbatim>\<open>stop\<close>, and so the destructor, of any
  server object, even one that never ran, makes every later connection event of the process
  vanish, although another server is still running.
\<close>

lemma server_stop_drops_events:
  assumes "\<not> us_is_running (servers w j)" and "UdpServer_stop caller j w = Inr w'"
  shows "server_dispatch st evs w' = Inr w' \<and>
    (\<forall>i. UdpServer_is_running i w' = UdpServer_is_running i w)"
proof -
  have w': "server_instance w' = None" "servers w' = (servers w)(j := (servers w j)\<lparr>us_is_running := False\<rparr>)"
    using assms by (auto simp: UdpServer_stop_def UdpServer_stop_begin_def)
  have "server_dispatch st evs w' = Inr w'"
    using w'(1) by (induction evs) (simp_all add: UdpServer_connection_status_changed_callback_def)
  with w'(2) assms(1) show ?thesis by (auto simp: UdpServer_is_running_def)
qed

lemma server_stop_drops_events_witness:
  "\<exists>w'. UdpServer_stop App_thread 1 sample_world = Inr w' \<and> UdpServer_is_running 0 w' \<and>
    server_dispatch (sample_steam [] [])
      [\<lparr>sc_hConn = 9, sc_eState = State_Connecting, sc_eOldState = State_None\<rparr>] w' = Inr w'"
proof -
  have "\<not> us_is_running (servers sample_world 1)" by (simp add: sample_servers udp_server_new_def)
  moreover from this obtain w' where "UdpServer_stop App_thread 1 sample_world = Inr w'"
    by (simp add: UdpServer_stop_def UdpServer_stop_begin_def)
  ultimately show ?thesis
    using server_stop_drops_events [of sample_world 1 App_thread w']
    by (simp add: UdpServer_is_running_def sample_servers sample_server_def udp_server_new_def
        del: server_dispatch.simps)
qed

text \<open>
  \<^verbatim>\<open>stop\<close> from a callback on the server's own network thread ends the process: the thread
  joins itself. The same call from any other thread returns.
\<close>

lemma server_stop_self_join:
  assumes "us_is_running (servers w i)" and "us_network_thread (servers w i)"
  shows "UdpServer_stop (Network_thread i) i w = Inl Terminate \<and>
    (\<forall>caller. caller \<noteq> Network_thread i \<longrightarrow> (\<exists>w'. UdpServer_stop caller i w = Inr w'))"
  using assms by (auto simp: UdpServer_stop_def UdpServer_stop_begin_def)

lemma server_stop_self_join_witness:
  "UdpServer_stop (Network_thread 0) 0 started_world = Inl Terminate"
  using server_stop_self_join [of started_world 0] by (simp add: started_world_def)

section \<open>Receiving and sending\<close>

text \<open>
  C18: One poll of a server on a live poll group: the at most 32 messages Steam returns are handed
  over in the order of arrival, each to the data callback if its connection is in the client table
  and to nobody otherwise, each is released exactly once right after its delivery, and then the
  queued connection events are dispatched.
\<close>

theorem server_poll_delivers:
  assumes "messages_ok st" and "us_poll_group (servers w i) \<in> live_poll_groups (server_history w)"
    and "us_on_data (servers w i) = Some (\<lambda>c d e. Inr (f c d e))"
  shows "let pg = us_poll_group (servers w i);
             ms = snd (receive_on_poll_group st (server_history w) pg 32);
             e = log_call (ReceiveMessagesOnPollGroup pg 32) (senv w);
             e' = fold (\<lambda>m e. log_call (ReleaseMessage m)
                    (case UdpServer_get_client_info i (sm_conn m) w of
                       None \<Rightarrow> e | Some c \<Rightarrow> f c (sm_data m) e)) ms e in
         length ms \<le> 32 \<and>
         UdpServer_poll st i w =
           server_dispatch st (run_callbacks st (calls e')) (w\<lparr>senv := log_call RunCallbacks e'\<rparr>)"
proof -
  let ?pg = "us_poll_group (servers w i)"
  obtain n ms where recv: "receive_on_poll_group st (server_history w) ?pg 32 = (n, ms)" by fastforce
  then have n: "n = int (length ms)" and le: "length ms \<le> 32"
    using assms(1,2) unfolding messages_ok_def by (metis fst_conv snd_conv)+
  let ?w = "server_log (ReceiveMessagesOnPollGroup ?pg 32) w"
  have on: "us_on_data (servers ?w i) = Some (\<lambda>c d e. Inr (f c d e))" using assms(3) by simp
  have one: "(\<lambda>m e. log_call (ReleaseMessage m) (case UdpServer_get_client_info i (sm_conn m) w of
      None \<Rightarrow> e | Some c \<Rightarrow> f c (sm_data m) e)) = deliver_one f (us_clients (servers ?w i))"
    by (simp add: fun_eq_iff deliver_one_def UdpServer_get_client_info_def)
  have "u32_count n = length ms" using n le by simp
  then show ?thesis
    unfolding one
    using le by (simp add: UdpServer_poll_def Let_def recv k_message_count_def server_message_loop_eq
        deliver_messages_fold [OF on])
      (simp add: server_log_def)
qed

theorem server_poll_delivers_witness:
  "\<exists>w'. UdpServer_poll (sample_steam [\<lparr>sm_conn = 5, sm_data = [1, 2, 3]\<rparr>, \<lparr>sm_conn = 6, sm_data = [4]\<rparr>] []) 0 sample_world = Inr w' \<and>
    app (senv w') = 3"
proof -
  let ?ms = "[\<lparr>sm_conn = 5, sm_data = [1, 2, 3]\<rparr>, \<lparr>sm_conn = 6, sm_data = [4]\<rparr>]"
  have "messages_ok (sample_steam ?ms [])"
    using sample_steam_ok [of ?ms "[]"] by (simp add: steam_ok_def)
  moreover have "us_poll_group (servers sample_world 0) \<in> live_poll_groups (server_history sample_world)"
    "us_on_data (servers sample_world 0) = Some (\<lambda>c d e. Inr (count_data c d e))"
    by (simp_all add: sample_servers sample_history sample_server_def)
  ultimately show ?thesis
    using server_poll_delivers [of "sample_steam ?ms []" sample_world 0 count_data]
    by (simp add: Let_def sample_steam_simps first_time_def sample_history sample_servers
        UdpServer_get_client_info_def sample_server_def count_data_def udp_server_new_def live_poll_groups_def)
      (simp add: sample_world_def)
qed

text \<open>
  A poll on a server that holds no live poll group, such as a manual poll before \<^verbatim>\<open>start\<close> or
  after \<^verbatim>\<open>stop\<close>, reads an array slot that was never written: Steam's -1 becomes a message count of
  4294967295.
\<close>

lemma server_poll_without_group:
  assumes "messages_ok st" and "us_poll_group (servers w i) = 0"
  shows "UdpServer_poll st i w = Inl Uninitialised_read"
  using assms by (simp add: poll_dead_group)

lemma server_poll_without_group_witness:
  "UdpServer_poll (sample_steam [] []) 0 idle_world = Inl Uninitialised_read"
  using server_poll_without_group [of "sample_steam [] []" idle_world 0] sample_steam_ok [of "[]" "[]"]
  by (simp add: steam_ok_def sample_servers udp_server_new_def handle_defs)

text \<open>
  \<^verbatim>\<open>broadcast\<close> sends the first \<^verbatim>\<open>p_size\<close> bytes once to every client in ascending order, even
  after a failed send; it returns true exactly when there is a client and every send succeeded,
  and changes nothing but the history.
\<close>

lemma server_broadcast_contract:
  assumes "UdpServer_broadcast st i bytes sz reliable w = (ok, w')"
  shows "let keys = map_keys (us_clients (servers w i)); data = take (unat sz) bytes;
             call = (\<lambda>c. SendMessageToConnection c data (send_flags reliable)) in
         server_history w' = server_history w @ map call keys \<and>
         (ok \<longleftrightarrow> keys \<noteq> [] \<and> (\<forall>k < length keys.
            send_message st (server_history w @ map call (take k keys)) (keys ! k) data (send_flags reliable) = EResultOK)) \<and>
         servers w' = servers w \<and> server_instance w' = server_instance w \<and> app (senv w') = app (senv w)"
proof -
  have "send_call (take (unat sz) bytes) reliable =
      (\<lambda>c. SendMessageToConnection c (take (unat sz) bytes) (send_flags reliable))"
    by (simp add: fun_eq_iff send_call_def)
  then show ?thesis
    using assms by (auto simp: broadcast_eq Let_def all_sent_iff)
qed

lemma server_broadcast_contract_witness:
  "\<exists>w'. UdpServer_broadcast (sample_steam [] []) 0 [10, 20, 30] 2 True sample_world = (True, w') \<and>
    server_history w' = server_history sample_world @
      [SendMessageToConnection 5 [10, 20] Send_Reliable, SendMessageToConnection 7 [10, 20] Send_Reliable]"
proof -
  obtain ok w' where "UdpServer_broadcast (sample_steam [] []) 0 [10, 20, 30] 2 True sample_world = (ok, w')"
    by fastforce
  with server_broadcast_contract [OF this] show ?thesis
    by (simp add: sample_servers sample_server_def Let_def sample_steam_simps send_flags_def all_less_two)
qed

section \<open>Connection events\<close>

definition connected_client :: "kb_connection_t \<Rightarrow> steam_ip_addr \<Rightarrow> client_info_t" where
  "connected_client c a = \<lparr>ci_conn = c, ci_addr = \<lparr>ip_union = sa_union a, ip_port = sa_port a\<rparr>\<rparr>"

lemma client_info_all_fields: "x\<lparr>ci_conn := c, ci_addr := a\<rparr> = \<lparr>ci_conn = c, ci_addr = a\<rparr>" for x :: client_info_t
  by (cases x) simp

lemma add_client_eq:
  assumes "clients_ok (us_clients (servers w i))" and "addresses_ok st"
  shows "UdpServer_add_client st i c w =
    (let client = connected_client c (connection_info st (server_history w) c) in
     (client, upd_server i (us_clients_update (\<lambda>m. map_put m c client)) (server_log (GetConnectionInfo c) w)))"
proof -
  define a where "a = connection_info st (server_history w) c"
  have "steam_addr_ok a" using assms(2) by (simp add: addresses_ok_def a_def)
  then show ?thesis
    by (simp add: UdpServer_add_client_def Let_def ip_address_assign_def a_def [symmetric]
        copy_steam_to_ip_address_eq [OF client_info_at_addr [OF assms(1)]] connected_client_def client_info_all_fields)
qed

lemma notify_connected_eq:
  "us_on_connected (servers w i) = cb \<Longrightarrow>
   UdpServer_notify_connected i (client, w) =
     (case cb of None \<Rightarrow> Inr w | Some f \<Rightarrow> bind_result (f client (senv w)) (\<lambda>e. Inr (w\<lparr>senv := e\<rparr>)))"
  by (cases cb) (simp_all add: UdpServer_notify_connected_def run_env_def)

text \<open>
  C25: A connecting peer. If Steam refuses the accept, or the poll group, the connection is closed
  at once and no state changes. Otherwise the table maps the connection to its own handle and to
  exactly the address bytes and port Steam reports, every other entry is kept, and the connected
  callback gets that entry.
\<close>

theorem server_connecting_contract:
  assumes "sc_eState ev = State_Connecting" and "clients_ok (us_clients (servers w i))" and "addresses_ok st"
  shows "let c = sc_hConn ev; pg = us_poll_group (servers w i); h = server_history w;
             accepted = (accept_connection st h c = EResultOK);
             grouped = set_connection_poll_group st (h @ [AcceptConnection c]) c pg;
             a = connection_info st (h @ [AcceptConnection c, SetConnectionPollGroup c pg]) c;
             client = \<lparr>ci_conn = c, ci_addr = \<lparr>ip_union = sa_union a, ip_port = sa_port a\<rparr>\<rparr> in
         \<exists>w1. (\<forall>j. servers w1 j = (servers w j)\<lparr>us_clients := us_clients (servers w1 j)\<rparr>) \<and>
           (\<forall>j k. UdpServer_get_client_info j k w1 =
              (if accepted \<and> grouped \<and> j = i \<and> k = c then Some client else UdpServer_get_client_info j k w)) \<and>
           server_instance w1 = server_instance w \<and> app (senv w1) = app (senv w) \<and>
           server_history w1 = h @ AcceptConnection c #
             (if \<not> accepted then [CloseConnection c 0 None False]
              else SetConnectionPollGroup c pg #
                (if \<not> grouped then [CloseConnection c 0 None False] else [GetConnectionInfo c])) \<and>
           UdpServer_on_connection_status_changed st i ev w =
             (if accepted \<and> grouped then
                (case us_on_connected (servers w i) of
                   None \<Rightarrow> Inr w1 | Some f \<Rightarrow> bind_result (f client (senv w1)) (\<lambda>e. Inr (w1\<lparr>senv := e\<rparr>)))
              else Inr w1)"
proof -
  define c where "c = sc_hConn ev"
  define pg where "pg = us_poll_group (servers w i)"
  define w1 where "w1 = server_log (AcceptConnection c) w"
  define w2 where "w2 = server_log (SetConnectionPollGroup c pg) w1"
  define client where "client = connected_client c (connection_info st (server_history w2) c)"
  define w3 where "w3 = upd_server i (us_clients_update (\<lambda>m. map_put m c client)) (server_log (GetConnectionInfo c) w2)"
  let ?accepted = "accept_connection st (server_history w) c = EResultOK"
  let ?grouped = "set_connection_poll_group st (server_history w1) c pg"
  have "UdpServer_add_client st i c w2 = (client, w3)"
    using add_client_eq [of w2 i st c] assms by (simp add: Let_def client_def w3_def w2_def w1_def)
  then have run: "UdpServer_on_connection_status_changed st i ev w =
    (if \<not> ?accepted then Inr (server_log (CloseConnection c 0 None False) w1)
     else if \<not> ?grouped then Inr (server_log (CloseConnection c 0 None False) w2)
     else UdpServer_notify_connected i (client, w3))"
    using assms(1)
    by (simp add: UdpServer_on_connection_status_changed_def UdpServer_on_connecting_def Let_def
        c_def [symmetric] pg_def [symmetric] w1_def w2_def)
  have find: "UdpServer_get_client_info j k w3 =
      (if j = i \<and> k = c then Some client else UdpServer_get_client_info j k w)" for j k
    using assms(2) by (simp add: UdpServer_get_client_info_def w3_def w2_def w1_def clients_ok_def std_map.find_put)
  have cb: "us_on_connected (servers w3 i) = us_on_connected (servers w i)" by (simp add: w3_def w2_def w1_def)
  have client: "\<lparr>ci_conn = c, ci_addr =
      \<lparr>ip_union = sa_union (connection_info st (server_history w @ [AcceptConnection c, SetConnectionPollGroup c pg]) c),
       ip_port = sa_port (connection_info st (server_history w @ [AcceptConnection c, SetConnectionPollGroup c pg]) c)\<rparr>\<rparr> = client"
    by (simp add: client_def connected_client_def w2_def w1_def)
  note fold_defs = Let_def run c_def [symmetric] pg_def [symmetric] client
  consider "\<not> ?accepted" | "?accepted" "\<not> ?grouped" | "?accepted" "?grouped" by blast
  then show ?thesis
  proof cases
    case 1
    then show ?thesis
      unfolding fold_defs by (intro exI [of _ "server_log (CloseConnection c 0 None False) w1"])
        (simp add: w1_def UdpServer_get_client_info_def)
  next
    case 2
    then show ?thesis
      unfolding fold_defs by (intro exI [of _ "server_log (CloseConnection c 0 None False) w2"])
        (simp add: w1_def w2_def UdpServer_get_client_info_def)
  next
    case 3
    then show ?thesis
      unfolding fold_defs notify_connected_eq [OF cb]
      by (intro exI [of _ w3]) (simp add: find w1_def [symmetric], simp add: w3_def w2_def w1_def)
  qed
qed

theorem server_connecting_contract_witness:
  "\<exists>w1. UdpServer_on_connection_status_changed (sample_steam [] []) 0
       \<lparr>sc_hConn = 6, sc_eState = State_Connecting, sc_eOldState = State_None\<rparr> sample_world = Inr w1 \<and>
     UdpServer_get_client_info 0 6 w1 =
       Some \<lparr>ci_conn = 6, ci_addr = \<lparr>ip_union = replicate 16 0, ip_port = 27015\<rparr>\<rparr> \<and>
     UdpServer_get_client_info 0 7 w1 = Some (sample_client 7) \<and> app (senv w1) = 1"
proof -
  let ?ev = "\<lparr>sc_hConn = 6, sc_eState = State_Connecting, sc_eOldState = State_None\<rparr>"
  have group: "set_connection_poll_group (sample_steam [] []) (server_history sample_world @ [AcceptConnection 6]) 6
      (us_poll_group (servers sample_world 0))"
    by (simp add: sample_steam_simps sample_history sample_fields live_poll_groups_def)
  have "addresses_ok (sample_steam [] [])"
    using sample_steam_ok [of "[]" "[]"] by (simp add: steam_ok_def)
  from server_connecting_contract [OF _ sample_clients_ok this, of ?ev] group show ?thesis
    by (simp add: Let_def sample_steam_simps(7,9) sample_fields count_client_def, elim exE conjE)
      (simp add: UdpServer_get_client_info_def sample_fields)
qed

text \<open>
  A peer that closes, or fails, is not forgotten. The event closes the connection in Steam and
  reports it at most to the disconnected callback, but the client table keeps the entry, so the
  next broadcast still sends to the closed connection.
\<close>

lemma server_peer_close_keeps_client:
  assumes "sc_eState ev \<in> {State_ClosedByPeer, State_ProblemDetectedLocally}"
    and "callbacks_ok (servers w i)" and "UdpServer_get_client_info i (sc_hConn ev) w \<noteq> None"
  shows "\<exists>w'. UdpServer_on_connection_status_changed st i ev w = Inr w' \<and>
    last (server_history w') = CloseConnection (sc_hConn ev) 0 None False \<and>
    us_clients (servers w' i) = us_clients (servers w i) \<and>
    SendMessageToConnection (sc_hConn ev) (take (unat sz) bytes) (send_flags reliable)
      \<in> set (drop (length (server_history w')) (server_history (snd (UdpServer_broadcast st i bytes sz reliable w'))))"
proof -
  have "\<exists>w'. UdpServer_on_connection_status_changed st i ev w = Inr w' \<and>
    last (server_history w') = CloseConnection (sc_hConn ev) 0 None False \<and>
    us_clients (servers w' i) = us_clients (servers w i)"
  proof -
    have cb: "\<exists>w1. run_env (f c) w = Inr w1 \<and> servers w1 = servers w"
      if "us_on_disconnected (servers w i) = Some f" for f c
    proof -
      have "well_behaved (f c)" using assms(2) that by (simp add: callbacks_ok_def)
      then obtain e where "f c (senv w) = Inr e" by (rule well_behavedE)
      then show ?thesis by (simp add: run_env_def)
    qed
    have closed: "UdpServer_on_connection_status_changed st i ev w = UdpServer_on_closed i ev w"
      using assms(1) by (auto simp: UdpServer_on_connection_status_changed_def)
    obtain w1 where "servers w1 = servers w"
      "(if sc_eOldState ev = State_Connected then
          case (us_on_disconnected (servers w i), UdpServer_get_client_info i (sc_hConn ev) w) of
            (Some callback, Some client_info) \<Rightarrow> run_env (callback client_info) w
          | _ \<Rightarrow> Inr w
        else Inr w) = Inr w1"
      using cb by (cases "us_on_disconnected (servers w i)";
          cases "UdpServer_get_client_info i (sc_hConn ev) w") (fastforce split: if_splits)+
    then show ?thesis
      unfolding closed UdpServer_on_closed_def Let_def by simp
  qed
  then obtain w' where w': "UdpServer_on_connection_status_changed st i ev w = Inr w'"
    "last (server_history w') = CloseConnection (sc_hConn ev) 0 None False"
    "us_clients (servers w' i) = us_clients (servers w i)" by blast
  have "sc_hConn ev \<in> set (map_keys (us_clients (servers w i)))"
    using assms(3) by (simp add: UdpServer_get_client_info_def map_find_eq_None)
  then show ?thesis
    using w' by (intro exI [of _ w']) (simp add: broadcast_eq Let_def send_call_def)
qed

lemma server_peer_close_keeps_client_witness:
  "\<exists>w'. UdpServer_on_connection_status_changed (sample_steam [] []) 0
      \<lparr>sc_hConn = 5, sc_eState = State_ClosedByPeer, sc_eOldState = State_Connected\<rparr> sample_world = Inr w' \<and>
    SendMessageToConnection 5 [] Send_Reliable
      \<in> set (server_history (snd (UdpServer_broadcast (sample_steam [] []) 0 [] 0 True w')))"
proof -
  let ?ev = "\<lparr>sc_hConn = 5, sc_eState = State_ClosedByPeer, sc_eOldState = State_Connected\<rparr>"
  have "UdpServer_get_client_info 0 5 sample_world \<noteq> None"
    by (simp add: UdpServer_get_client_info_def sample_servers sample_server_def)
  then show ?thesis
    using server_peer_close_keeps_client [of ?ev sample_world 0 "sample_steam [] []" 0 "[]" True] sample_callbacks_ok
    by (auto simp: sample_servers send_flags_def dest: in_set_dropD)
qed

text \<open>
  \<^verbatim>\<open>disconnect\<close> closes the connection and forgets the client: no later broadcast reaches it,
  and the entries of all other clients are kept.
\<close>

lemma server_disconnect_contract:
  assumes "clients_ok (us_clients (servers w i))"
  shows "let w' = UdpServer_disconnect i c reason w in
    server_history w' = server_history w @ [CloseConnection c reason (Some ''Disconnected'') False] \<and>
    (\<forall>k. UdpServer_get_client_info i k w' = (if k = c then None else UdpServer_get_client_info i k w)) \<and>
    (\<forall>bytes sz reliable. SendMessageToConnection c bytes (send_flags reliable) \<notin>
       set (drop (length (server_history w')) (server_history (snd (UdpServer_broadcast st i bytes sz reliable w')))))"
proof -
  have m: "map_ok (us_clients (servers w i))" using assms by (simp add: clients_ok_def)
  then have "c \<notin> set (map_keys (map_erase (us_clients (servers w i)) c))"
    by (simp add: std_map.set_keys_erase)
  with m show ?thesis
    by (auto simp: UdpServer_disconnect_def Let_def UdpServer_get_client_info_def std_map.find_erase
        broadcast_eq send_call_def)
qed

lemma server_disconnect_contract_witness:
  "UdpServer_get_client_info 0 5 (UdpServer_disconnect 0 5 3 sample_world) = None \<and>
   UdpServer_get_client_info 0 7 (UdpServer_disconnect 0 5 3 sample_world) = Some (sample_client 7)"
  using server_disconnect_contract [OF sample_clients_ok, of 5 3 "sample_steam [] []"]
  by (simp add: Let_def UdpServer_get_client_info_def sample_fields)

end
