(* ===== verification/Client_System.thy ===== *)
theory Client_System
  imports Udp_Client_Correct
begin

text \<open>
  A process with one \<^verbatim>\<open>UdpClient\<close> as a concurrent system: the application thread calls its member
  functions while its network thread, once started by \<^verbatim>\<open>connect\<close>, runs \<^verbatim>\<open>network_loop\<close>. The
  invariant ties the client's handle to a connection that exists in Steam. With two clients it fails,
  because the static instance pointer sends every event to the client that connected last.
\<close>

section \<open>States and steps\<close>

record 'w client_system =
  cs_world :: "'w client_world"
  cs_net :: net_pc
  cs_app :: app_pc

definition client_system_init :: "'w \<Rightarrow> 'w client_system" where
  "client_system_init a =
     \<lparr>cs_world = \<lparr>udp_clients = (\<lambda>_. udp_client_new), client_instance = None, cenv = \<lparr>calls = [], app = a\<rparr>\<rparr>,
      cs_net = Net_none, cs_app = App_idle\<rparr>"

definition client_loop_test :: "nat \<Rightarrow> 'w client_world \<Rightarrow> net_pc" where
  "client_loop_test this w = (if uc_running (udp_clients w this) then Net_poll else Net_exited)"

inductive client_step :: "steam_api \<Rightarrow> nat \<Rightarrow> 'w client_system \<Rightarrow> 'w client_system \<Rightarrow> bool" for st i where
  connect:
    "cs_app s = App_idle \<Longrightarrow> \<not> uc_running (udp_clients (cs_world s) i) \<Longrightarrow>
     UdpClient_connect st i addr port (cs_world s) = Inr (ok, w) \<Longrightarrow>
     client_step st i s (s\<lparr>cs_world := w, cs_net := Net_check\<rparr>)"
| connect_running:
    "cs_app s = App_idle \<Longrightarrow> uc_running (udp_clients (cs_world s) i) \<Longrightarrow>
     UdpClient_connect st i addr port (cs_world s) = Inr (ok, w) \<Longrightarrow>
     client_step st i s (s\<lparr>cs_world := w\<rparr>)"
| stop_not_running:
    "cs_app s = App_idle \<Longrightarrow> UdpClient_stop_begin i (cs_world s) = (False, w) \<Longrightarrow>
     client_step st i s (s\<lparr>cs_world := w\<rparr>)"
| stop_waits:
    "cs_app s = App_idle \<Longrightarrow> UdpClient_stop_begin i (cs_world s) = (True, w) \<Longrightarrow>
     client_step st i s (s\<lparr>cs_world := w, cs_app := App_joining i\<rparr>)"
| stop_joined:
    "cs_app s = App_joining i \<Longrightarrow> cs_net s = Net_exited \<Longrightarrow>
     client_step st i s
       (s\<lparr>cs_world := UdpClient_stop_finish i (upd_client i (uc_network_thread_update (\<lambda>_. False)) (cs_world s)),
          cs_net := Net_none, cs_app := App_idle\<rparr>)"
| loop_test:
    "cs_net s = Net_check \<Longrightarrow>
     client_step st i s (s\<lparr>cs_net := client_loop_test i (cs_world s)\<rparr>)"
| loop_poll:
    "cs_net s = Net_poll \<Longrightarrow> UdpClient_poll st i (cs_world s) = Inr w \<Longrightarrow>
     client_step st i s (s\<lparr>cs_world := w, cs_net := Net_check\<rparr>)"
| manual_poll:
    "cs_app s = App_idle \<Longrightarrow> UdpClient_poll st i (cs_world s) = Inr w \<Longrightarrow>
     client_step st i s (s\<lparr>cs_world := w\<rparr>)"
| send:
    "cs_app s = App_idle \<Longrightarrow> UdpClient_send_raw st i bytes len reliable (cs_world s) = (ok, w) \<Longrightarrow>
     client_step st i s (s\<lparr>cs_world := w\<rparr>)"
| set_on_data:
    "cs_app s = App_idle \<Longrightarrow> quiet_callback cb \<Longrightarrow>
     client_step st i s (s\<lparr>cs_world := UdpClient_set_on_data_callback i cb (cs_world s)\<rparr>)"

inductive client_reachable :: "steam_api \<Rightarrow> nat \<Rightarrow> 'w client_system \<Rightarrow> bool" for st i where
  init: "client_reachable st i (client_system_init a)"
| step: "client_reachable st i s \<Longrightarrow> client_step st i s t \<Longrightarrow> client_reachable st i t"

section \<open>The invariant\<close>

text \<open>The handle of a client exists in Steam, and a running client has one. No more is true: the handler
  does not compare the connection of a closing event with its own, so a late event about an older
  connection makes it forget the handle of the present one.\<close>

definition client_world_ok :: "nat \<Rightarrow> 'w client_world \<Rightarrow> bool" where
  "client_world_ok i w \<longleftrightarrow>
     (uc_conn (udp_clients w i) \<noteq> 0 \<longrightarrow>
        uc_conn (udp_clients w i) \<in> live_connections (client_history w) \<and> uc_interface (udp_clients w i)) \<and>
     client_instance w \<in> {None, Some i} \<and>
     (client_instance w \<noteq> None \<longrightarrow> uc_interface (udp_clients w i)) \<and>
     (uc_running (udp_clients w i) \<longrightarrow> uc_conn (udp_clients w i) \<noteq> 0) \<and>
     quiet_callback (uc_on_data_received (udp_clients w i))"

definition client_system_ok :: "nat \<Rightarrow> 'w client_system \<Rightarrow> bool" where
  "client_system_ok i s \<longleftrightarrow>
     client_world_ok i (cs_world s) \<and>
     (uc_network_thread (udp_clients (cs_world s) i) \<longleftrightarrow> cs_net s \<noteq> Net_none) \<and>
     (cs_net s = Net_exited \<longrightarrow> \<not> uc_running (udp_clients (cs_world s) i)) \<and>
     (uc_running (udp_clients (cs_world s) i) \<longrightarrow> cs_net s \<noteq> Net_none) \<and>
     (cs_app s \<in> {App_idle, App_joining i}) \<and>
     (cs_app s = App_joining i \<longrightarrow>
        cs_net s \<noteq> Net_none \<and> \<not> uc_running (udp_clients (cs_world s) i)) \<and>
     (cs_app s = App_idle \<and> uc_conn (udp_clients (cs_world s) i) \<noteq> 0 \<longrightarrow> uc_running (udp_clients (cs_world s) i))"

lemma client_system_init_ok: "client_system_ok i (client_system_init a)"
  by (simp add: client_system_ok_def client_world_ok_def client_system_init_def udp_client_new_def
      handle_defs client_history_def quiet_callback_def)

lemma poll_dispatch_ok:
  assumes ok: "client_world_ok i w"
  obtains w' where "client_dispatch (run_callbacks st (client_history w)) (client_log RunCallbacks w) = Inr w'"
    and "client_world_ok i w'"
    and "uc_network_thread (udp_clients w' i) = uc_network_thread (udp_clients w i)"
    and "uc_running (udp_clients w' i) \<Longrightarrow> uc_running (udp_clients w i)"
    and "uc_running (udp_clients w i) \<Longrightarrow> \<not> uc_running (udp_clients w' i) \<Longrightarrow> uc_conn (udp_clients w' i) = 0"
    and "uc_conn (udp_clients w' i) \<noteq> 0 \<Longrightarrow> uc_conn (udp_clients w i) \<noteq> 0"
proof (cases "client_instance w")
  case None
  have "client_dispatch evs v = Inr v" if "client_instance v = None" for evs and v :: "'a client_world"
    using that by (induction evs) (simp_all add: UdpClient_connection_status_changed_callback_def)
  with None have run: "client_dispatch (run_callbacks st (client_history w)) (client_log RunCallbacks w) =
    Inr (client_log RunCallbacks w)" by simp
  have "client_world_ok i (client_log RunCallbacks w)"
    using ok by (simp add: client_world_ok_def)
  then show thesis using that [OF run] by simp
next
  case (Some j)
  let ?w = "client_log RunCallbacks w" and ?evs = "run_callbacks st (client_history w)"
  have j: "client_instance ?w = Some i" and int: "uc_interface (udp_clients ?w i)"
    using ok Some by (auto simp: client_world_ok_def)
  let ?w' = "?w\<lparr>udp_clients := (udp_clients ?w)(i := fold after_event ?evs (udp_clients ?w i)),
     cenv := (cenv ?w)\<lparr>calls := client_history ?w @ map close_call (filter closing ?evs)\<rparr>\<rparr>"
  have run: "client_dispatch ?evs ?w = Inr ?w'"
    by (rule client_dispatch_eq [OF j int])
  have live: "live_connections (client_history ?w') = live_connections (client_history w)"
    if "list_all (\<lambda>ev. \<not> closing ev) ?evs"
  proof -
    have "filter closing ?evs = []" using that by (simp add: list_all_iff filter_empty_conv)
    then show ?thesis by simp
  qed
  have data: "uc_on_data_received (fold after_event evs c) = uc_on_data_received c" for evs and c :: "'a udp_client"
    by (induction evs arbitrary: c) simp_all
  have "client_world_ok i ?w'"
    using ok live j unfolding client_world_ok_def by (auto simp: fold_after_event_fields data split: if_splits)
  then show thesis
    by (rule that [OF run]) (simp_all add: fold_after_event_fields split: if_splits)
qed

text \<open>One poll: it returns, keeps the invariant, starts nothing, and a client it stops has no
  connection left.\<close>

definition poll_effect :: "nat \<Rightarrow> 'w client_world \<Rightarrow> 'w client_world \<Rightarrow> bool" where
  "poll_effect i w w' \<longleftrightarrow>
     client_world_ok i w' \<and>
     uc_network_thread (udp_clients w' i) = uc_network_thread (udp_clients w i) \<and>
     (uc_running (udp_clients w' i) \<longrightarrow> uc_running (udp_clients w i)) \<and>
     (uc_running (udp_clients w i) \<and> \<not> uc_running (udp_clients w' i) \<longrightarrow> uc_conn (udp_clients w' i) = 0) \<and>
     (uc_conn (udp_clients w' i) \<noteq> 0 \<longrightarrow> uc_conn (udp_clients w i) \<noteq> 0)"

lemma client_world_ok_same:
  assumes "same_but_env w w'" and "client_world_ok i w"
  shows "client_world_ok i w'"
  using assms by (simp add: client_world_ok_def same_but_env_def)

lemma client_poll_ok:
  assumes "connection_messages_ok st" and ok: "client_world_ok i w"
  obtains w' where "UdpClient_poll st i w = Inr w'" and "poll_effect i w w'"
proof (cases "uc_running (udp_clients w i)")
  case False
  then have "UdpClient_poll st i w = Inr w" by (simp add: UdpClient_poll_def)
  then show thesis by (rule that) (use ok False in \<open>simp add: poll_effect_def\<close>)
next
  case True
  have int: "uc_interface (udp_clients w i)" and live: "uc_conn (udp_clients w i) \<in> live_connections (client_history w)"
    and cb: "quiet_callback (uc_on_data_received (udp_clients w i))"
    using ok True by (simp_all add: client_world_ok_def)
  obtain w1 where w1: "UdpClient_poll_messages st i w = Inr w1" "same_but_env w w1"
    by (rule poll_messages_same [OF int assms(1) live cb])
  have same: "udp_clients w1 = udp_clients w" using w1(2) by (simp add: same_but_env_def)
  obtain w' where w': "client_dispatch (run_callbacks st (client_history w1)) (client_log RunCallbacks w1) = Inr w'"
    "client_world_ok i w'" "uc_network_thread (udp_clients w' i) = uc_network_thread (udp_clients w i)"
    "uc_running (udp_clients w' i) \<Longrightarrow> uc_running (udp_clients w i)"
    "uc_running (udp_clients w i) \<Longrightarrow> \<not> uc_running (udp_clients w' i) \<Longrightarrow> uc_conn (udp_clients w' i) = 0"
    "uc_conn (udp_clients w' i) \<noteq> 0 \<Longrightarrow> uc_conn (udp_clients w i) \<noteq> 0"
    using poll_dispatch_ok [OF client_world_ok_same [OF w1(2) ok]] unfolding same by blast
  have "UdpClient_poll st i w = Inr w'"
    using True w1 w'(1) int by (simp add: UdpClient_poll_def same)
  then show thesis by (rule that) (use w' in \<open>simp add: poll_effect_def\<close>)
qed

section \<open>Every step keeps the invariant\<close>

lemma connect_idle_eq:
  assumes "\<not> uc_running (udp_clients w i)" and "UdpClient_connect st i addr port w = Inr (ok, w')"
  shows "\<not> uc_network_thread (udp_clients w i)"
    and "ok = attempt_ok (attempt st (client_history w) addr port)"
    and "client_instance w' = Some i"
    and "client_history w' = client_history w @
      (case attempt st (client_history w) addr port of None \<Rightarrow> [] | Some (a, c) \<Rightarrow> [ConnectByIPAddress a c])"
    and "uc_running (udp_clients w' i) = ok" and "uc_network_thread (udp_clients w' i)"
    and "uc_interface (udp_clients w' i)"
    and "uc_connection_status (udp_clients w' i) = (if ok then Connecting else Failed_to_connect)"
    and "uc_on_data_received (udp_clients w' i) = uc_on_data_received (udp_clients w i)"
    and "uc_conn (udp_clients w' i) =
      (case attempt st (client_history w) addr port of None \<Rightarrow> uc_conn (udp_clients w i) | Some (a, c) \<Rightarrow> c)"
    and "\<And>j. j \<noteq> i \<Longrightarrow> udp_clients w' j = udp_clients w j"
    and "app (cenv w') = app (cenv w)"
  using assms
  by (auto simp: UdpClient_connect_def try_connect_eq Let_def client_history_def split: if_splits option.split)

lemma connect_world_ok:
  assumes ok: "client_world_ok i w" and idle: "uc_conn (udp_clients w i) = 0"
    and run: "\<not> uc_running (udp_clients w i)" and c: "UdpClient_connect st i addr port w = Inr (res, w')"
  shows "client_world_ok i w'" and "uc_conn (udp_clients w' i) \<noteq> 0 \<longleftrightarrow> res"
proof -
  note eq = connect_idle_eq [OF run c]
  show conn: "uc_conn (udp_clients w' i) \<noteq> 0 \<longleftrightarrow> res"
    using eq(2,10) idle by (auto simp: attempt_ok_def split: option.splits)
  have "uc_conn (udp_clients w' i) \<noteq> 0 \<longrightarrow> uc_conn (udp_clients w' i) \<in> live_connections (client_history w')"
    using eq(4,10) idle by (auto split: option.splits)
  then show "client_world_ok i w'"
    using ok eq conn by (simp add: client_world_ok_def)
qed

lemma stop_begin_client_eq:
  "UdpClient_stop_begin i w = (was, w') \<longleftrightarrow>
   was = uc_running (udp_clients w i) \<and>
   w' = upd_client i (uc_running_update (\<lambda>_. False)) (w\<lparr>client_instance := None\<rparr>)"
  by (auto simp: UdpClient_stop_begin_def)

lemma client_stop_finish_fields [simp]:
  "uc_conn (udp_clients (UdpClient_stop_finish i w) i) = 0"
  "uc_running (udp_clients (UdpClient_stop_finish i w) i) = uc_running (udp_clients w i)"
  "uc_interface (udp_clients (UdpClient_stop_finish i w) i) = uc_interface (udp_clients w i)"
  "uc_network_thread (udp_clients (UdpClient_stop_finish i w) i) = uc_network_thread (udp_clients w i)"
  "uc_on_data_received (udp_clients (UdpClient_stop_finish i w) i) = uc_on_data_received (udp_clients w i)"
  "uc_connection_status (udp_clients (UdpClient_stop_finish i w) i) = uc_connection_status (udp_clients w i)"
  "client_instance (UdpClient_stop_finish i w) = client_instance w"
  "j \<noteq> i \<Longrightarrow> udp_clients (UdpClient_stop_finish i w) j = udp_clients w j"
  "app (cenv (UdpClient_stop_finish i w)) = app (cenv w)"
  "client_history (UdpClient_stop_finish i w) = client_history w @
     (if uc_conn (udp_clients w i) = 0 then []
      else [CloseConnection (uc_conn (udp_clients w i)) 0 (Some ''UdpClient disconnecting'') True])"
  by (simp_all add: UdpClient_stop_finish_def Let_def handle_defs)

lemma client_stop_finish_ok:
  assumes "client_world_ok i w" and "\<not> uc_running (udp_clients w i)"
  shows "client_world_ok i (UdpClient_stop_finish i w)"
  using assms by (simp add: client_world_ok_def)

lemma client_step_ok:
  assumes "connection_messages_ok st" and "client_step st i s t" and ok: "client_system_ok i s"
  shows "client_system_ok i t"
proof -
  have w: "client_world_ok i (cs_world s)" using ok by (simp add: client_system_ok_def)
  from assms(2) show ?thesis
  proof cases
    case (connect addr port res w')
    have "uc_conn (udp_clients (cs_world s) i) = 0" using ok connect by (auto simp: client_system_ok_def)
    from connect_world_ok [OF w this connect(3,4)] show ?thesis
      using connect connect_idle_eq [OF connect(3,4)] by (simp add: client_system_ok_def)
  next
    case (connect_running addr port res w')
    with ok show ?thesis by (auto simp: UdpClient_connect_def client_system_ok_def)
  next
    case (stop_not_running w')
    then have "uc_conn (udp_clients (cs_world s) i) = 0" using ok by (auto simp: client_system_ok_def stop_begin_client_eq)
    with stop_not_running ok show ?thesis
      by (auto simp: client_system_ok_def client_world_ok_def stop_begin_client_eq)
  next
    case (stop_waits w')
    with ok show ?thesis by (auto simp: client_system_ok_def client_world_ok_def stop_begin_client_eq)
  next
    case stop_joined
    have "client_world_ok i (upd_client i (uc_network_thread_update (\<lambda>_. False)) (cs_world s))"
      using w by (simp add: client_world_ok_def)
    moreover have "\<not> uc_running (udp_clients (upd_client i (uc_network_thread_update (\<lambda>_. False)) (cs_world s)) i)"
      using ok stop_joined by (simp add: client_system_ok_def)
    ultimately show ?thesis
      using client_stop_finish_ok stop_joined by (fastforce simp: client_system_ok_def)
  next
    case loop_test
    with ok show ?thesis by (simp add: client_system_ok_def client_loop_test_def)
  next
    case (loop_poll w')
    obtain v where "UdpClient_poll st i (cs_world s) = Inr v" "poll_effect i (cs_world s) v"
      by (rule client_poll_ok [OF assms(1) w])
    with loop_poll ok show ?thesis by (auto simp: client_system_ok_def poll_effect_def)
  next
    case (manual_poll w')
    obtain v where "UdpClient_poll st i (cs_world s) = Inr v" "poll_effect i (cs_world s) v"
      by (rule client_poll_ok [OF assms(1) w])
    with manual_poll ok show ?thesis by (auto simp: client_system_ok_def poll_effect_def)
  next
    case (send bytes len reliable res w')
    then have "same_but_env (cs_world s) w'"
      by (auto simp: UdpClient_send_raw_def Let_def same_but_env_def split: if_splits)
    with send ok show ?thesis
      using client_world_ok_same w by (auto simp: client_system_ok_def same_but_env_def)
  next
    case (set_on_data cb)
    with ok show ?thesis by (simp add: client_system_ok_def client_world_ok_def UdpClient_set_on_data_callback_def)
  qed
qed

lemma client_reachable_ok:
  assumes "connection_messages_ok st" and "client_reachable st i s"
  shows "client_system_ok i s"
  using assms(2)
proof induction
  case (init a)
  show ?case by (rule client_system_init_ok)
next
  case (step s t)
  then show ?case using client_step_ok [OF assms(1)] by blast
qed

end
