(* ===== verification/Client_Properties.thy ===== *)
theory Client_Properties
  imports Client_System
begin

text \<open>
  The properties of \<^verbatim>\<open>UdpClient\<close>: safety of the client and its thread, the contracts of connect, stop,
  send and poll, the connection status as a state machine, and the states the code cannot leave.
\<close>

section \<open>A concrete client\<close>

definition closed_event :: "kb_connection_t \<Rightarrow> status_changed" where
  "closed_event c = \<lparr>sc_hConn = c, sc_eState = State_ClosedByPeer, sc_eOldState = State_Connected\<rparr>"

definition connected_event :: "kb_connection_t \<Rightarrow> status_changed" where
  "connected_event c = \<lparr>sc_hConn = c, sc_eState = State_Connected, sc_eOldState = State_Connecting\<rparr>"

text \<open>The application counts the bytes it receives.\<close>

definition count_bytes :: "incoming_view_message_t \<Rightarrow> nat env \<Rightarrow> nat env" where
  "count_bytes m e = e\<lparr>app := app e + length (msg_buffer m)\<rparr>"

definition sample_addr :: steam_ip_addr where
  "sample_addr = \<lparr>sa_union = replicate 16 0, sa_port = 27015\<rparr>"

text \<open>Client 0 after a successful \<^verbatim>\<open>connect\<close>; client 1 is new.\<close>

definition sample_udp_client :: "nat udp_client" where
  "sample_udp_client = udp_client_new
     \<lparr>uc_running := True, uc_connection_status := Connecting, uc_network_thread := True,
      uc_on_data_received := Some (\<lambda>m e. Inr (count_bytes m e)), uc_interface := True, uc_conn := 1\<rparr>"

definition sample_client_world :: "nat client_world" where
  "sample_client_world =
     \<lparr>udp_clients = (\<lambda>_. udp_client_new)(0 := sample_udp_client), client_instance = Some 0,
      cenv = \<lparr>calls = [ConnectByIPAddress sample_addr 1], app = 0\<rparr>\<rparr>"

definition fresh_client_world :: "nat client_world" where
  "fresh_client_world =
     \<lparr>udp_clients = (\<lambda>_. udp_client_new), client_instance = None, cenv = \<lparr>calls = [], app = 0\<rparr>\<rparr>"

lemma sample_client_fields:
  "udp_clients sample_client_world 0 = sample_udp_client"
  "client_instance sample_client_world = Some 0"
  "client_history sample_client_world = [ConnectByIPAddress sample_addr 1]"
  "app (cenv sample_client_world) = 0"
  "uc_running sample_udp_client" "uc_interface sample_udp_client" "uc_conn sample_udp_client = 1"
  "uc_network_thread sample_udp_client" "uc_connection_status sample_udp_client = Connecting"
  "uc_on_data_received sample_udp_client = Some (\<lambda>m e. Inr (count_bytes m e))"
  "udp_clients fresh_client_world i = udp_client_new"
  "client_history fresh_client_world = []"
  "\<not> uc_running udp_client_new" "\<not> uc_network_thread udp_client_new" "uc_conn udp_client_new = 0"
  by (simp_all add: sample_client_world_def sample_udp_client_def fresh_client_world_def client_history_def
      udp_client_new_def handle_defs)

lemma sample_live: "live_connections [ConnectByIPAddress sample_addr 1] = {1}"
  by (simp add: live_connections_def)

text \<open>A new client with a data callback, which then connects.\<close>

definition waiting_client_world :: "nat client_world" where
  "waiting_client_world =
     upd_client 0 (uc_on_data_received_update (\<lambda>_. Some (\<lambda>m e. Inr (count_bytes m e)))) fresh_client_world"

lemma waiting_client_ok:
  "client_world_ok 0 waiting_client_world" "\<not> uc_running (udp_clients waiting_client_world 0)"
  "uc_conn (udp_clients waiting_client_world 0) = 0"
  by (simp_all add: waiting_client_world_def fresh_client_world_def udp_client_new_def client_world_ok_def handle_defs
      client_history_def quiet_callback_def quiet_def count_bytes_def)

lemma sample_connect:
  "UdpClient_connect (sample_steam ms evs) 0 ''::1'' 27015 waiting_client_world = Inr (True, sample_client_world)"
  by (simp add: UdpClient_connect_def try_connect_eq attempt_def attempt_ok_def sample_steam_simps Let_def
      c_str_def address_with_port_def waiting_client_world_def fresh_client_world_def sample_client_world_def
      sample_udp_client_def udp_client_new_def sample_addr_def upd_client_def client_history_def live_connections_def
      log_call_def fun_eq_iff)

lemma sample_client_reachable:
  "client_reachable (sample_steam ms evs) 0 \<lparr>cs_world = sample_client_world, cs_net = Net_check, cs_app = App_idle\<rparr>"
proof -
  let ?st = "sample_steam ms evs" and ?s = "client_system_init (0 :: nat)"
  have "client_step ?st 0 ?s (?s\<lparr>cs_world := waiting_client_world\<rparr>)"
    using client_step.set_on_data [of ?s "Some (\<lambda>m e. Inr (count_bytes m e))" ?st 0]
    by (simp add: client_system_init_def waiting_client_world_def fresh_client_world_def UdpClient_set_on_data_callback_def
        quiet_callback_def quiet_def count_bytes_def)
  from client_reachable.step [OF client_reachable.init this]
  have waiting: "client_reachable ?st 0 (?s\<lparr>cs_world := waiting_client_world\<rparr>)" .
  have "client_step ?st 0 (?s\<lparr>cs_world := waiting_client_world\<rparr>)
    (?s\<lparr>cs_world := waiting_client_world\<rparr>\<lparr>cs_world := sample_client_world, cs_net := Net_check\<rparr>)"
    using waiting_client_ok(2) sample_connect by (intro client_step.connect) (simp_all add: client_system_init_def)
  from client_reachable.step [OF waiting this] show ?thesis
    by (simp add: client_system_init_def)
qed

section \<open>Threads\<close>

text \<open>
  C2: With one client in the process and each poll as one step, whatever events Steam delivers: in every
  reachable state a poll returns without a fault, the client's handle, unless it is 0, is a connection that
  exists in Steam, a running client has one, and \<^verbatim>\<open>connect\<close> terminates the process exactly when the client is
  not running and its network thread has not been joined.
\<close>

theorem client_threads_safe:
  assumes "connection_messages_ok st" and "client_reachable st i s"
  shows "(\<exists>w. UdpClient_poll st i (cs_world s) = Inr w) \<and>
    (uc_conn (udp_clients (cs_world s) i) \<noteq> 0 \<longrightarrow>
      uc_conn (udp_clients (cs_world s) i) \<in> live_connections (client_history (cs_world s))) \<and>
    (UdpClient_is_running i (cs_world s) \<longrightarrow> uc_conn (udp_clients (cs_world s) i) \<noteq> 0) \<and>
    (UdpClient_connect st i addr port (cs_world s) = Inl Terminate \<longleftrightarrow>
      \<not> UdpClient_is_running i (cs_world s) \<and> cs_net s \<noteq> Net_none)"
proof -
  have ok: "client_system_ok i s" by (rule client_reachable_ok [OF assms])
  then have w: "client_world_ok i (cs_world s)" by (simp add: client_system_ok_def)
  obtain v where "UdpClient_poll st i (cs_world s) = Inr v" by (rule client_poll_ok [OF assms(1) w])
  moreover have "UdpClient_connect st i addr port (cs_world s) = Inl Terminate \<longleftrightarrow>
      \<not> UdpClient_is_running i (cs_world s) \<and> uc_network_thread (udp_clients (cs_world s) i)"
    by (auto simp: UdpClient_connect_def try_connect_eq Let_def UdpClient_is_running_def)
  ultimately show ?thesis
    using ok w by (simp add: client_system_ok_def client_world_ok_def UdpClient_is_running_def)
qed

theorem client_threads_safe_witness:
  "\<exists>s :: nat client_system. cs_net s = Net_check \<and> UdpClient_is_running 0 (cs_world s) \<and>
    uc_conn (udp_clients (cs_world s) 0) \<in> live_connections (client_history (cs_world s)) \<and>
    (\<exists>w. UdpClient_poll (sample_steam [\<lparr>sm_conn = 1, sm_data = [1, 2]\<rparr>] [closed_event 2, connected_event 1]) 0 (cs_world s) = Inr w)"
  using client_threads_safe [OF sample_connections_ok sample_client_reachable,
      of "[\<lparr>sm_conn = 1, sm_data = [1, 2]\<rparr>]" "[closed_event 2, connected_event 1]"]
  by (intro exI [of _ "\<lparr>cs_world = sample_client_world, cs_net = Net_check, cs_app = App_idle\<rparr>"])
    (simp add: sample_client_fields UdpClient_is_running_def)

section \<open>Connecting\<close>

text \<open>
  C20: \<^verbatim>\<open>connect\<close> of a client that is not running and whose thread is joined: it succeeds exactly
  when the string \<^verbatim>\<open>address:port\<close> parses and Steam yields a connection. The handle is the one Steam answered, 0 when it refused, and is left as
  it was when the string does not parse. Either way the network
  thread is started and the client becomes the receiver of the process's events; running flag,
  status and handle tell the outcome.
\<close>

theorem client_connect_contract:
  assumes "\<not> uc_running (udp_clients w i)" and "\<not> uc_network_thread (udp_clients w i)"
  shows "\<exists>w' ok. UdpClient_connect st i addr port w = Inr (ok, w') \<and>
    (ok \<longleftrightarrow> (\<exists>a. parse_string st (c_str (addr @ '':'' @ decimal (unat port))) = Some a \<and>
                  connect_by_ip st (client_history w) a \<noteq> 0)) \<and>
    UdpClient_is_running i w' = ok \<and>
    UdpClient_get_connection_status i w' = (if ok then Connecting else Failed_to_connect) \<and>
    (ok \<longrightarrow> uc_conn (udp_clients w' i) \<noteq> 0 \<and>
       (\<exists>a. client_history w' = client_history w @ [ConnectByIPAddress a (uc_conn (udp_clients w' i))])) \<and>
    uc_conn (udp_clients w' i) =
      (case parse_string st (c_str (addr @ '':'' @ decimal (unat port))) of
         None \<Rightarrow> uc_conn (udp_clients w i)
       | Some a \<Rightarrow> connect_by_ip st (client_history w) a) \<and>
    uc_network_thread (udp_clients w' i) \<and> client_instance w' = Some i \<and>
    (\<forall>j. j \<noteq> i \<longrightarrow> udp_clients w' j = udp_clients w j)"
proof -
  obtain ok w' where c: "UdpClient_connect st i addr port w = Inr (ok, w')"
    using assms by (auto simp: UdpClient_connect_def try_connect_eq Let_def)
  note eq = connect_idle_eq [OF assms(1) c]
  have "ok \<longleftrightarrow> (\<exists>a. parse_string st (c_str (addr @ '':'' @ decimal (unat port))) = Some a \<and>
                  connect_by_ip st (client_history w) a \<noteq> 0)"
    using eq(2) by (auto simp: attempt_ok_def attempt_def address_with_port_def split: option.splits)
  moreover have "ok \<longrightarrow> uc_conn (udp_clients w' i) \<noteq> 0 \<and>
       (\<exists>a. client_history w' = client_history w @ [ConnectByIPAddress a (uc_conn (udp_clients w' i))])"
    using eq(2,4,10) by (auto simp: attempt_ok_def)
  moreover have "uc_conn (udp_clients w' i) =
      (case parse_string st (c_str (addr @ '':'' @ decimal (unat port))) of
         None \<Rightarrow> uc_conn (udp_clients w i)
       | Some a \<Rightarrow> connect_by_ip st (client_history w) a)"
    using eq(10) by (simp add: attempt_def address_with_port_def split: option.split)
  ultimately show ?thesis
    using c eq by (intro exI [of _ w'] exI [of _ ok])
      (simp add: UdpClient_is_running_def UdpClient_get_connection_status_def)
qed

theorem client_connect_contract_witness:
  "\<exists>w' ok. UdpClient_connect (sample_steam [] []) 0 ''::1'' 80 fresh_client_world = Inr (ok, w') \<and>
    ok \<and> UdpClient_get_connection_status 0 w' = Connecting"
  using client_connect_contract [of fresh_client_world 0 "sample_steam [] []" "''::1''" 80]
  by (auto simp: sample_client_fields sample_steam_simps c_str_def)

text \<open>
  A failed \<^verbatim>\<open>connect\<close> poisons the client: the thread it started is never joined, since \<^verbatim>\<open>stop\<close>
  returns early, so the next \<^verbatim>\<open>connect\<close> and the destructor both end the process.
\<close>

lemma client_failed_connect_poisons:
  assumes "UdpClient_connect st i addr port w = Inr (False, w')" and "\<not> uc_running (udp_clients w i)"
  shows "UdpClient_connect st i addr' port' w' = Inl Terminate \<and>
    UdpClient_delete caller i w' = Inl Terminate \<and>
    (\<exists>w''. UdpClient_stop caller i w' = Inr w'' \<and> UdpClient_connect st i addr' port' w'' = Inl Terminate)"
  using connect_idle_eq(5,6) [OF assms(2,1)]
  by (auto simp: UdpClient_connect_def UdpClient_delete_def UdpClient_stop_def UdpClient_stop_begin_def
      try_connect_eq Let_def)

lemma client_failed_connect_poisons_witness:
  "\<exists>w'. UdpClient_connect ((sample_steam [] [])\<lparr>parse_string := \<lambda>s. None\<rparr>) 0 ''nowhere'' 80 fresh_client_world = Inr (False, w') \<and>
    UdpClient_delete Client_app 0 w' = Inl Terminate"
proof -
  let ?st = "(sample_steam [] [])\<lparr>parse_string := \<lambda>s. None\<rparr>"
  obtain w' where "UdpClient_connect ?st 0 ''nowhere'' 80 fresh_client_world = Inr (False, w')"
    by (simp add: UdpClient_connect_def try_connect_eq Let_def attempt_def attempt_ok_def sample_client_fields)
  with client_failed_connect_poisons [OF this, of "''nowhere''" 80 Client_app] show ?thesis
    by (simp add: sample_client_fields)
qed

section \<open>The connection status\<close>

text \<open>
  C19: The events of one poll drive the client like an abstract machine: the status is the fold of
  the transitions, a closing event stops the client and clears its handle, every closing event
  closes its connection once, and no event can leave the status \<^verbatim>\<open>failed_to_connect\<close>, although the
  handler assigns it.
\<close>

theorem client_status_machine:
  assumes "client_instance w = Some i" and "uc_interface (udp_clients w i)"
  shows "\<exists>w'. client_dispatch evs w = Inr w' \<and>
    UdpClient_get_connection_status i w' = fold status_step evs (UdpClient_get_connection_status i w) \<and>
    (UdpClient_is_running i w' \<longleftrightarrow> UdpClient_is_running i w \<and> (\<forall>ev \<in> set evs. \<not> closing ev)) \<and>
    uc_conn (udp_clients w' i) = (if \<exists>ev \<in> set evs. closing ev then 0 else uc_conn (udp_clients w i)) \<and>
    client_history w' = client_history w @
      map (\<lambda>ev. CloseConnection (sc_hConn ev) 0 None False) (filter closing evs) \<and>
    (UdpClient_get_connection_status i w \<noteq> Failed_to_connect \<longrightarrow>
     UdpClient_get_connection_status i w' \<noteq> Failed_to_connect)"
proof -
  have calls: "map close_call (filter closing evs) =
      map (\<lambda>ev. CloseConnection (sc_hConn ev) 0 None False) (filter closing evs)"
    by (simp add: close_call_def)
  have step: "status_step ev s \<noteq> Failed_to_connect" if "s \<noteq> Failed_to_connect" for ev s
    using that by (cases "sc_eState ev") (simp_all add: status_step_def)
  have never: "fold status_step evs s \<noteq> Failed_to_connect" if "s \<noteq> Failed_to_connect" for s
    using that by (induction evs arbitrary: s) (simp_all add: step)
  show ?thesis
    unfolding client_dispatch_eq [OF assms] calls
    by (simp add: UdpClient_get_connection_status_def UdpClient_is_running_def fold_after_event_fields never)
      (auto simp: list_all_iff)
qed

theorem client_status_machine_witness:
  "\<exists>w'. client_dispatch [connected_event 1, closed_event 1] sample_client_world = Inr w' \<and>
    UdpClient_get_connection_status 0 w' = Disconnected \<and> \<not> UdpClient_is_running 0 w'"
  using client_status_machine [of sample_client_world 0 "[connected_event 1, closed_event 1]"]
  by (auto simp: sample_client_fields connected_event_def closed_event_def status_step_def closing_def)

text \<open>
  A connection the peer closes poisons the client in the same way: the client is no longer
  running, so nobody joins its network thread; reconnecting, or destroying the client, ends the
  process.
\<close>

lemma client_lost_connection_poisons:
  assumes "client_instance w = Some i" and "uc_interface (udp_clients w i)" and "uc_network_thread (udp_clients w i)"
    and "closing ev" and "ev \<in> set evs" and "client_dispatch evs w = Inr w'"
  shows "\<not> UdpClient_is_running i w' \<and>
    UdpClient_connect st i addr port w' = Inl Terminate \<and> UdpClient_delete caller i w' = Inl Terminate"
proof -
  have "\<not> uc_running (udp_clients w' i)" and "uc_network_thread (udp_clients w' i)"
    using assms by (auto simp: client_dispatch_eq [OF assms(1,2)] fold_after_event_fields list_all_iff)
  then show ?thesis
    by (auto simp: UdpClient_is_running_def UdpClient_connect_def UdpClient_delete_def UdpClient_stop_def
        UdpClient_stop_begin_def try_connect_eq Let_def)
qed

lemma client_lost_connection_poisons_witness:
  "\<exists>w'. client_dispatch [closed_event 1] sample_client_world = Inr w' \<and>
    UdpClient_connect (sample_steam [] []) 0 ''::1'' 80 w' = Inl Terminate"
proof -
  obtain w' where "client_dispatch [closed_event 1] sample_client_world = Inr w'"
    using client_dispatch_eq [of sample_client_world 0 "[closed_event 1]"] by (auto simp: sample_client_fields)
  then show ?thesis
    using client_lost_connection_poisons [of sample_client_world 0 "closed_event 1" "[closed_event 1]" w'
        "sample_steam [] []" "''::1''" 80 Client_app]
    by (simp add: sample_client_fields closing_def closed_event_def)
qed

lemma live_other_closes:
  assumes "\<forall>ev \<in> set evs. closing ev \<longrightarrow> sc_hConn ev \<noteq> c"
  shows "c \<in> live_connections (h @ map close_call (filter closing evs)) \<longleftrightarrow> c \<in> live_connections h"
  using assms
proof (induction evs rule: rev_induct)
  case (snoc ev evs)
  then show ?case
    using live_connections_simps(2) [of "h @ map close_call (filter closing evs)" "close_call ev"]
    by (auto simp: close_call_def simp del: append_assoc simp: append_assoc [symmetric])
qed simp

text \<open>
  C31: The handler does not ask which connection a closing event is about. A batch with a closing event,
  none of them about the client's own connection, makes the client drop it all the same: the handle is 0
  and the client no longer runs, while the connection stays open in Steam. Nothing closes it afterwards:
  \<^verbatim>\<open>stop\<close> makes no call, nothing can be sent, and with its thread unjoined the client cannot reconnect.
\<close>

theorem client_stale_close_leaks:
  assumes "client_instance w = Some i" and "uc_interface (udp_clients w i)"
    and "uc_conn (udp_clients w i) \<in> live_connections (client_history w)"
    and "\<exists>ev \<in> set evs. closing ev" and "\<forall>ev \<in> set evs. closing ev \<longrightarrow> sc_hConn ev \<noteq> uc_conn (udp_clients w i)"
  shows "\<exists>w'. client_dispatch evs w = Inr w' \<and>
    uc_conn (udp_clients w' i) = 0 \<and> \<not> UdpClient_is_running i w' \<and>
    uc_conn (udp_clients w i) \<in> live_connections (client_history w') \<and>
    (\<exists>w''. UdpClient_stop caller i w' = Inr w'' \<and> client_history w'' = client_history w') \<and>
    UdpClient_send_raw st i bytes len reliable w' = (False, w') \<and>
    (uc_network_thread (udp_clients w i) \<longrightarrow>
      UdpClient_connect st i addr port w' = Inl Terminate \<and> UdpClient_delete caller i w' = Inl Terminate)"
proof -
  obtain w' where run: "client_dispatch evs w = Inr w'" using client_dispatch_eq [OF assms(1,2), of evs] by blast
  have conn: "uc_conn (udp_clients w' i) = 0" and stopped: "\<not> uc_running (udp_clients w' i)"
    and thread: "uc_network_thread (udp_clients w' i) = uc_network_thread (udp_clients w i)"
    using run assms(4) by (auto simp: client_dispatch_eq [OF assms(1,2)] fold_after_event_fields list_all_iff)
  have "client_history w' = client_history w @ map close_call (filter closing evs)"
    using run by (auto simp: client_dispatch_eq [OF assms(1,2)] client_history_def)
  then have "uc_conn (udp_clients w i) \<in> live_connections (client_history w')"
    using assms(3,5) live_other_closes [of evs "uc_conn (udp_clients w i)"] by simp
  with run conn stopped thread show ?thesis
    by (auto simp: UdpClient_is_running_def UdpClient_connect_def UdpClient_delete_def UdpClient_stop_def
        UdpClient_stop_begin_def UdpClient_send_raw_def try_connect_eq Let_def handle_defs client_history_def)
qed

theorem client_stale_close_leaks_witness:
  "\<exists>w'. client_dispatch [closed_event 2] sample_client_world = Inr w' \<and> 1 \<in> live_connections (client_history w') \<and>
    uc_conn (udp_clients w' 0) = 0 \<and> UdpClient_connect (sample_steam [] []) 0 ''::1'' 80 w' = Inl Terminate"
  using client_stale_close_leaks [of sample_client_world 0 "[closed_event 2]" Client_app "sample_steam [] []" "[]" 0 True
      "''::1''" 80]
  by (auto simp: sample_client_fields sample_live closing_def closed_event_def)

section \<open>Stop, receive and send\<close>

text \<open>
  C28: \<^verbatim>\<open>stop\<close> of a running client on another thread joins the network thread and closes the
  connection once; it is idempotent and leaves the client ready for a new \<^verbatim>\<open>connect\<close>. The status is
  not reset: a client that was connected still reports so.
\<close>

theorem client_stop_contract:
  assumes "uc_running (udp_clients w i)" and "uc_conn (udp_clients w i) \<noteq> 0" and "caller \<noteq> Client_network i"
  shows "\<exists>w'. UdpClient_stop caller i w = Inr w' \<and>
    client_history w' = client_history w @
      [CloseConnection (uc_conn (udp_clients w i)) 0 (Some ''UdpClient disconnecting'') True] \<and>
    \<not> UdpClient_is_running i w' \<and> uc_conn (udp_clients w' i) = 0 \<and> \<not> uc_network_thread (udp_clients w' i) \<and>
    client_instance w' = None \<and>
    UdpClient_get_connection_status i w' = UdpClient_get_connection_status i w \<and>
    (\<forall>j. j \<noteq> i \<longrightarrow> udp_clients w' j = udp_clients w j) \<and>
    (\<exists>w''. UdpClient_stop caller i w' = Inr w'' \<and> client_history w'' = client_history w') \<and>
    UdpClient_connect st i addr port w' \<noteq> Inl Terminate"
proof (cases "uc_network_thread (udp_clients w i)")
  case True
  then show ?thesis
    using assms
    by (simp add: UdpClient_stop_def UdpClient_stop_begin_def UdpClient_is_running_def
        UdpClient_get_connection_status_def UdpClient_connect_def try_connect_eq Let_def)
next
  case False
  then show ?thesis
    using assms
    by (simp add: UdpClient_stop_def UdpClient_stop_begin_def UdpClient_is_running_def
        UdpClient_get_connection_status_def UdpClient_connect_def try_connect_eq Let_def)
qed

theorem client_stop_contract_witness:
  "\<exists>w'. UdpClient_stop Client_app 0 sample_client_world = Inr w' \<and>
    client_history w' = [ConnectByIPAddress sample_addr 1, CloseConnection 1 0 (Some ''UdpClient disconnecting'') True] \<and>
    UdpClient_get_connection_status 0 w' = Connecting"
  using client_stop_contract [of sample_client_world 0 Client_app "sample_steam [] []" "''::1''" 80]
  by (auto simp: sample_client_fields UdpClient_get_connection_status_def)

text \<open>
  C29: One poll of the messages of a client: the at most 16 messages Steam returns reach the data
  callback in the order of arrival, with the client's own connection and their exact bytes, and
  only after the last one was handled all of them are released, in the same order.
\<close>

theorem client_poll_delivers:
  assumes "uc_interface (udp_clients w i)" and "connection_messages_ok st"
    and "uc_conn (udp_clients w i) \<in> live_connections (client_history w)"
    and "uc_on_data_received (udp_clients w i) = Some (\<lambda>m e. Inr (f m e))"
  shows "let conn = uc_conn (udp_clients w i);
             ms = snd (receive_on_connection st (client_history w) conn 16);
             e = log_call (ReceiveMessagesOnConnection conn 16) (cenv w);
             e' = fold (\<lambda>m. f \<lparr>msg_conn = conn, msg_buffer = sm_data m\<rparr>) ms e in
         length ms \<le> 16 \<and>
         UdpClient_poll_messages st i w = Inr (w\<lparr>cenv := e'\<lparr>calls := calls e' @ map ReleaseMessage ms\<rparr>\<rparr>)"
proof -
  let ?f = "\<lambda>m e. Inr (f m e)"
  have "each_message (client_deliver ?f i) ms (client_log c w) =
      Inr ((client_log c w)\<lparr>cenv := fold (\<lambda>m. f \<lparr>msg_conn = uc_conn (udp_clients w i), msg_buffer = sm_data m\<rparr>) ms
        (log_call c (cenv w))\<rparr>)" for ms c
    using each_message_deliver [of ?f f i ms "client_log c w"] by simp
  then show ?thesis
    using poll_messages_eq [OF assms(1-3)] assms(4)
    by (simp add: Let_def each_message_release client_history_def client_log_def)
qed

theorem client_poll_delivers_witness:
  "\<exists>w'. UdpClient_poll_messages (sample_steam [\<lparr>sm_conn = 1, sm_data = [1, 2]\<rparr>, \<lparr>sm_conn = 1, sm_data = [3]\<rparr>] []) 0
      sample_client_world = Inr w' \<and> app (cenv w') = 3"
  using client_poll_delivers [of sample_client_world 0
      "sample_steam [\<lparr>sm_conn = 1, sm_data = [1, 2]\<rparr>, \<lparr>sm_conn = 1, sm_data = [3]\<rparr>] []" count_bytes]
  by (simp add: sample_client_fields sample_live sample_connections_ok Let_def sample_steam_simps
      first_time_def count_bytes_def)

text \<open>
  C38: \<^verbatim>\<open>send_raw\<close> without an interface or a connection returns false and makes no call; otherwise it
  makes one, whose result it reports. A length of 4 GiB or more is cut modulo \<open>2 ^ 32\<close>.
\<close>

theorem client_send_contract:
  assumes "UdpClient_send_raw st i bytes len reliable w = (ok, w')"
  shows "let c = udp_clients w i;
             sent = SendMessageToConnection (uc_conn c) (take (len mod 2 ^ 32) bytes)
                      (if reliable then Send_Reliable else Send_Unreliable) in
         udp_clients w' = udp_clients w \<and>
         (if uc_interface c \<and> uc_conn c \<noteq> 0
          then client_history w' = client_history w @ [sent] \<and>
            (ok \<longleftrightarrow> send_message st (client_history w) (uc_conn c) (take (len mod 2 ^ 32) bytes)
                     (if reliable then Send_Reliable else Send_Unreliable) = EResultOK)
          else \<not> ok \<and> w' = w)"
proof -
  have "unat (of_nat len :: u32) = len mod 2 ^ 32"
    by (simp add: unat_of_nat)
  then show ?thesis
    using assms by (auto simp: UdpClient_send_raw_def Let_def handle_defs split: if_splits)
qed

theorem client_send_contract_witness:
  "\<exists>w'. UdpClient_send_raw (sample_steam [] []) 0 [1, 2] 2 True sample_client_world = (True, w') \<and>
    client_history w' = client_history sample_client_world @ [SendMessageToConnection 1 [1, 2] Send_Reliable]"
proof -
  obtain ok w' where "UdpClient_send_raw (sample_steam [] []) 0 [1, 2] 2 True sample_client_world = (ok, w')"
    by fastforce
  with client_send_contract [OF this] show ?thesis
    by (simp add: sample_client_fields Let_def sample_steam_simps)
qed

section \<open>Two clients\<close>

text \<open>
  Two clients in one process share the static instance pointer. When the peer closes the
  connection of the first, the event goes to the second, which connected last: it stops and drops
  its own, healthy connection without closing it, while the first keeps a handle Steam no longer
  knows, and its next poll reads an array slot that was never written.
\<close>

lemma client_cross_talk:
  assumes "client_instance w = Some j" and "uc_interface (udp_clients w j)" and "i \<noteq> j"
    and "uc_running (udp_clients w i)" and "uc_interface (udp_clients w i)"
    and "uc_conn (udp_clients w i) \<noteq> 0" and "uc_conn (udp_clients w i) \<noteq> uc_conn (udp_clients w j)"
    and "uc_conn (udp_clients w j) \<in> live_connections (client_history w)"
    and "closing ev" and "sc_hConn ev = uc_conn (udp_clients w i)" and "connection_messages_ok st"
  shows "\<exists>w'. client_dispatch [ev] w = Inr w' \<and>
    uc_conn (udp_clients w' j) = 0 \<and> \<not> UdpClient_is_running j w' \<and>
    uc_conn (udp_clients w j) \<in> live_connections (client_history w') \<and>
    UdpClient_is_running i w' \<and> UdpClient_poll st i w' = Inl Uninitialised_read"
proof -
  obtain w' where w': "client_dispatch [ev] w = Inr w'"
    and j: "udp_clients w' j = after_event ev (udp_clients w j)"
    and i: "udp_clients w' i = udp_clients w i"
    and h: "client_history w' = client_history w @ [close_call ev]"
    using client_dispatch_eq [OF assms(1,2), of "[ev]"] assms(3,9) by simp
  have live: "live_connections (client_history w') = live_connections (client_history w) - {uc_conn (udp_clients w i)}"
    using assms(10) by (simp add: h close_call_def)
  have "UdpClient_poll_messages st i w' = Inl Uninitialised_read"
    by (rule poll_messages_dead) (simp_all add: i live assms)
  then show ?thesis
    using w' assms(4,7,8,9) by (simp add: UdpClient_is_running_def UdpClient_poll_def i j live)
qed

lemma client_cross_talk_witness:
  "\<exists>w'. client_dispatch [closed_event 2]
      (sample_client_world\<lparr>udp_clients := (udp_clients sample_client_world)(1 := sample_udp_client\<lparr>uc_conn := 2\<rparr>),
         cenv := \<lparr>calls = [ConnectByIPAddress sample_addr 2, ConnectByIPAddress sample_addr 1], app = 0\<rparr>\<rparr>) = Inr w' \<and>
    UdpClient_poll (sample_steam [] []) 1 w' = Inl Uninitialised_read"
proof -
  let ?w = "sample_client_world\<lparr>udp_clients := (udp_clients sample_client_world)(1 := sample_udp_client\<lparr>uc_conn := 2\<rparr>),
         cenv := \<lparr>calls = [ConnectByIPAddress sample_addr 2, ConnectByIPAddress sample_addr 1], app = 0\<rparr>\<rparr>"
  have "live_connections [ConnectByIPAddress sample_addr 2, ConnectByIPAddress sample_addr 1] = {1, 2}"
    by (simp add: live_connections_def insert_commute)
  then show ?thesis
    using client_cross_talk [of ?w 0 1 "closed_event 2" "sample_steam [] []"]
    by (auto simp: sample_client_fields closing_def closed_event_def sample_connections_ok)
qed

end
