(* ===== verification/Packet_Properties.thy ===== *)
theory Packet_Properties
  imports Packet_Server Packet_Client Server_Properties Client_Properties Wire_Properties
begin

text \<open>
  The properties of packet server and packet client: which packets reach which handler, the handler
  tables, and the way of an object from one process to the other.
\<close>

section \<open>Concrete packet objects\<close>

text \<open>A handler that adds the byte it receives to the user's state, a number.\<close>

definition add_byte_server :: "(u8, nat) server_packet_handler" where
  "add_byte_server c p e = Inr (e\<lparr>app := app e + unat p\<rparr>)"

abbreviation sample_serde :: "(u8, u8, u8 list) serializer" where
  "sample_serde \<equiv> msgpack_serializer sample_buffer sample_msgpack"

definition sample_server_env :: "(u8, nat) packet_env" where
  "sample_server_env =
     \<lparr>calls = [],
      app = \<lparr>packet_servers = (\<lambda>_. \<lparr>ps_alive = True, ps_handlers = [42 \<mapsto> Some add_byte_server]\<rparr>), ps_user = 0\<rparr>\<rparr>"

section \<open>Dispatch\<close>

text \<open>
  C5: \<^verbatim>\<open>handle_packet\<close> of the server on arbitrary bytes. With handlers that return, it returns: true
  exactly when the bytes are a header of the server's own serialization with a bound type, followed
  by a payload that decodes; then that type's handler ran once, on the sender's connection and that
  payload. In every other case nothing at all changes.
\<close>

theorem server_handle_packet_exact:
  assumes "\<And>t. ps_handlers (packet_servers (app e) i) t = map_option (\<lambda>h. Some (\<lambda>c p u. Inr (h c p u))) (table t)"
  shows "\<exists>ok e'. UdpPacketServer_handle_packet S i client bytes (length bytes) e = Inr (ok, e') \<and>
    (ok \<longleftrightarrow> (\<exists>t body h p. bytes = header_wire (traits_serde S) t @ body \<and> table t = Some h \<and>
       deserialize_packet S body (length body) = Some p)) \<and>
    (\<not> ok \<longrightarrow> e' = e) \<and>
    (\<forall>t body h p. bytes = header_wire (traits_serde S) t @ body \<and> table t = Some h \<and>
       deserialize_packet S body (length body) = Some p \<longrightarrow>
       (let u = h (ci_conn client) p \<lparr>calls = calls e, app = ps_user (app e)\<rparr> in
        e' = \<lparr>calls = calls u, app = (app e)\<lparr>ps_user := app u\<rparr>\<rparr>))"
proof (cases "\<exists>s t body. bytes = header_wire s t @ body")
  case False
  then have "UdpPacketServer_handle_packet S i client bytes (length bytes) e = Inr (False, e)"
    by (intro handle_packet_other) blast
  with False show ?thesis by blast
next
  case True
  then obtain s t body where b: "bytes = header_wire s t @ body" by blast
  have run: "UdpPacketServer_handle_packet S i client bytes (length bytes) e =
    (if s \<noteq> traits_serde S then Inr (False, e)
     else case table t of None \<Rightarrow> Inr (False, e)
     | Some h \<Rightarrow> (case deserialize_packet S body (length body) of
         None \<Rightarrow> Inr (False, e)
       | Some p \<Rightarrow> let u = h (ci_conn client) p \<lparr>calls = calls e, app = ps_user (app e)\<rparr> in
           Inr (True, \<lparr>calls = calls u, app = (app e)\<lparr>ps_user := app u\<rparr>\<rparr>)))"
    using handle_packet_wire [of S i client s t body e] assms [of t]
    by (auto simp: b call_server_handler_def run_user_def Let_def split: option.split)
  have only: "bytes = header_wire s' t' @ body' \<longleftrightarrow> s' = s \<and> t' = t \<and> body' = body" for s' t' body'
    by (auto simp: b)
  show ?thesis
    unfolding run only by (auto simp: Let_def split: option.split)
qed

theorem server_handle_packet_exact_witness:
  "\<exists>e'. UdpPacketServer_handle_packet sample_serde 0 (sample_client 5)
      (header_wire serde_msgpack 42 @ [0xCC, 7]) 10 sample_server_env = Inr (True, e') \<and>
    ps_user (app e') = 7"
proof -
  have "\<And>t. ps_handlers (packet_servers (app sample_server_env) 0) t =
      map_option (\<lambda>h. Some (\<lambda>c p u. Inr (h c p u)))
        ((if t = 42 then Some (\<lambda>c p e. e\<lparr>app := app e + unat p\<rparr>) else None) :: (kb_connection_t \<Rightarrow> u8 \<Rightarrow> nat env \<Rightarrow> nat env) option)"
    by (simp add: sample_server_env_def add_byte_server_def fun_eq_iff)
  from server_handle_packet_exact [OF this, of sample_serde "sample_client 5" "header_wire serde_msgpack 42 @ [0xCC, 7]"]
  show ?thesis
    by (auto simp: msgpack_serializer_def msgpack_deserialize_packet_internal_def sample_msgpack_def
        Let_def sample_server_env_def)
qed

section \<open>Handler tables\<close>

text \<open>
  C34: The handler tables. On packet server and packet client alike, binding a list of handlers one by
  one leaves for every type the handler that was there before, else the first of the list for it;
  later ones are refused and change nothing; after an unbind the type can be bound again, and no
  other type is affected.
\<close>

theorem handler_tables:
  "ps_handlers (packet_servers (app (snd (server_handlers.bind_all i bs e))) i) t =
     (case ps_handlers (packet_servers (app e) i) t of Some h \<Rightarrow> Some h | None \<Rightarrow> map_of bs t) \<and>
   \<not> fst (UdpPacketServer_bind_packet_handler i t h' (snd (UdpPacketServer_bind_packet_handler i t h e))) \<and>
   fst (UdpPacketServer_bind_packet_handler i t h (UdpPacketServer_unbind_packet_handler i t e)) \<and>
   ps_handlers (packet_servers (app (UdpPacketServer_unbind_packet_handler i t e)) i) k =
     (if k = t then None else ps_handlers (packet_servers (app e) i) k) \<and>
   pc_handlers (packet_clients (app (snd (client_handlers.bind_all i cs c))) i) t =
     (case pc_handlers (packet_clients (app c) i) t of Some g \<Rightarrow> Some g | None \<Rightarrow> map_of cs t) \<and>
   \<not> fst (UdpPacketClient_bind_packet_handler i t g' (snd (UdpPacketClient_bind_packet_handler i t g c))) \<and>
   fst (UdpPacketClient_bind_packet_handler i t g (UdpPacketClient_unbind_packet_handler i t c)) \<and>
   pc_handlers (packet_clients (app (UdpPacketClient_unbind_packet_handler i t c)) i) k =
     (if k = t then None else pc_handlers (packet_clients (app c) i) k)"
  by (intro conjI server_handlers.bound_bind_all server_handlers.bind_twice(1) server_handlers.rebind_after_unbind(1)
      server_handlers.bound_unbind client_handlers.bound_bind_all client_handlers.bind_twice(1)
      client_handlers.rebind_after_unbind(1) client_handlers.bound_unbind)

section \<open>From object to handler\<close>

text \<open>
  An object sent by a msgpack client reaches the msgpack server's handler. The client makes one
  call, to its own connection; when the bytes of that call arrive at a server that knows the sender
  and has a handler for the type, the handler runs exactly once, on the sender's connection and a
  payload that converts to the sent object.
\<close>

lemma msgpack_client_to_server:
  fixes v :: "('p, 'a) packet_world" and w :: "'w client_world"
  assumes "owning_buffer_ok ob" and "msgpack_ok mp" and "8 + length (mp_pack mp x) < 2 ^ 32"
    and "uc_interface (udp_clients w i)" and "uc_conn (udp_clients w i) \<noteq> 0"
    and "ps_alive (packet_servers (app (senv v)) k)"
    and "ps_handlers (packet_servers (app (senv v)) k) t = Some (Some h)"
    and "us_on_data (servers v k) = Some (UdpPacketServer_on_data (msgpack_serializer ob mp) k)"
    and "UdpServer_get_client_info k c v = Some ci"
  shows "\<exists>ok w' bytes p.
    UdpPacketClient_send_packet st ob (msgpack_serializer ob mp) junk i t x reliable w = Inr (ok, w') \<and>
    client_history w' = client_history w @ [SendMessageToConnection (uc_conn (udp_clients w i)) bytes
      (if reliable then Send_Reliable else Send_Unreliable)] \<and>
    mp_convert mp p = Some x \<and>
    UdpServer_deliver k \<lparr>sm_conn = c, sm_data = bytes\<rparr> v =
      run_env (run_user ps_user (\<lambda>u a. a\<lparr>ps_user := u\<rparr>) (h (ci_conn ci) p)) v"
proof -
  let ?S = "msgpack_serializer ob mp" and ?bytes = "header_wire serde_msgpack t @ mp_pack mp x"
  have libs: "owning_buffer_ok ob \<and> msgpack_ok mp" and sz: "8 + length (mp_pack mp x) < 2 ^ 64"
    using assms(1-3) by simp_all
  have S: "traits_serde ?S = serde_msgpack" "payload_as ?S = mp_convert mp"
    by (simp_all add: msgpack_serializer_def msgpack_payload_as_internal_eq)
  have "unat (8 + of_nat (length (mp_pack mp x)) :: u32) = 8 + length (mp_pack mp x)"
    using u32_of_size [OF assms(3)] by simp
  then have "\<exists>ok w'. UdpPacketClient_send_packet st ob ?S junk i t x reliable w = Inr (ok, w') \<and>
    client_history w' = client_history w @ [SendMessageToConnection (uc_conn (udp_clients w i)) ?bytes
      (if reliable then Send_Reliable else Send_Unreliable)]"
    using msgpack.client_send [OF libs sz, of st junk i t reliable w] assms(4,5)
    by (simp add: S UdpClient_send_raw_def Let_def handle_defs)
  moreover obtain p where "payload_as ?S p = Some x" and run:
    "UdpPacketServer_handle_packet ?S k ci ?bytes (8 + length (mp_pack mp x)) (senv v) =
      bind_result (call_server_handler (Some h) (ci_conn ci) p (senv v)) (\<lambda>e. Inr (True, e))"
    by (rule msgpack.handled [OF libs, of "senv v" k t "Some h" x ci]) (use assms(7) S(1) in simp_all)
  ultimately show ?thesis
    using assms(6,8,9) S(2)
    by (auto simp: UdpServer_deliver_def UdpPacketServer_on_data_def run_env_def bind_result_assoc call_server_handler_def)
qed

definition sample_packet_world :: "(u8, nat) packet_world" where
  "sample_packet_world =
     \<lparr>servers = (\<lambda>_. udp_server_new\<lparr>us_clients := [(5, sample_client 5)],
        us_on_data := Some (UdpPacketServer_on_data sample_serde 0)\<rparr>),
      server_instance = Some 0, senv = sample_server_env\<rparr>"

lemma sample_packet_world_fields:
  "us_on_data (servers sample_packet_world 0) = Some (UdpPacketServer_on_data sample_serde 0)"
  "UdpServer_get_client_info 0 5 sample_packet_world = Some (sample_client 5)"
  "ps_alive (packet_servers (app (senv sample_packet_world)) 0)"
  "ps_handlers (packet_servers (app (senv sample_packet_world)) 0) 42 = Some (Some add_byte_server)"
  "ps_user (app (senv sample_packet_world)) = 0"
  by (simp_all add: sample_packet_world_def UdpServer_get_client_info_def sample_server_env_def udp_server_new_def
      )

lemma msgpack_client_to_server_witness:
  "\<exists>ok w' bytes v'.
    UdpPacketClient_send_packet (sample_steam [] []) sample_buffer sample_serde (\<lambda>_. 0) 0 42 9 True sample_client_world =
      Inr (ok, w') \<and>
    UdpServer_deliver 0 \<lparr>sm_conn = 5, sm_data = bytes\<rparr> sample_packet_world = Inr v' \<and>
    ps_user (app (senv v')) = 9"
proof -
  have size: "8 + length (mp_pack sample_msgpack (9 :: u8)) < 2 ^ 32" by (simp add: sample_msgpack_def)
  have "uc_interface (udp_clients sample_client_world 0)" and "uc_conn (udp_clients sample_client_world 0) \<noteq> 0"
    by (simp_all add: sample_client_fields)
  note client = msgpack_client_to_server [OF sample_buffer_ok sample_msgpack_ok size this sample_packet_world_fields(3,4,1,2),
      of "sample_steam [] []" "\<lambda>_. 0" True]
  then obtain ok w' bytes p where
    "UdpPacketClient_send_packet (sample_steam [] []) sample_buffer sample_serde (\<lambda>_. 0) 0 42 9 True sample_client_world =
      Inr (ok, w')"
    and "mp_convert sample_msgpack p = Some 9"
    and "UdpServer_deliver 0 \<lparr>sm_conn = 5, sm_data = bytes\<rparr> sample_packet_world =
      run_env (run_user ps_user (\<lambda>u a. a\<lparr>ps_user := u\<rparr>) (add_byte_server (ci_conn (sample_client 5)) p)) sample_packet_world"
    by blast
  then show ?thesis
    by (intro exI [of _ ok] exI [of _ w'] exI [of _ bytes])
      (simp add: sample_msgpack_def run_env_def run_user_def add_byte_server_def sample_packet_world_fields)
qed

end
