(* ===== verification/End_To_End.thy ===== *)
theory End_To_End
  imports Udp_Factories Packet_Properties Async_Properties
begin

text \<open>
  The whole way of a packet, between objects made by the functions of \<^verbatim>\<open>udp.hpp\<close>: from the object
  a client sends to the handler of the server, and from the bytes a client receives to the coroutine
  that waits for them.
\<close>

section \<open>Binary packets\<close>

text \<open>
  C39: A binary packet never reaches the handler of its type. Whatever type a binary client sends an
  object under, the packet arrives at the server's handler for type 0 (\<^verbatim>\<open>KB_PACKET_ID_UNKNOWN\<close>), with
  the bytes of the object; without such a handler nothing happens, although a handler for the sent
  type is bound.
\<close>

theorem binary_packet_reaches_unknown_handler:
  fixes v :: "(u8 list, 'a) packet_world" and w :: "'w client_world"
  assumes "owning_buffer_ok ob" and "pod_ok T" and "8 + pod_sizeof T < 2 ^ 32"
    and "uc_interface (udp_clients w i)" and "uc_conn (udp_clients w i) \<noteq> 0"
    and "ps_alive (packet_servers (app (senv v)) k)"
    and "us_on_data (servers v k) = Some (UdpPacketServer_on_data (binary_serializer ob T) k)"
    and "UdpServer_get_client_info k c v = Some ci"
  shows "\<exists>ok w' bytes.
    UdpPacketClient_send_packet st ob (binary_serializer ob T) junk i t x reliable w = Inr (ok, w') \<and>
    client_history w' = client_history w @ [SendMessageToConnection (uc_conn (udp_clients w i)) bytes
      (if reliable then Send_Reliable else Send_Unreliable)] \<and>
    UdpServer_deliver k \<lparr>sm_conn = c, sm_data = bytes\<rparr> v =
      (case ps_handlers (packet_servers (app (senv v)) k) KB_PACKET_ID_UNKNOWN of
         None \<Rightarrow> Inr v
       | Some h \<Rightarrow> run_env (call_server_handler h (ci_conn ci) (pod_bytes T x)) v)"
proof -
  let ?S = "binary_serializer ob T" and ?bytes = "header_wire serde_bin KB_PACKET_ID_UNKNOWN @ pod_bytes T x"
  have len: "length (pod_bytes T x) = pod_sizeof T" using assms(2) by (simp add: pod_ok_def)
  have libs: "owning_buffer_ok ob \<and> pod_ok T" and sz: "8 + length (pod_bytes T x) < 2 ^ 64"
    using assms(1-3) len by simp_all
  have S: "traits_serde ?S = serde_bin" "deserialize_packet ?S (pod_bytes T x) (pod_sizeof T) = Some (pod_bytes T x)"
    by (simp_all add: binary_serializer_def binary_deserialize_packet_internal_def len)
  have "unat (8 + of_nat (pod_sizeof T) :: u32) = 8 + pod_sizeof T"
    using u32_of_size [OF assms(3)] by simp
  then have "\<exists>ok w'. UdpPacketClient_send_packet st ob ?S junk i t x reliable w = Inr (ok, w') \<and>
    client_history w' = client_history w @ [SendMessageToConnection (uc_conn (udp_clients w i)) ?bytes
      (if reliable then Send_Reliable else Send_Unreliable)]"
    using binary.client_send [OF libs sz, of st junk i t reliable w] assms(4,5)
    by (simp add: S UdpClient_send_raw_def Let_def handle_defs len)
  moreover have "UdpServer_deliver k \<lparr>sm_conn = c, sm_data = ?bytes\<rparr> v =
      (case ps_handlers (packet_servers (app (senv v)) k) KB_PACKET_ID_UNKNOWN of
         None \<Rightarrow> Inr v
       | Some h \<Rightarrow> run_env (call_server_handler h (ci_conn ci) (pod_bytes T x)) v)"
    using assms(6-8) handle_packet_wire [of ?S k ci serde_bin KB_PACKET_ID_UNKNOWN "pod_bytes T x" "senv v"]
    by (simp add: S len UdpServer_deliver_def UdpPacketServer_on_data_def run_env_def bind_result_assoc
        split: option.split)
  ultimately show ?thesis by blast
qed

text \<open>A handler of the type that is sent, 42; it would set the user's number.\<close>

definition set_user :: "(u8 list, nat) server_packet_handler" where
  "set_user c p e = Inr (e\<lparr>app := 1\<rparr>)"

definition sample_binary_world :: "(u8 list, nat) packet_world" where
  "sample_binary_world =
     \<lparr>servers = (\<lambda>_. udp_server_new\<lparr>us_clients := [(5, sample_client 5)],
        us_on_data := Some (UdpPacketServer_on_data (binary_serializer sample_buffer sample_pod) 0)\<rparr>),
      server_instance = Some 0,
      senv = \<lparr>calls = [],
        app = \<lparr>packet_servers = (\<lambda>_. \<lparr>ps_alive = True, ps_handlers = [42 \<mapsto> Some set_user]\<rparr>), ps_user = 0\<rparr>\<rparr>\<rparr>"

theorem binary_packet_reaches_unknown_handler_witness:
  "\<exists>ok w' bytes.
    UdpPacketClient_send_packet (sample_steam [] []) sample_buffer (binary_serializer sample_buffer sample_pod)
      (\<lambda>_. 0) 0 42 9 True sample_client_world = Inr (ok, w') \<and>
    client_history w' = [ConnectByIPAddress sample_addr 1, SendMessageToConnection 1 bytes Send_Reliable] \<and>
    UdpServer_deliver 0 \<lparr>sm_conn = 5, sm_data = bytes\<rparr> sample_binary_world = Inr sample_binary_world"
proof -
  have size: "8 + pod_sizeof sample_pod < 2 ^ 32" by (simp add: sample_pod_def)
  have client: "uc_interface (udp_clients sample_client_world 0)" "uc_conn (udp_clients sample_client_world 0) \<noteq> 0"
    by (simp_all add: sample_client_fields)
  have server: "ps_alive (packet_servers (app (senv sample_binary_world)) 0)"
    "us_on_data (servers sample_binary_world 0) =
       Some (UdpPacketServer_on_data (binary_serializer sample_buffer sample_pod) 0)"
    "UdpServer_get_client_info 0 5 sample_binary_world = Some (sample_client 5)"
    "ps_handlers (packet_servers (app (senv sample_binary_world)) 0) KB_PACKET_ID_UNKNOWN = None"
    by (simp_all add: sample_binary_world_def UdpServer_get_client_info_def udp_server_new_def handle_defs)
  from binary_packet_reaches_unknown_handler [OF sample_buffer_ok sample_pod_ok size client server(1-3),
      of "sample_steam [] []" "\<lambda>_. 0" 42 9 True]
  show ?thesis by (simp add: server(4) sample_client_fields)
qed

section \<open>Packets that a coroutine waits for\<close>

text \<open>A packet that meets a waiter is taken by it and goes no further; any other packet goes to the
  handlers as if there were no async client.\<close>

lemma async_handle_message:
  assumes "pc_pre_handler (packet_clients (app e) i) = Some (async_pre_handler S i)"
    and "as_alive (pc_user (app e) i)"
  shows "UdpPacketClient_handle_message S i \<lparr>msg_conn = c, msg_buffer = header_wire (traits_serde S) t @ bytes\<rparr> e =
    (case awaiter_queue (pc_user (app e) i) t of
       [] \<Rightarrow> (case pc_handlers (packet_clients (app e) i) t of
          None \<Rightarrow> Inr (False, e)
        | Some handler \<Rightarrow> (case deserialize_packet S bytes (length bytes) of
             None \<Rightarrow> Inr (False, e)
           | Some payload \<Rightarrow> bind_result (call_client_handler handler payload e) (\<lambda>e. Inr (True, e))))
     | a # rest \<Rightarrow> Inr (True, e\<lparr>app := (app e)\<lparr>pc_user := (pc_user (app e))(i := (pc_user (app e) i)
         \<lparr>as_awaiters := (as_awaiters (pc_user (app e) i))(t \<mapsto>
             notified (deserialize_packet S bytes (length bytes)) a # rest),
           as_events_set := insert (aw_event a) (as_events_set (pc_user (app e) i))\<rparr>)\<rparr>\<rparr>))"
  using assms
  by (cases e) (simp add: handle_message_wire UdpPacketClient_pre_handle_def run_user_value_def async_pre_handler_def
      AsyncUdpPacketClient_on_data_received_pre_handler_def async_take_packet_eq split: list.split option.split)

text \<open>
  C22: From the bytes to the coroutine. On a msgpack client just made by
  \<^verbatim>\<open>create_async_msgpack_client\<close>, a coroutine waits for a type. A packet of another type that arrives
  is dropped without any change. A packet of that type sets the coroutine's event and nothing else
  happens outside; the resumed coroutine returns exactly the object that was packed, and its entry
  is gone, so that a further packet of the type is dropped.
\<close>

theorem async_client_end_to_end:
  assumes "owning_buffer_ok ob" and "msgpack_ok mp" and "t' \<noteq> t"
    and "w = create_async_msgpack_client ob mp i w0"
    and "AsyncUdpPacketClient_wait_begin i t (cenv w) = (event, e)"
  shows "\<exists>f e1 e2. uc_on_data_received (udp_clients w i) = Some f \<and>
    f \<lparr>msg_conn = c, msg_buffer = header_wire serde_msgpack t' @ mp_pack mp y\<rparr> e = Inr e \<and>
    f \<lparr>msg_conn = c, msg_buffer = header_wire serde_msgpack t @ mp_pack mp x\<rparr> e = Inr e1 \<and>
    calls e1 = calls e \<and> event \<in> as_events_set (pc_user (app e1) i) \<and>
    AsyncUdpPacketClient_wait_end (msgpack_serializer ob mp) i t e1 = (Some x, e2) \<and>
    f \<lparr>msg_conn = c, msg_buffer = header_wire serde_msgpack t @ mp_pack mp y\<rparr> e2 = Inr e2"
proof -
  let ?S = "msgpack_serializer ob mp"
  have S: "traits_serde ?S = serde_msgpack" "payload_as ?S = mp_convert mp"
    by (simp_all add: msgpack_serializer_def msgpack_payload_as_internal_eq)
  have libs: "owning_buffer_ok ob \<and> msgpack_ok mp" using assms(1,2) by simp
  obtain p where p: "deserialize_packet ?S (mp_pack mp x) (length (mp_pack mp x)) = Some p" "payload_as ?S p = Some x"
    by (rule msgpack.decodeE [OF libs])
  have f: "uc_on_data_received (udp_clients w i) = Some (UdpPacketClient_on_data ?S i)"
    and made: "packet_clients (app (cenv w)) i =
        \<lparr>pc_alive = True, pc_handlers = Map.empty, pc_pre_handler = Some (async_pre_handler ?S i)\<rparr>"
      "pc_user (app (cenv w)) i = async_client_new"
    by (simp_all add: assms(4) create_async_msgpack_client_def AsyncUdpPacketClient_create_def UdpPacketClient_create_def
        UdpClient_set_on_data_callback_def UdpPacketClient_register_on_data_received_pre_handler_callback_def
        udp_packet_client_new_def Let_def)
  define s where "s = snd (async_wait_begin t (async_client_new :: 'c async_client))"
  have e: "event = 0" "e = (cenv w)\<lparr>app := (app (cenv w))\<lparr>pc_user := (pc_user (app (cenv w)))(i := s)\<rparr>\<rparr>"
    using assms(5) by (simp_all add: AsyncUdpPacketClient_wait_begin_def made s_def async_wait_begin_eq async_client_new_def)
  have s: "as_alive s" "awaiter_queue s t = [\<lparr>aw_event = 0, aw_data = None\<rparr>]" "awaiter_queue s t' = []"
    using assms(3) by (simp_all add: s_def async_wait_begin_eq async_client_new_def awaiter_queue_def)
  define s1 where "s1 = s\<lparr>as_awaiters := (as_awaiters s)(t \<mapsto> [\<lparr>aw_event = 0, aw_data = Some p\<rparr>]),
      as_events_set := insert 0 (as_events_set s)\<rparr>"
  show ?thesis
    by (intro exI [of _ "UdpPacketClient_on_data ?S i"]
        exI [of _ "e\<lparr>app := (app e)\<lparr>pc_user := (pc_user (app e))(i := s1)\<rparr>\<rparr>"]
        exI [of _ "e\<lparr>app := (app e)\<lparr>pc_user := (pc_user (app e))
          (i := s1\<lparr>as_awaiters := (as_awaiters s1)(t \<mapsto> [])\<rparr>)\<rparr>\<rparr>"] conjI)
      (use f s p in \<open>simp_all add: e(1) UdpPacketClient_on_data_def made e(2) async_handle_message [of _ i ?S, unfolded S(1)]
         notified_def s1_def AsyncUdpPacketClient_wait_end_def async_wait_end_eq awaiter_queue_def\<close>)
qed

definition sample_async_world :: "(u8, nat \<Rightarrow> u8 async_client) packet_client_world" where
  "sample_async_world =
     \<lparr>udp_clients = (\<lambda>_. udp_client_new), client_instance = None,
      cenv = \<lparr>calls = [], app = \<lparr>packet_clients = (\<lambda>_. udp_packet_client_new), pc_user = (\<lambda>_. async_client_new)\<rparr>\<rparr>\<rparr>"

theorem async_client_end_to_end_witness:
  "\<exists>f e1 e2. uc_on_data_received
      (udp_clients (create_async_msgpack_client sample_buffer sample_msgpack 0 sample_async_world) 0) = Some f \<and>
    f \<lparr>msg_conn = 1, msg_buffer = header_wire serde_msgpack 42 @ [0xCC, 7]\<rparr>
      (snd (AsyncUdpPacketClient_wait_begin 0 42
        (cenv (create_async_msgpack_client sample_buffer sample_msgpack 0 sample_async_world)))) = Inr e1 \<and>
    AsyncUdpPacketClient_wait_end (msgpack_serializer sample_buffer sample_msgpack) 0 42 e1 = (Some 7, e2)"
proof -
  have ne: "(43 :: packet_type_t) \<noteq> 42" by simp
  obtain ev e where wait: "AsyncUdpPacketClient_wait_begin 0 42
      (cenv (create_async_msgpack_client sample_buffer sample_msgpack 0 sample_async_world)) = (ev, e)"
    by fastforce
  have pack: "mp_pack sample_msgpack x = [0xCC, x]" for x :: u8 by (simp add: sample_msgpack_def)
  from async_client_end_to_end [OF sample_buffer_ok sample_msgpack_ok ne refl wait, of 1 0 7]
  show ?thesis unfolding pack wait snd_conv by blast
qed

section \<open>Request and answer\<close>

text \<open>A handler of a server as in the README: it unpacks the object and sends an answer under type
  \<open>t\<close> to the connection it came from.\<close>

definition answering_handler ::
  "steam_api \<Rightarrow> 'b owning_buffer_api \<Rightarrow> ('o, 'p) msgpack_api \<Rightarrow> (nat \<Rightarrow> u8) \<Rightarrow> packet_type_t \<Rightarrow> ('o \<Rightarrow> 'o) \<Rightarrow>
   ('p, 'a) server_packet_handler" where
  "answering_handler st ob mp junk t reply conn p u =
     (case mp_convert mp p of
        None \<Rightarrow> Inr u
      | Some x \<Rightarrow> bind_result (UdpPacketServer_send st ob (msgpack_serializer ob mp) junk conn t (reply x) True u)
                    (\<lambda>(_, u). Inr u))"

lemma msgpack_traits:
  "traits_serde (msgpack_serializer ob mp) = serde_msgpack" "payload_as (msgpack_serializer ob mp) = mp_convert mp"
  by (simp_all add: msgpack_serializer_def msgpack_payload_as_internal_eq)

text \<open>What an answering handler does with the payload of a request.\<close>

lemma answering_handler_eq:
  assumes "owning_buffer_ok ob" and "msgpack_ok mp" and "8 + length (mp_pack mp (reply x)) < 2 ^ 32"
    and "mp_convert mp p = Some x"
  shows "answering_handler st ob mp junk t reply conn p u =
    Inr (log_call (SendMessageToConnection conn (header_wire serde_msgpack t @ mp_pack mp (reply x)) Send_Reliable) u)"
proof -
  have "owning_buffer_ok ob \<and> msgpack_ok mp" and "8 + length (mp_pack mp (reply x)) < 2 ^ 64"
    and "unat (8 + of_nat (length (mp_pack mp (reply x))) :: u32) = 8 + length (mp_pack mp (reply x))"
    using assms(1-3) u32_of_size [OF assms(3)] by simp_all
  then show ?thesis
    by (simp add: answering_handler_def assms(4) msgpack.server_send msgpack_traits UdpServer_send_def Let_def
        send_flags_def)
qed

text \<open>A message of a msgpack client without a pre-handler.\<close>

lemma msgpack_client_receives:
  assumes "owning_buffer_ok ob" and "msgpack_ok mp"
    and "pc_alive (packet_clients (app (cenv w)) i)" and "pc_pre_handler (packet_clients (app (cenv w)) i) = None"
    and "pc_handlers (packet_clients (app (cenv w)) i) t = Some (Some g)"
  obtains q where "mp_convert mp q = Some y"
    and "client_deliver (UdpPacketClient_on_data (msgpack_serializer ob mp) i) i
        \<lparr>sm_conn = d, sm_data = header_wire serde_msgpack t @ mp_pack mp y\<rparr> w =
      bind_result (run_user pc_user (\<lambda>a s. s\<lparr>pc_user := a\<rparr>) (g q) (cenv w)) (\<lambda>e. Inr (w\<lparr>cenv := e\<rparr>))"
proof -
  let ?S = "msgpack_serializer ob mp"
  have libs: "owning_buffer_ok ob \<and> msgpack_ok mp" using assms(1,2) by simp
  obtain q where "payload_as ?S q = Some y" and "UdpPacketClient_handle_message ?S i
        \<lparr>msg_conn = uc_conn (udp_clients w i), msg_buffer = header_wire serde_msgpack t @ mp_pack mp y\<rparr> (cenv w) =
      bind_result (call_client_handler (Some g) q (cenv w)) (\<lambda>e. Inr (True, e))"
    by (rule msgpack.client_handled [OF libs, of "cenv w" i t "Some g" y "uc_conn (udp_clients w i)"])
      (use assms(4,5) in \<open>simp_all add: msgpack_traits\<close>)
  then show thesis
    using assms(3)
    by (intro that [of q])
      (simp_all add: msgpack_traits client_deliver_def UdpPacketClient_on_data_def bind_result_assoc call_client_handler_def)
qed

text \<open>
  C7: Request and answer, the program of the README. A msgpack client sends an object; its bytes,
  delivered at the server, run the handler of their type, which sends one message, to the
  connection the request came from; and the bytes of that message, delivered at the client, run the
  client's handler exactly once, on a payload that converts to the answer to the object sent.
\<close>

theorem msgpack_request_answer:
  fixes v :: "('p, 'a) packet_world" and w :: "('p, 'd) packet_client_world"
  assumes "owning_buffer_ok ob" and "msgpack_ok mp"
    and "8 + length (mp_pack mp x) < 2 ^ 32" and "8 + length (mp_pack mp (reply x)) < 2 ^ 32"
    and "uc_interface (udp_clients w i)" and "uc_conn (udp_clients w i) \<noteq> 0"
    and "pc_alive (packet_clients (app (cenv w)) i)" and "pc_pre_handler (packet_clients (app (cenv w)) i) = None"
    and "pc_handlers (packet_clients (app (cenv w)) i) t' = Some (Some g)"
    and "ps_alive (packet_servers (app (senv v)) k)"
    and "ps_handlers (packet_servers (app (senv v)) k) t = Some (Some (answering_handler st' ob mp junk' t' reply))"
    and "us_on_data (servers v k) = Some (UdpPacketServer_on_data (msgpack_serializer ob mp) k)"
    and "UdpServer_get_client_info k c v = Some ci"
  shows "\<exists>ok w' request v' answer q.
    UdpPacketClient_send_packet st ob (msgpack_serializer ob mp) junk i t x True w = Inr (ok, w') \<and>
    client_history w' = client_history w @ [SendMessageToConnection (uc_conn (udp_clients w i)) request Send_Reliable] \<and>
    UdpServer_deliver k \<lparr>sm_conn = c, sm_data = request\<rparr> v = Inr v' \<and>
    server_history v' = server_history v @ [SendMessageToConnection (ci_conn ci) answer Send_Reliable] \<and>
    mp_convert mp q = Some (reply x) \<and>
    client_deliver (UdpPacketClient_on_data (msgpack_serializer ob mp) i) i \<lparr>sm_conn = d, sm_data = answer\<rparr> w' =
      bind_result (run_user pc_user (\<lambda>a s. s\<lparr>pc_user := a\<rparr>) (g q) (cenv w')) (\<lambda>e. Inr (w'\<lparr>cenv := e\<rparr>))"
proof -
  let ?S = "msgpack_serializer ob mp" and ?request = "header_wire serde_msgpack t @ mp_pack mp x"
  let ?answer = "header_wire serde_msgpack t' @ mp_pack mp (reply x)"
  have libs: "owning_buffer_ok ob \<and> msgpack_ok mp" and size: "8 + length (mp_pack mp x) < 2 ^ 64"
    and cast: "unat (8 + of_nat (length (mp_pack mp x)) :: u32) = 8 + length (mp_pack mp x)"
    using assms(1-3) u32_of_size [OF assms(3)] by simp_all
  define w' where "w' = client_log (SendMessageToConnection (uc_conn (udp_clients w i)) ?request Send_Reliable) w"
  obtain ok where sent: "UdpPacketClient_send_packet st ob ?S junk i t x True w = Inr (ok, w')"
    using msgpack.client_send [OF libs size, of st junk i t True w] assms(5,6)
    by (simp add: msgpack_traits UdpClient_send_raw_def Let_def handle_defs cast w'_def)
  obtain p where p: "payload_as ?S p = Some x" and run: "UdpPacketServer_handle_packet ?S k ci
      (header_wire (traits_serde ?S) t @ mp_pack mp x) (8 + length (mp_pack mp x)) (senv v) =
      bind_result (call_server_handler (Some (answering_handler st' ob mp junk' t' reply)) (ci_conn ci) p (senv v))
        (\<lambda>e. Inr (True, e))"
    by (rule msgpack.handled [OF libs assms(11)])
  have "answering_handler st' ob mp junk' t' reply (ci_conn ci) p \<lparr>calls = calls (senv v), app = ps_user (app (senv v))\<rparr> =
      Inr (log_call (SendMessageToConnection (ci_conn ci) ?answer Send_Reliable)
        \<lparr>calls = calls (senv v), app = ps_user (app (senv v))\<rparr>)"
    by (rule answering_handler_eq [where reply = reply and x = x, OF assms(1,2,4)]) (use p in \<open>simp add: msgpack_traits\<close>)
  then have "UdpServer_deliver k \<lparr>sm_conn = c, sm_data = ?request\<rparr> v =
      Inr (server_log (SendMessageToConnection (ci_conn ci) ?answer Send_Reliable) v)"
    using assms(10,12,13) run
    by (simp add: msgpack_traits UdpServer_deliver_def UdpPacketServer_on_data_def run_env_def call_server_handler_def
        run_user_def server_log_def log_call_def)
  moreover obtain q where "mp_convert mp q = Some (reply x)"
    and "client_deliver (UdpPacketClient_on_data ?S i) i \<lparr>sm_conn = d, sm_data = ?answer\<rparr> w' =
      bind_result (run_user pc_user (\<lambda>a s. s\<lparr>pc_user := a\<rparr>) (g q) (cenv w')) (\<lambda>e. Inr (w'\<lparr>cenv := e\<rparr>))"
    by (rule msgpack_client_receives [OF assms(1,2), of w' i t' g "reply x" d]) (use assms(7-9) in \<open>simp_all add: w'_def\<close>)
  ultimately show ?thesis
    using sent by (intro exI [of _ ok] exI [of _ w'] exI [of _ ?request]
        exI [of _ "server_log (SendMessageToConnection (ci_conn ci) ?answer Send_Reliable) v"] exI [of _ ?answer] exI [of _ q])
      (simp add: w'_def)
qed

text \<open>A client that adds the answer to its number, and a server that answers with the successor.\<close>

definition add_answer :: "(u8, nat) client_packet_handler" where
  "add_answer p e = Inr (e\<lparr>app := app e + unat p\<rparr>)"

definition asking_client :: "(u8, nat) packet_client_world" where
  "asking_client =
     \<lparr>udp_clients = (\<lambda>_. udp_client_new\<lparr>uc_interface := True, uc_conn := 1\<rparr>), client_instance = Some 0,
      cenv = \<lparr>calls = [ConnectByIPAddress sample_addr 1],
        app = \<lparr>packet_clients = (\<lambda>_. udp_packet_client_new\<lparr>pc_handlers := [43 \<mapsto> Some add_answer]\<rparr>), pc_user = 5\<rparr>\<rparr>\<rparr>"

definition answering_server :: "(u8, nat) packet_world" where
  "answering_server =
     \<lparr>servers = (\<lambda>_. udp_server_new\<lparr>us_clients := [(5, sample_client 5)],
        us_on_data := Some (UdpPacketServer_on_data sample_serde 0)\<rparr>),
      server_instance = Some 0,
      senv = \<lparr>calls = [],
        app = \<lparr>packet_servers = (\<lambda>_. \<lparr>ps_alive = True,
          ps_handlers = [42 \<mapsto> Some (answering_handler (sample_steam [] []) sample_buffer sample_msgpack (\<lambda>_. 0) 43 (\<lambda>x. x + 1))]\<rparr>),
          ps_user = 0\<rparr>\<rparr>\<rparr>"

theorem msgpack_request_answer_witness:
  "\<exists>ok w1 request v1 answer w2.
    UdpPacketClient_send_packet (sample_steam [] []) sample_buffer sample_serde (\<lambda>_. 0) 0 42 9 True asking_client = Inr (ok, w1) \<and>
    UdpServer_deliver 0 \<lparr>sm_conn = 5, sm_data = request\<rparr> answering_server = Inr v1 \<and>
    server_history v1 = [SendMessageToConnection 5 answer Send_Reliable] \<and>
    client_deliver (UdpPacketClient_on_data sample_serde 0) 0 \<lparr>sm_conn = 1, sm_data = answer\<rparr> w1 = Inr w2 \<and>
    pc_user (app (cenv w2)) = pc_user (app (cenv w1)) + 10"
proof -
  let ?reply = "\<lambda>x :: u8. x + 1"
  have size: "8 + length (mp_pack sample_msgpack (9 :: u8)) < 2 ^ 32"
    "8 + length (mp_pack sample_msgpack (?reply 9)) < 2 ^ 32" by (simp_all add: sample_msgpack_def)
  have c: "uc_interface (udp_clients asking_client 0)" "uc_conn (udp_clients asking_client 0) \<noteq> 0"
    "pc_alive (packet_clients (app (cenv asking_client)) 0)"
    "pc_pre_handler (packet_clients (app (cenv asking_client)) 0) = None"
    "pc_handlers (packet_clients (app (cenv asking_client)) 0) 43 = Some (Some add_answer)"
    by (simp_all add: asking_client_def udp_client_new_def udp_packet_client_new_def)
  have s: "ps_alive (packet_servers (app (senv answering_server)) 0)"
    "ps_handlers (packet_servers (app (senv answering_server)) 0) 42 =
       Some (Some (answering_handler (sample_steam [] []) sample_buffer sample_msgpack (\<lambda>_. 0) 43 ?reply))"
    "us_on_data (servers answering_server 0) = Some (UdpPacketServer_on_data sample_serde 0)"
    "UdpServer_get_client_info 0 5 answering_server = Some (sample_client 5)"
    by (simp_all add: answering_server_def udp_server_new_def UdpServer_get_client_info_def)
  have "server_history answering_server = []" by (simp add: answering_server_def server_history_def)
  with msgpack_request_answer [OF sample_buffer_ok sample_msgpack_ok size c s, of "sample_steam [] []" "\<lambda>_. 0" 1]
  obtain ok w1 request v1 answer q where
    "UdpPacketClient_send_packet (sample_steam [] []) sample_buffer sample_serde (\<lambda>_. 0) 0 42 9 True asking_client = Inr (ok, w1)"
    and "UdpServer_deliver 0 \<lparr>sm_conn = 5, sm_data = request\<rparr> answering_server = Inr v1"
    and "server_history v1 = [SendMessageToConnection 5 answer Send_Reliable]"
    and q: "mp_convert sample_msgpack q = Some (9 + 1)"
    and "client_deliver (UdpPacketClient_on_data sample_serde 0) 0 \<lparr>sm_conn = 1, sm_data = answer\<rparr> w1 =
      bind_result (run_user pc_user (\<lambda>a s. s\<lparr>pc_user := a\<rparr>) (add_answer q) (cenv w1)) (\<lambda>e. Inr (w1\<lparr>cenv := e\<rparr>))"
    by (auto simp: sample_client_def)
  moreover have "q = 10" using q by (simp add: sample_msgpack_def)
  ultimately show ?thesis
    by (simp add: run_user_def add_answer_def del: split_paired_Ex) (intro exI conjI, assumption+, simp)
qed

end
