(* ===== verification/Message_Stream.thy ===== *)
theory Message_Stream
  imports End_To_End
begin

text \<open>
  A client and a server over a whole conversation: a list of objects sent one after another, taken
  out of Steam by the server over several polls of at most 32 messages, handled in order and exactly
  once. That Steam delivers reliable messages in the order they were sent is a hypothesis
  (\<open>steam_stream\<close>); everything else is the code of \<^verbatim>\<open>udp_packet_client.inl\<close>, \<^verbatim>\<open>udp_server.cpp\<close> and
  \<^verbatim>\<open>udp_packet_server.inl\<close>.
\<close>

section \<open>The stream Steam delivers\<close>

text \<open>How many messages the program has released, and the bytes it sent on a connection.\<close>

fun is_release :: "steam_call \<Rightarrow> bool" where
  "is_release (ReleaseMessage m) = True"
| "is_release _ = False"

definition released :: "history \<Rightarrow> nat" where
  "released h = length (filter is_release h)"

fun sent_step :: "kb_connection_t \<Rightarrow> steam_call \<Rightarrow> u8 list list" where
  "sent_step conn (SendMessageToConnection c bytes flags) = (if c = conn then [bytes] else [])"
| "sent_step conn _ = []"

definition sent_on :: "kb_connection_t \<Rightarrow> history \<Rightarrow> u8 list list" where
  "sent_on conn h = concat (map (sent_step conn) h)"

lemma released_simps [simp]:
  "released [] = 0" "released (h @ h') = released h + released h'"
  "released [c] = (if is_release c then 1 else 0)"
  by (simp_all add: released_def)

lemma sent_on_simps [simp]: "sent_on conn (h @ h') = sent_on conn h @ sent_on conn h'"
  by (simp add: sent_on_def)

lemma sent_on_sends [simp]: "sent_on conn (map (\<lambda>b. SendMessageToConnection conn b flags) bs) = bs"
  by (induction bs) (simp_all add: sent_on_def)

text \<open>Every receive on the poll group gives the next messages of \<open>msgs\<close>, those after the ones that
  were released: in order, at most \<open>n\<close>, at least one while there are any; and no connection event
  comes in between.\<close>

definition steam_stream :: "steam_api \<Rightarrow> poll_group_t \<Rightarrow> steam_message list \<Rightarrow> bool" where
  "steam_stream st g msgs \<longleftrightarrow>
     (\<forall>h. run_callbacks st h = []) \<and>
     (\<forall>h n. let rest = drop (released h) msgs in
        \<exists>k \<le> n. (rest \<noteq> [] \<and> 0 < n \<longrightarrow> 0 < k) \<and>
          receive_on_poll_group st h g n = (int (length (take k rest)), take k rest))"

lemma steam_streamE:
  assumes "steam_stream st g msgs"
  obtains k where "k \<le> n" and "drop (released h) msgs \<noteq> [] \<Longrightarrow> 0 < n \<Longrightarrow> 0 < k"
    and "receive_on_poll_group st h g n =
      (int (length (take k (drop (released h) msgs))), take k (drop (released h) msgs))"
proof -
  have "\<exists>k \<le> n. (drop (released h) msgs \<noteq> [] \<and> 0 < n \<longrightarrow> 0 < k) \<and> receive_on_poll_group st h g n =
      (int (length (take k (drop (released h) msgs))), take k (drop (released h) msgs))"
    using assms unfolding steam_stream_def Let_def by blast
  then show thesis using that by blast
qed

section \<open>Sending a list of objects\<close>

primrec send_packets ::
  "steam_api \<Rightarrow> 'b owning_buffer_api \<Rightarrow> ('o, 'p, 'b) serializer \<Rightarrow> (nat \<Rightarrow> u8) \<Rightarrow> nat \<Rightarrow> packet_type_t \<Rightarrow>
   'o list \<Rightarrow> 'w client_world \<Rightarrow> 'w client_world result" where
  "send_packets st ob S junk i t [] w = Inr w"
| "send_packets st ob S junk i t (x # xs) w =
     bind_result (UdpPacketClient_send_packet st ob S junk i t x True w) (\<lambda>(_, w).
       send_packets st ob S junk i t xs w)"

primrec poll_times :: "steam_api \<Rightarrow> nat \<Rightarrow> nat \<Rightarrow> 'w server_world \<Rightarrow> 'w server_world result" where
  "poll_times st k 0 v = Inr v"
| "poll_times st k (Suc n) v = bind_result (UdpServer_poll st k v) (poll_times st k n)"

abbreviation message :: "kb_connection_t \<Rightarrow> u8 list \<Rightarrow> steam_message" where
  "message c b \<equiv> \<lparr>sm_conn = c, sm_data = b\<rparr>"

text \<open>A packet server ready for objects of type \<open>t\<close> from connection \<open>c\<close>.\<close>

definition receiving ::
  "('o, 'p, 'b) serializer \<Rightarrow> nat \<Rightarrow> kb_connection_t \<Rightarrow> client_info_t \<Rightarrow> packet_type_t \<Rightarrow>
   ('p, 'a) server_packet_handler \<Rightarrow> ('p, 'a) packet_world \<Rightarrow> bool" where
  "receiving S k c ci t h v \<longleftrightarrow>
     us_on_data (servers v k) = Some (UdpPacketServer_on_data S k) \<and>
     UdpServer_get_client_info k c v = Some ci \<and>
     ps_alive (packet_servers (app (senv v)) k) \<and>
     ps_handlers (packet_servers (app (senv v)) k) t = Some (Some h)"

text \<open>A handler that returns, releases no message, and acts on the user's state as \<open>f\<close> on objects.\<close>

definition handles_as ::
  "('p \<Rightarrow> 'o option) \<Rightarrow> ('p, 'a) server_packet_handler \<Rightarrow> (kb_connection_t \<Rightarrow> 'o \<Rightarrow> 'a \<Rightarrow> 'a) \<Rightarrow> bool" where
  "handles_as convert h f \<longleftrightarrow>
     (\<forall>c p x u. convert p = Some x \<longrightarrow>
        (\<exists>u'. h c p u = Inr u' \<and> app u' = f c x (app u) \<and> released (calls u') = released (calls u)))"

context packet_codec
begin

abbreviation wire :: "packet_type_t \<Rightarrow> 'o \<Rightarrow> u8 list" where
  "wire t x \<equiv> header_wire (traits_serde S) (wire_type t) @ body x"

lemma send_all:
  assumes "libs_ok" and "\<forall>x \<in> set xs. 8 + length (body x) < 2 ^ 32"
    and "uc_interface (udp_clients w i)" and "uc_conn (udp_clients w i) \<noteq> 0"
  shows "\<exists>w'. send_packets st ob S junk i t xs w = Inr w' \<and>
    client_history w' = client_history w @
      map (\<lambda>b. SendMessageToConnection (uc_conn (udp_clients w i)) b Send_Reliable) (map (wire t) xs)"
  using assms(2-4)
proof (induction xs arbitrary: w)
  case (Cons x xs)
  let ?w = "client_log (SendMessageToConnection (uc_conn (udp_clients w i)) (wire t x) Send_Reliable) w"
  have size: "8 + length (body x) < 2 ^ 32" using Cons.prems(1) by simp
  then have "unat (8 + of_nat (length (body x)) :: u32) = 8 + length (body x)"
    using u32_of_size [OF size] by simp
  then obtain ok where send: "UdpPacketClient_send_packet st ob S junk i t x True w = Inr (ok, ?w)"
    using client_send [OF assms(1), of x st junk i t True w] size Cons.prems(2,3)
    by (simp add: UdpClient_send_raw_def Let_def handle_defs)
  obtain w' where "send_packets st ob S junk i t xs ?w = Inr w'" and "client_history w' = client_history ?w @
      map (\<lambda>b. SendMessageToConnection (uc_conn (udp_clients w i)) b Send_Reliable) (map (wire t) xs)"
    using Cons.IH [of ?w] Cons.prems by auto
  with send show ?case by simp
qed simp

lemma receive_one:
  assumes "libs_ok" and "handles_as (payload_as S) h f" and "receiving S k c ci (wire_type t) h v"
  obtains v' where "UdpServer_deliver k \<lparr>sm_conn = c, sm_data = wire t x\<rparr> v = Inr v'"
    and "receiving S k c ci (wire_type t) h v'"
    and "ps_user (app (senv v')) = f (ci_conn ci) x (ps_user (app (senv v)))"
    and "released (server_history v') = released (server_history v)"
    and "servers v' = servers v"
proof -
  from assms(3) have v: "us_on_data (servers v k) = Some (UdpPacketServer_on_data S k)"
    "UdpServer_get_client_info k c v = Some ci" "ps_alive (packet_servers (app (senv v)) k)"
    "ps_handlers (packet_servers (app (senv v)) k) (wire_type t) = Some (Some h)"
    by (simp_all add: receiving_def)
  obtain p where p: "payload_as S p = Some x" and run:
    "UdpPacketServer_handle_packet S k ci (header_wire (traits_serde S) (wire_type t) @ body x) (8 + length (body x)) (senv v) =
      bind_result (call_server_handler (Some h) (ci_conn ci) p (senv v)) (\<lambda>e. Inr (True, e))"
    by (rule handled [OF assms(1) v(4)])
  let ?u = "\<lparr>calls = calls (senv v), app = ps_user (app (senv v))\<rparr>"
  obtain u where u: "h (ci_conn ci) p ?u = Inr u" "app u = f (ci_conn ci) x (ps_user (app (senv v)))"
    "released (calls u) = released (calls (senv v))"
    using assms(2) p unfolding handles_as_def by fastforce
  let ?v = "v\<lparr>senv := \<lparr>calls = calls u, app = (app (senv v))\<lparr>ps_user := app u\<rparr>\<rparr>\<rparr>"
  have "UdpServer_deliver k \<lparr>sm_conn = c, sm_data = wire t x\<rparr> v = Inr ?v"
    using run v by (simp add: UdpServer_deliver_def UdpPacketServer_on_data_def run_env_def call_server_handler_def
        run_user_def u(1))
  then show thesis
    using v u by (intro that [of ?v]) (simp_all add: receiving_def UdpServer_get_client_info_def server_history_def)
qed

text \<open>What holds after the first \<open>n\<close> objects of the stream were handled.\<close>

lemma receive_batch:
  assumes "libs_ok" and "handles_as (payload_as S) h f"
  shows "receiving S k c ci (wire_type t) h v \<Longrightarrow>
    \<exists>v'. deliver_messages k (map (\<lambda>x. message c (wire t x)) xs) v = Inr v' \<and>
      receiving S k c ci (wire_type t) h v' \<and>
      ps_user (app (senv v')) = fold (f (ci_conn ci)) xs (ps_user (app (senv v))) \<and>
      released (server_history v') = released (server_history v) + length xs \<and> servers v' = servers v"
proof (induction xs arbitrary: v)
  case (Cons x xs)
  obtain v1 where v1: "UdpServer_deliver k (message c (wire t x)) v = Inr v1" "receiving S k c ci (wire_type t) h v1"
    "ps_user (app (senv v1)) = f (ci_conn ci) x (ps_user (app (senv v)))"
    "released (server_history v1) = released (server_history v)" "servers v1 = servers v"
    by (rule receive_one [OF assms Cons.prems, of x])
  let ?v = "server_log (ReleaseMessage (message c (wire t x))) v1"
  have "receiving S k c ci (wire_type t) h ?v"
    using v1(2) by (simp add: receiving_def UdpServer_get_client_info_def)
  from Cons.IH [OF this] show ?case by (simp add: v1)
qed simp

lemma receive_poll:
  assumes "libs_ok" and "handles_as (payload_as S) h f" and "receiving S k c ci (wire_type t) h v"
    and "steam_stream st (us_poll_group (servers v k)) (map (\<lambda>x. message c (wire t x)) xs)"
  shows "\<exists>j v'. UdpServer_poll st k v = Inr v' \<and> receiving S k c ci (wire_type t) h v' \<and>
    ps_user (app (senv v')) = fold (f (ci_conn ci)) (take j (drop (released (server_history v)) xs)) (ps_user (app (senv v))) \<and>
    released (server_history v') = released (server_history v) + length (take j (drop (released (server_history v)) xs)) \<and>
    servers v' = servers v \<and> (released (server_history v) < length xs \<longrightarrow> 0 < j)"
proof -
  let ?g = "us_poll_group (servers v k)" and ?r = "released (server_history v)"
  let ?v = "server_log (ReceiveMessagesOnPollGroup ?g k_message_count) v"
  obtain j where j: "j \<le> 32" "?r < length xs \<Longrightarrow> 0 < j" and recv: "receive_on_poll_group st (server_history v) ?g k_message_count =
      (int (length (take j (drop ?r xs))), map (\<lambda>x. message c (wire t x)) (take j (drop ?r xs)))"
    by (rule steam_streamE [OF assms(4), of k_message_count "server_history v"])
      (auto simp: k_message_count_def drop_map take_map)
  have none: "run_callbacks st h' = []" for h' using assms(4) by (simp add: steam_stream_def)
  have "receiving S k c ci (wire_type t) h ?v"
    using assms(3) by (simp add: receiving_def UdpServer_get_client_info_def)
  from receive_batch [OF assms(1,2) this, of "take j (drop ?r xs)"]
  obtain v' where v': "deliver_messages k (map (\<lambda>x. message c (wire t x)) (take j (drop ?r xs))) ?v = Inr v'"
    "receiving S k c ci (wire_type t) h v'"
    "ps_user (app (senv v')) = fold (f (ci_conn ci)) (take j (drop ?r xs)) (ps_user (app (senv v)))"
    "released (server_history v') = ?r + length (take j (drop ?r xs))" "servers v' = servers v"
    by auto
  have count: "u32_count (int (length (take j (drop ?r xs)))) = length (take j (drop ?r xs))"
    using j(1) by (intro u32_count_nat) simp
  have "UdpServer_poll st k v = Inr (server_log RunCallbacks v')"
    by (simp add: UdpServer_poll_def Let_def recv count server_message_loop_eq v'(1) none del: length_take length_drop)
  moreover have "receiving S k c ci (wire_type t) h (server_log RunCallbacks v')"
    using v'(2) by (simp add: receiving_def UdpServer_get_client_info_def)
  ultimately show ?thesis
    using v' j(2) by (intro exI [of _ j] exI [of _ "server_log RunCallbacks v'"]) simp
qed

lemma receive_polls:
  assumes "libs_ok" and "handles_as (payload_as S) h f" and "receiving S k c ci (wire_type t) h v"
    and "steam_stream st (us_poll_group (servers v k)) (map (\<lambda>x. message c (wire t x)) xs)"
    and "released (server_history v) \<le> length xs"
  shows "\<exists>v' m. poll_times st k n v = Inr v' \<and>
    ps_user (app (senv v')) = fold (f (ci_conn ci)) (take m (drop (released (server_history v)) xs)) (ps_user (app (senv v))) \<and>
    min n (length xs - released (server_history v)) \<le> m \<and> m \<le> length xs - released (server_history v)"
  using assms(3-5)
proof (induction n arbitrary: v)
  case 0
  show ?case by (intro exI [of _ v] exI [of _ 0]) simp
next
  case (Suc n)
  let ?r = "released (server_history v)"
  obtain j v1 where v1: "UdpServer_poll st k v = Inr v1" "receiving S k c ci (wire_type t) h v1"
    "ps_user (app (senv v1)) = fold (f (ci_conn ci)) (take j (drop ?r xs)) (ps_user (app (senv v)))"
    "released (server_history v1) = ?r + length (take j (drop ?r xs))" "servers v1 = servers v"
    "?r < length xs \<longrightarrow> 0 < j"
    using receive_poll [OF assms(1,2) Suc.prems(1,2)] by blast
  let ?j = "length (take j (drop ?r xs))"
  have "released (server_history v1) \<le> length xs" using v1(4) Suc.prems(3) by simp
  then obtain v' m where v': "poll_times st k n v1 = Inr v'"
    "ps_user (app (senv v')) = fold (f (ci_conn ci)) (take m (drop (?r + ?j) xs)) (ps_user (app (senv v1)))"
    "min n (length xs - (?r + ?j)) \<le> m" "m \<le> length xs - (?r + ?j)"
    using Suc.IH [OF v1(2)] Suc.prems(2) v1(4,5) by auto
  have "take j (drop ?r xs) = take ?j (drop ?r xs)" by (simp add: min_def)
  then have "take (?j + m) (drop ?r xs) = take j (drop ?r xs) @ take m (drop (?r + ?j) xs)"
    by (simp only: take_add drop_drop add.commute [of ?r])
  then have "ps_user (app (senv v')) = fold (f (ci_conn ci)) (take (?j + m) (drop ?r xs)) (ps_user (app (senv v)))"
    using v'(2) v1(3) by simp
  moreover have "min (Suc n) (length xs - ?r) \<le> ?j + m" and "?j + m \<le> length xs - ?r"
    using v'(3,4) v1(6) Suc.prems(3) by (auto simp: min_def split: if_splits)
  ultimately show ?case
    using v1(1) v'(1) by (intro exI [of _ v'] exI [of _ "?j + m"]) simp
qed

end

section \<open>The conversation\<close>

text \<open>
  C6: A msgpack client sends a list of objects, and the server it is connected to polls. All the sends
  return, and if Steam delivers what was sent on the connection in order, \<open>n\<close> polls return and have
  run the server's handler on the first \<open>m\<close> objects, in order and once each, where \<open>m\<close> is at least
  \<open>n\<close> until the list is exhausted: nothing is lost, doubled or reordered, and enough polls
  deliver all of it.
\<close>

theorem msgpack_stream_in_order:
  fixes v :: "('p, 'a) packet_world" and w :: "'w client_world"
  assumes "owning_buffer_ok ob" and "msgpack_ok mp" and "\<forall>x \<in> set xs. 8 + length (mp_pack mp x) < 2 ^ 32"
    and "uc_interface (udp_clients w i)" and "uc_conn (udp_clients w i) \<noteq> 0"
    and "sent_on (uc_conn (udp_clients w i)) (client_history w) = []"
    and "receiving (msgpack_serializer ob mp) k c ci t h v" and "handles_as (mp_convert mp) h f"
    and "released (server_history v) = 0"
  shows "\<exists>w'. send_packets st ob (msgpack_serializer ob mp) junk i t xs w = Inr w' \<and>
    (steam_stream st' (us_poll_group (servers v k)) (map (message c) (sent_on (uc_conn (udp_clients w i)) (client_history w'))) \<longrightarrow>
      (\<exists>v' m. poll_times st' k n v = Inr v' \<and> min n (length xs) \<le> m \<and> m \<le> length xs \<and>
        ps_user (app (senv v')) = fold (f (ci_conn ci)) (take m xs) (ps_user (app (senv v)))))"
proof -
  let ?S = "msgpack_serializer ob mp" and ?wire = "\<lambda>x. header_wire serde_msgpack t @ mp_pack mp x"
  have libs: "owning_buffer_ok ob \<and> msgpack_ok mp" using assms(1,2) by simp
  obtain w' where w': "send_packets st ob ?S junk i t xs w = Inr w'" "client_history w' = client_history w @
      map (\<lambda>b. SendMessageToConnection (uc_conn (udp_clients w i)) b Send_Reliable) (map ?wire xs)"
    using msgpack.send_all [OF libs assms(3,4,5), of st junk t] unfolding msgpack_traits by blast
  have sent: "map (message c) (sent_on (uc_conn (udp_clients w i)) (client_history w')) = map (\<lambda>x. message c (?wire x)) xs"
    unfolding w'(2) sent_on_simps assms(6) sent_on_sends by simp
  have "handles_as (payload_as ?S) h f" using assms(8) by (simp add: msgpack_traits)
  then have "\<exists>v' m. poll_times st' k n v = Inr v' \<and> min n (length xs) \<le> m \<and> m \<le> length xs \<and>
        ps_user (app (senv v')) = fold (f (ci_conn ci)) (take m xs) (ps_user (app (senv v)))"
    if "steam_stream st' (us_poll_group (servers v k)) (map (\<lambda>x. message c (?wire x)) xs)"
    using msgpack.receive_polls [OF libs _ assms(7), of f st' xs n] that assms(9) by (simp add: msgpack_traits) blast
  with w'(1) show ?thesis by (simp add: sent)
qed

text \<open>Three numbers in two polls: Steam hands out two messages at a time.\<close>

definition two_at_a_time :: "steam_message list \<Rightarrow> steam_api" where
  "two_at_a_time msgs = (sample_steam [] [])
     \<lparr>receive_on_poll_group := (\<lambda>h g n.
        let ms = take (min 2 n) (drop (released h) msgs) in (int (length ms), ms))\<rparr>"

lemma two_at_a_time_stream: "steam_stream (two_at_a_time msgs) g msgs"
  unfolding steam_stream_def Let_def
proof (intro conjI allI)
  fix h n
  show "run_callbacks (two_at_a_time msgs) h = []"
    by (simp add: two_at_a_time_def sample_steam_simps first_time_def)
  show "\<exists>k \<le> n. (drop (released h) msgs \<noteq> [] \<and> 0 < n \<longrightarrow> 0 < k) \<and>
      receive_on_poll_group (two_at_a_time msgs) h g n =
        (int (length (take k (drop (released h) msgs))), take k (drop (released h) msgs))"
    by (intro exI [of _ "min 2 n"]) (simp add: two_at_a_time_def Let_def)
qed

lemma sample_receiving: "receiving sample_serde 0 5 (sample_client 5) 42 add_byte_server sample_packet_world"
  by (simp add: receiving_def sample_packet_world_fields)

lemma add_byte_handles: "handles_as (mp_convert sample_msgpack) add_byte_server (\<lambda>c x n. n + unat x)"
  by (simp add: handles_as_def add_byte_server_def sample_msgpack_def)

theorem msgpack_stream_in_order_witness:
  "\<exists>w' v'. send_packets (sample_steam [] []) sample_buffer sample_serde (\<lambda>_. 0) 0 42 [9, 20, 3] sample_client_world = Inr w' \<and>
    poll_times (two_at_a_time (map (message 5) (sent_on 1 (client_history w')))) 0 3 sample_packet_world = Inr v' \<and>
    ps_user (app (senv v')) = 32"
proof -
  have sizes: "\<forall>x \<in> set [9, 20, 3 :: u8]. 8 + length (mp_pack sample_msgpack x) < 2 ^ 32"
    by (simp add: sample_msgpack_def)
  have client: "uc_interface (udp_clients sample_client_world 0)" "uc_conn (udp_clients sample_client_world 0) \<noteq> 0"
    "sent_on (uc_conn (udp_clients sample_client_world 0)) (client_history sample_client_world) = []"
    by (simp_all add: sample_client_fields sent_on_def)
  have fresh: "released (server_history sample_packet_world) = 0"
    by (simp add: sample_packet_world_def sample_server_env_def server_history_def)
  obtain w' where w': "send_packets (sample_steam [] []) sample_buffer sample_serde (\<lambda>_. 0) 0 42 [9, 20, 3] sample_client_world = Inr w'"
    using msgpack_stream_in_order [OF sample_buffer_ok sample_msgpack_ok sizes client sample_receiving add_byte_handles fresh]
    by blast
  obtain v' m where "poll_times (two_at_a_time (map (message 5) (sent_on 1 (client_history w')))) 0 3 sample_packet_world = Inr v'"
    and m: "min 3 (length [9, 20, 3 :: u8]) \<le> m" "m \<le> length [9, 20, 3 :: u8]"
    and "ps_user (app (senv v')) =
      fold (\<lambda>x n. n + unat x) (take m [9, 20, 3 :: u8]) (ps_user (app (senv sample_packet_world)))"
    using msgpack_stream_in_order [OF sample_buffer_ok sample_msgpack_ok sizes client sample_receiving add_byte_handles fresh,
        of "sample_steam [] []" "\<lambda>_. 0" "two_at_a_time (map (message 5) (sent_on 1 (client_history w')))" 3]
      two_at_a_time_stream w' by (auto simp: sample_client_fields)
  moreover have "m = 3" using m by simp
  ultimately show ?thesis using w' by (auto simp: sample_packet_world_fields)
qed

end
