(* ===== verification/Interleaving.thy ===== *)
theory Interleaving
  imports Packet_Server Packet_Client
begin

text \<open>
  Operations of a network thread, cut between the lookup of a table entry and its use. The code
  keeps a pointer or an iterator to the entry in between, without a lock on the table, and another
  thread may run any of its own operations there: the client table of \<^verbatim>\<open>UdpServer\<close>
  (\<^verbatim>\<open>udp_server.cpp\<close>), the handler tables of \<^verbatim>\<open>UdpPacketServer\<close> and \<^verbatim>\<open>UdpPacketClient\<close>
  (\<^verbatim>\<open>udp_packet_server.inl\<close>, \<^verbatim>\<open>udp_packet_client.inl\<close>). The shared shape is the locale
  \<open>lookup_then_use\<close>; for each table an equation says which operations in between are harmless.
\<close>

section \<open>Look up, run the other thread, use\<close>

text \<open>\<open>entry_valid step invalidates ops s k\<close>: no operation of the other thread makes the iterator
  to the entry of \<open>k\<close> invalid.\<close>

fun entry_valid ::
  "('op \<Rightarrow> 's \<Rightarrow> 's) \<Rightarrow> ('op \<Rightarrow> 's \<Rightarrow> 'k \<Rightarrow> bool) \<Rightarrow> 'op list \<Rightarrow> 's \<Rightarrow> 'k \<Rightarrow> bool" where
  "entry_valid step invalidates [] s k \<longleftrightarrow> True"
| "entry_valid step invalidates (op # ops) s k \<longleftrightarrow>
     \<not> invalidates op s k \<and> entry_valid step invalidates ops (step op s) k"

text \<open>Reading through an iterator: undefined behaviour if it is invalid.\<close>

definition deref_entry :: "bool \<Rightarrow> ('s \<Rightarrow> 'k \<Rightarrow> 'v option) \<Rightarrow> 'k \<Rightarrow> 's \<Rightarrow> 'v result" where
  "deref_entry valid lookup k s =
     (if valid then (case lookup s k of Some v \<Rightarrow> Inr v | None \<Rightarrow> Inl Use_after_free) else Inl Use_after_free)"

locale lookup_then_use =
  fixes find :: "'s \<Rightarrow> 'k \<Rightarrow> 'v option"
    and step :: "'op \<Rightarrow> 's \<Rightarrow> 's"
    and invalidates :: "'op \<Rightarrow> 's \<Rightarrow> 'k \<Rightarrow> bool"
  assumes keeps: "find s k = Some v \<Longrightarrow> \<not> invalidates op s k \<Longrightarrow> find (step op s) k = Some v"
begin

text \<open>An entry whose iterator stays valid is unchanged.\<close>

lemma find_after: "find s k = Some v \<Longrightarrow> entry_valid step invalidates ops s k \<Longrightarrow> find (fold step ops s) k = Some v"
  by (induction ops arbitrary: s) (auto dest: keeps)

text \<open>The iterator of a lookup, used after the other thread ran.\<close>

lemma deref_after:
  "find s k = Some v \<Longrightarrow>
   deref_entry (entry_valid step invalidates ops s k) find k (fold step ops s) =
     (if entry_valid step invalidates ops s k then Inr v else Inl Use_after_free)"
  using find_after [of s k v ops] by (simp add: deref_entry_def)

end

section \<open>Handler tables\<close>

text \<open>
  What another thread may do to a handler table. Both tables are a \<^verbatim>\<open>std::unordered_map\<close>: an
  insertion keeps the elements where they are, but it invalidates every iterator if it rehashes.
  Whether it does is up to the library, and part of the operation here.
\<close>

datatype 'h table_op =
    Bind_op packet_type_t 'h bool
  | Unbind_op packet_type_t

fun table_step ::
  "(packet_type_t \<Rightarrow> 'h \<Rightarrow> 's \<Rightarrow> bool \<times> 's) \<Rightarrow> (packet_type_t \<Rightarrow> 's \<Rightarrow> 's) \<Rightarrow> 'h table_op \<Rightarrow> 's \<Rightarrow> 's" where
  "table_step bind unbind (Bind_op t h rehash) s = snd (bind t h s)"
| "table_step bind unbind (Unbind_op t) s = unbind t s"

fun table_invalidates ::
  "('s \<Rightarrow> packet_type_t \<Rightarrow> 'h option) \<Rightarrow> 'h table_op \<Rightarrow> 's \<Rightarrow> packet_type_t \<Rightarrow> bool" where
  "table_invalidates bound (Bind_op t h rehash) s k \<longleftrightarrow> bound s t = None \<and> rehash"
| "table_invalidates bound (Unbind_op t) s k \<longleftrightarrow> t = k"

context handler_registry
begin

lemma table_keeps:
  "bound s k = Some h \<Longrightarrow> \<not> table_invalidates bound op s k \<Longrightarrow> bound (table_step bind unbind op s) k = Some h"
  by (cases op) (auto simp: bound_bind bound_unbind)

text \<open>Unbinding other types and binding without a rehash keep every iterator valid.\<close>

lemma table_valid:
  "list_all (\<lambda>op. case op of Bind_op t h rehash \<Rightarrow> \<not> rehash | Unbind_op t \<Rightarrow> t \<noteq> k) ops \<Longrightarrow>
   entry_valid (table_step bind unbind) (table_invalidates bound) ops s k"
  by (induction ops arbitrary: s) (auto split: table_op.splits)

end

subsection \<open>Packet server\<close>

type_synonym ('p, 'a) server_table_op = "('p, 'a) server_packet_handler option table_op"

definition server_table :: "nat \<Rightarrow> ('p, 'a) packet_env \<Rightarrow> packet_type_t \<Rightarrow> ('p, 'a) server_packet_handler option option" where
  "server_table this e = ps_handlers (packet_servers (app e) this)"

definition server_table_step :: "nat \<Rightarrow> ('p, 'a) server_table_op \<Rightarrow> ('p, 'a) packet_env \<Rightarrow> ('p, 'a) packet_env" where
  "server_table_step this =
     table_step (UdpPacketServer_bind_packet_handler this) (UdpPacketServer_unbind_packet_handler this)"

definition server_iterator_valid ::
  "nat \<Rightarrow> ('p, 'a) server_table_op list \<Rightarrow> ('p, 'a) packet_env \<Rightarrow> packet_type_t \<Rightarrow> bool" where
  "server_iterator_valid this = entry_valid (server_table_step this) (table_invalidates (server_table this))"

interpretation server_iterator: lookup_then_use
    "server_table this" "server_table_step this" "table_invalidates (server_table this)"
  for this :: nat
  by unfold_locales (use server_handlers.table_keeps in \<open>simp add: server_table_def [abs_def] server_table_step_def\<close>)

text \<open>\<^verbatim>\<open>handle_packet\<close> up to \<^verbatim>\<open>handler_it\<close>: the packet type the iterator stands at, \<open>None\<close> for every
  return before.\<close>

definition UdpPacketServer_find_handler ::
  "('o, 'p, 'b) serializer \<Rightarrow> nat \<Rightarrow> u8 list \<Rightarrow> nat \<Rightarrow> ('p, 'a) packet_env \<Rightarrow> packet_type_t option result" where
  "UdpPacketServer_find_handler S this p_data p_len e =
     bind_result (unpack_internal_packet_header p_data p_len) (\<lambda>maybe_header. Inr (
       case maybe_header of
         None \<Rightarrow> None
       | Some header \<Rightarrow>
           if m_serde_type header \<noteq> traits_serde S then None
           else if server_table this e (m_packet_type header) = None then None
           else Some (m_packet_type header)))"

text \<open>\<^verbatim>\<open>handle_packet\<close> from there on.\<close>

definition UdpPacketServer_use_handler ::
  "('o, 'p, 'b) serializer \<Rightarrow> nat \<Rightarrow> client_info_t \<Rightarrow> u8 list \<Rightarrow> nat \<Rightarrow> packet_type_t option \<Rightarrow> bool \<Rightarrow>
   ('p, 'a) packet_env \<Rightarrow> (bool \<times> ('p, 'a) packet_env) result" where
  "UdpPacketServer_use_handler S this p_client p_data p_len handler_it valid e =
     (case handler_it of
        None \<Rightarrow> Inr (False, e)
      | Some packet_type \<Rightarrow>
          let payload_ptr = drop sizeof_internal_packet_header_t p_data;
              payload_size = p_len - sizeof_internal_packet_header_t in
          bind_result (kb_assert (payload_size < p_len)) (\<lambda>_.
            case deserialize_packet S payload_ptr payload_size of
              None \<Rightarrow> Inr (False, e)
            | Some payload \<Rightarrow>
                bind_result (deref_entry valid (server_table this) packet_type e) (\<lambda>handler.
                  bind_result (call_server_handler handler (ci_conn p_client) payload e) (\<lambda>e. Inr (True, e)))))"

text \<open>\<^verbatim>\<open>handle_packet\<close> on the network thread, with the operations \<open>ops\<close> of another thread between the
  two.\<close>

definition server_handle_interleaved ::
  "('o, 'p, 'b) serializer \<Rightarrow> nat \<Rightarrow> client_info_t \<Rightarrow> u8 list \<Rightarrow> nat \<Rightarrow> ('p, 'a) server_table_op list \<Rightarrow>
   ('p, 'a) packet_env \<Rightarrow> (bool \<times> ('p, 'a) packet_env) result" where
  "server_handle_interleaved S this p_client p_data p_len ops e =
     bind_result (UdpPacketServer_find_handler S this p_data p_len e) (\<lambda>handler_it.
       UdpPacketServer_use_handler S this p_client p_data p_len handler_it
         (case handler_it of None \<Rightarrow> True | Some t \<Rightarrow> server_iterator_valid this ops e t)
         (fold (server_table_step this) ops e))"
text \<open>Without operations in between, the two parts are \<^verbatim>\<open>handle_packet\<close>.\<close>

lemma server_handle_uninterrupted:
  "server_handle_interleaved S this client p_data p_len [] e = UdpPacketServer_handle_packet S this client p_data p_len e"
proof (cases "unpack_internal_packet_header p_data p_len")
  case (Inr maybe_header)
  then show ?thesis
    by (cases maybe_header)
      (auto simp: server_handle_interleaved_def UdpPacketServer_find_handler_def UdpPacketServer_use_handler_def
        UdpPacketServer_handle_packet_def UdpPacketServer_dispatch_def UdpPacketServer_handle_payload_def Let_def
        deref_entry_def server_iterator_valid_def server_table_def split: option.split)
qed (simp add: server_handle_interleaved_def UdpPacketServer_find_handler_def UdpPacketServer_handle_packet_def)

text \<open>A packet with a header, whose handler is found.\<close>

lemma server_handle_interleaved_wire:
  "server_handle_interleaved S this client (header_wire s t @ bytes) (8 + length bytes) ops e =
    (let e' = fold (server_table_step this) ops e in
     if s \<noteq> traits_serde S then Inr (False, e')
     else case server_table this e t of
            None \<Rightarrow> Inr (False, e')
          | Some handler \<Rightarrow>
              (case deserialize_packet S bytes (length bytes) of
                 None \<Rightarrow> Inr (False, e')
               | Some payload \<Rightarrow>
                   if server_iterator_valid this ops e t
                   then bind_result (call_server_handler handler (ci_conn client) payload e') (\<lambda>e. Inr (True, e))
                   else Inl Use_after_free))"
  using server_iterator.deref_after [of this e t _ ops]
  by (auto simp: server_handle_interleaved_def UdpPacketServer_find_handler_def UdpPacketServer_use_handler_def
      Let_def server_iterator_valid_def split: option.split)

subsection \<open>Packet client\<close>

text \<open>The lock around this lookup is an unnamed temporary, released before the lookup begins; the
  one around the body of bind and unbind makes each of them one step.\<close>

type_synonym ('p, 'a) client_table_op = "('p, 'a) client_packet_handler option table_op"

definition client_table ::
  "nat \<Rightarrow> ('p, 'a) packet_client_env \<Rightarrow> packet_type_t \<Rightarrow> ('p, 'a) client_packet_handler option option" where
  "client_table this e = pc_handlers (packet_clients (app e) this)"

definition client_table_step ::
  "nat \<Rightarrow> ('p, 'a) client_table_op \<Rightarrow> ('p, 'a) packet_client_env \<Rightarrow> ('p, 'a) packet_client_env" where
  "client_table_step this =
     table_step (UdpPacketClient_bind_packet_handler this) (UdpPacketClient_unbind_packet_handler this)"

definition client_iterator_valid ::
  "nat \<Rightarrow> ('p, 'a) client_table_op list \<Rightarrow> ('p, 'a) packet_client_env \<Rightarrow> packet_type_t \<Rightarrow> bool" where
  "client_iterator_valid this = entry_valid (client_table_step this) (table_invalidates (client_table this))"

interpretation client_iterator: lookup_then_use
    "client_table this" "client_table_step this" "table_invalidates (client_table this)"
  for this :: nat
  by unfold_locales (use client_handlers.table_keeps in \<open>simp add: client_table_def [abs_def] client_table_step_def\<close>)

text \<open>\<^verbatim>\<open>handle_message\<close> after the lookup found the type \<open>packet_type\<close>.\<close>

definition UdpPacketClient_use_handler ::
  "('o, 'p, 'b) serializer \<Rightarrow> nat \<Rightarrow> packet_type_t \<Rightarrow> u8 list \<Rightarrow> bool \<Rightarrow>
   ('p, 'a) packet_client_env \<Rightarrow> (bool \<times> ('p, 'a) packet_client_env) result" where
  "UdpPacketClient_use_handler S this packet_type buffer valid e =
     (let payload_ptr = drop sizeof_internal_packet_header_t buffer;
          payload_size = length buffer - sizeof_internal_packet_header_t in
      case deserialize_packet S payload_ptr payload_size of
        None \<Rightarrow> Inr (False, e)
      | Some payload \<Rightarrow>
          bind_result (deref_entry valid (client_table this) packet_type e) (\<lambda>handler.
            bind_result (call_client_handler handler payload e) (\<lambda>e. Inr (True, e))))"

text \<open>From the lookup on, with operations of another thread after it.\<close>

definition client_payload_interleaved ::
  "('o, 'p, 'b) serializer \<Rightarrow> nat \<Rightarrow> packet_type_t \<Rightarrow> u8 list \<Rightarrow> ('p, 'a) client_table_op list \<Rightarrow>
   ('p, 'a) packet_client_env \<Rightarrow> (bool \<times> ('p, 'a) packet_client_env) result" where
  "client_payload_interleaved S this packet_type buffer ops e =
     (case client_table this e packet_type of
        None \<Rightarrow> Inr (False, fold (client_table_step this) ops e)
      | Some _ \<Rightarrow> UdpPacketClient_use_handler S this packet_type buffer
          (client_iterator_valid this ops e packet_type) (fold (client_table_step this) ops e))"

lemma client_payload_uninterrupted:
  "client_payload_interleaved S this packet_type buffer [] e = UdpPacketClient_handle_payload S this packet_type buffer e"
  by (auto simp: client_payload_interleaved_def UdpPacketClient_use_handler_def UdpPacketClient_handle_payload_def
      Let_def deref_entry_def client_iterator_valid_def client_table_def split: option.split)

lemma client_payload_interleaved_eq:
  "client_payload_interleaved S this t buffer ops e =
    (let e' = fold (client_table_step this) ops e in
     case client_table this e t of
       None \<Rightarrow> Inr (False, e')
     | Some handler \<Rightarrow>
         (case deserialize_packet S (drop 8 buffer) (length buffer - 8) of
            None \<Rightarrow> Inr (False, e')
          | Some payload \<Rightarrow>
              if client_iterator_valid this ops e t
              then bind_result (call_client_handler handler payload e') (\<lambda>e. Inr (True, e))
              else Inl Use_after_free))"
  using client_iterator.deref_after [of this e t _ ops]
  by (auto simp: client_payload_interleaved_def UdpPacketClient_use_handler_def Let_def client_iterator_valid_def
      split: option.split)

section \<open>The client table of a server\<close>

text \<open>
  \<^verbatim>\<open>get_client_info\<close> returns a pointer into \<^verbatim>\<open>m_clients\<close> after it released the mutex. While the
  network thread is between that call and the use of the pointer, the application thread may run
  these operations. (A \<^verbatim>\<open>stop\<close> there gets no further than the join before the network thread is done.)
\<close>

datatype 'w server_app_op =
    App_send kb_connection_t "u8 list" u32 bool
  | App_broadcast "u8 list" u32 bool
  | App_disconnect kb_connection_t i32
  | App_set_on_data "'w data_received_callback_func_t option"

fun server_app_step :: "steam_api \<Rightarrow> nat \<Rightarrow> 'w server_app_op \<Rightarrow> 'w server_world \<Rightarrow> 'w server_world" where
  "server_app_step st this (App_send conn bytes sz reliable) w =
     w\<lparr>senv := snd (UdpServer_send st conn bytes sz reliable (senv w))\<rparr>"
| "server_app_step st this (App_broadcast bytes sz reliable) w = snd (UdpServer_broadcast st this bytes sz reliable w)"
| "server_app_step st this (App_disconnect conn reason) w = UdpServer_disconnect this conn reason w"
| "server_app_step st this (App_set_on_data f) w = UdpServer_set_on_data_callback this f w"

fun client_erased :: "'w server_app_op \<Rightarrow> 'w server_world \<Rightarrow> kb_connection_t \<Rightarrow> bool" where
  "client_erased (App_disconnect conn reason) w c \<longleftrightarrow> conn = c"
| "client_erased _ w c \<longleftrightarrow> False"

definition client_pointer_valid ::
  "steam_api \<Rightarrow> nat \<Rightarrow> 'w server_app_op list \<Rightarrow> 'w server_world \<Rightarrow> kb_connection_t \<Rightarrow> bool" where
  "client_pointer_valid st this = entry_valid (server_app_step st this) client_erased"

lemma map_find_erase_other: "k' \<noteq> k \<Longrightarrow> map_find (map_erase m k') k = map_find m k"
  by (induction m k' rule: map_erase.induct) auto

lemma server_app_step_clients:
  "UdpServer_get_client_info this c (server_app_step st this op w) =
    (case op of App_disconnect conn reason \<Rightarrow> map_find (map_erase (us_clients (servers w this)) conn) c
     | _ \<Rightarrow> UdpServer_get_client_info this c w)"
  by (cases op)
    (simp_all add: UdpServer_get_client_info_def UdpServer_disconnect_def broadcast_eq Let_def
      UdpServer_set_on_data_callback_def)

interpretation client_pointer: lookup_then_use
    "\<lambda>w c. UdpServer_get_client_info this c w" "server_app_step st this" client_erased
  for st :: steam_api and this :: nat
proof
  fix w :: "'a server_world" and c v op
  assume "UdpServer_get_client_info this c w = Some v" and "\<not> client_erased op w c"
  then show "UdpServer_get_client_info this c (server_app_step st this op w) = Some v"
    unfolding server_app_step_clients
    by (cases op) (auto simp: UdpServer_get_client_info_def map_find_erase_other)
qed

text \<open>The pointer dangles exactly if the application disconnects that client.\<close>

lemma client_erased_iff: "client_erased op w c \<longleftrightarrow> (\<exists>reason. op = App_disconnect c reason)"
  by (cases op) auto

lemma client_pointer_valid_iff:
  "client_pointer_valid st this ops w c \<longleftrightarrow> (\<forall>reason. App_disconnect c reason \<notin> set ops)"
  unfolding client_pointer_valid_def by (induction ops arbitrary: w) (auto simp: client_erased_iff)

text \<open>One iteration of the message loop of \<^verbatim>\<open>poll\<close>, up to the pointer \<^verbatim>\<open>client\<close> and from there on. The
  member \<^verbatim>\<open>m_data_received_callback\<close> is tested before and called after.\<close>

definition UdpServer_deliver_find :: "nat \<Rightarrow> steam_message \<Rightarrow> 'w server_world \<Rightarrow> kb_connection_t option" where
  "UdpServer_deliver_find this message w =
     (if us_on_data (servers w this) = None then None
      else if UdpServer_get_client_info this (sm_conn message) w = None then None
      else Some (sm_conn message))"

definition UdpServer_deliver_use ::
  "nat \<Rightarrow> steam_message \<Rightarrow> kb_connection_t option \<Rightarrow> bool \<Rightarrow> 'w server_world \<Rightarrow> 'w server_world result" where
  "UdpServer_deliver_use this message client valid w =
     (case client of
        None \<Rightarrow> Inr w
      | Some conn \<Rightarrow> call_function (us_on_data (servers w this)) (\<lambda>callback.
          bind_result (deref_entry valid (\<lambda>w c. UdpServer_get_client_info this c w) conn w) (\<lambda>client.
            run_env (callback client (sm_data message)) w)))"

definition server_deliver_interleaved ::
  "steam_api \<Rightarrow> nat \<Rightarrow> steam_message \<Rightarrow> 'w server_app_op list \<Rightarrow> 'w server_world \<Rightarrow> 'w server_world result" where
  "server_deliver_interleaved st this message ops w =
     UdpServer_deliver_use this message (UdpServer_deliver_find this message w)
       (client_pointer_valid st this ops w (sm_conn message)) (fold (server_app_step st this) ops w)"

lemma server_deliver_uninterrupted:
  "server_deliver_interleaved st this message [] w = UdpServer_deliver this message w"
  by (auto simp: server_deliver_interleaved_def UdpServer_deliver_use_def UdpServer_deliver_find_def
      UdpServer_deliver_def deref_entry_def client_pointer_valid_def split: option.split)

lemma server_deliver_interleaved_eq:
  "server_deliver_interleaved st this m ops w =
    (let w' = fold (server_app_step st this) ops w in
     case us_on_data (servers w this) of
       None \<Rightarrow> Inr w'
     | Some _ \<Rightarrow>
         (case UdpServer_get_client_info this (sm_conn m) w of
            None \<Rightarrow> Inr w'
          | Some client \<Rightarrow> call_function (us_on_data (servers w' this)) (\<lambda>callback.
              if client_pointer_valid st this ops w (sm_conn m) then run_env (callback client (sm_data m)) w'
              else Inl Use_after_free)))"
  using client_pointer.deref_after [where st = st and this = this and s = w and k = "sm_conn m" and ops = ops]
  by (auto simp: server_deliver_interleaved_def UdpServer_deliver_use_def UdpServer_deliver_find_def Let_def
      client_pointer_valid_def intro!: arg_cong [where f = "call_function _"] split: option.split)

section \<open>The last reference to a packet object\<close>

text \<open>The callback registered by \<^verbatim>\<open>create\<close> holds a \<^verbatim>\<open>shared_ptr\<close> to its object while a message is
  handled. If the application drops its own reference meanwhile, the destructor runs where the callback
  ends, on thread \<open>caller\<close>.\<close>

definition packet_client_on_data_last_owner ::
  "('o, 'p, 'b) serializer \<Rightarrow> client_thread \<Rightarrow> nat \<Rightarrow> incoming_view_message_t \<Rightarrow> ('p, 'a) packet_client_world \<Rightarrow>
   ('p, 'a) packet_client_world result" where
  "packet_client_on_data_last_owner S caller this p_message w =
     bind_result (UdpPacketClient_handle_message S this p_message (cenv w)) (\<lambda>(_, e).
       UdpPacketClient_delete caller this (w\<lparr>cenv := e\<rparr>))"

definition packet_server_on_data_last_owner ::
  "('o, 'p, 'b) serializer \<Rightarrow> thread_id \<Rightarrow> nat \<Rightarrow> client_info_t \<Rightarrow> u8 list \<Rightarrow> ('p, 'a) packet_world \<Rightarrow>
   ('p, 'a) packet_world result" where
  "packet_server_on_data_last_owner S caller this client data w =
     bind_result (UdpPacketServer_handle_packet S this client data (length data) (senv w)) (\<lambda>(_, e).
       UdpPacketServer_delete caller this (w\<lparr>senv := e\<rparr>))"

end
