(* ===== verification/Step_Loop.thy ===== *)
theory Step_Loop
  imports Main
begin

text \<open>
  A loop cut into single steps that another thread may come between: the contract under which it
  reaches its end once nobody comes between any more. \<open>Fine_Server\<close> and \<open>Fine_Client\<close> are instances,
  with the network loops of \<^verbatim>\<open>udp_server.cpp\<close> and \<^verbatim>\<open>udp_client.cpp\<close>.
\<close>

locale step_loop =
  fixes step :: "'c \<Rightarrow> 'c"
    and ok :: "'c \<Rightarrow> bool"
    and final :: "'c \<Rightarrow> bool"
    and rank :: "'c \<Rightarrow> nat \<times> nat"
  assumes ok_step: "ok c \<Longrightarrow> ok (step c)"
    and progress: "ok c \<Longrightarrow> \<not> final c \<Longrightarrow> (rank (step c), rank c) \<in> less_than <*lex*> less_than"
begin

lemma ok_run: "ok c \<Longrightarrow> ok ((step ^^ k) c)"
  by (induction k) (simp_all add: ok_step)

lemma reaches_final:
  assumes "ok c"
  shows "\<exists>k. ok ((step ^^ k) c) \<and> final ((step ^^ k) c)"
proof -
  have "wf (inv_image (less_than <*lex*> less_than) rank)" by (simp add: wf_lex_prod)
  then show ?thesis
    using assms
  proof (induction c rule: wf_induct_rule)
    case (less c)
    show ?case
    proof (cases "final c")
      case True
      with less.prems show ?thesis by (intro exI [of _ 0]) simp
    next
      case False
      have "(step c, c) \<in> inv_image (less_than <*lex*> less_than) rank" using progress [OF less.prems False] by simp
      then obtain k where "ok ((step ^^ k) (step c)) \<and> final ((step ^^ k) (step c))"
        using less.IH ok_step [OF less.prems] by blast
      then show ?thesis by (intro exI [of _ "Suc k"]) (simp add: funpow_swap1)
    qed
  qed
qed

end

end
