(* ===== verification/Fine_Server.thy ===== *)
theory Fine_Server
  imports Interleaving Server_Properties Step_Loop
begin

text \<open>
  One started server at the grain of its message loop: the network thread of \<^verbatim>\<open>UdpServer\<close>
  (\<^verbatim>\<open>network_loop\<close>, \<^verbatim>\<open>poll\<close> and \<^verbatim>\<open>connection_status_changed_callback\<close> of \<^verbatim>\<open>udp_server.cpp\<close>) receives, tests
  the data callback, looks up the client of a message, calls the callback, releases the message, and for
  each event tests the static pointer and reads it again, in separate steps. Handling one event is one step. The application may run any of its operations
  between two of them. \<open>Server_System\<close> has a whole poll as one step.
\<close>

section \<open>States and steps\<close>

text \<open>Where the network thread is: before the loop test, before the receive, before the test of the
  callback for the first message of a list of which \<open>n\<close> are still to be handled, before the lookup of the
  client of message \<open>m\<close> with \<open>n\<close> more to come, before the call, before the release of \<open>m\<close>, before the
  test of \<^verbatim>\<open>s_instance\<close> for the first of some events, between that test and the second read, after the
  loop of \<^verbatim>\<open>network_loop\<close>, or stopped by a fault.\<close>

datatype fine_pc =
    Fine_check
  | Fine_receive
  | Fine_lookup nat "steam_message list"
  | Fine_find steam_message nat "steam_message list"
  | Fine_call steam_message nat "steam_message list"
  | Fine_release steam_message nat "steam_message list"
  | Fine_events "status_changed list"
  | Fine_event status_changed "status_changed list"
  | Fine_exited
  | Fine_fault fault

record 'w fine_system =
  fine_world :: "'w server_world"
  fine_net :: fine_pc
  fine_joining :: bool

text \<open>The steps of the network thread, on the world. The application never inserts a client, so the
  pointer kept between lookup and call is valid as long as the entry is there.\<close>

definition fine_after :: "fine_pc \<Rightarrow> 'w server_world \<Rightarrow> 'w server_world result \<Rightarrow> fine_pc \<times> 'w server_world" where
  "fine_after pc w r = (case r of Inl f \<Rightarrow> (Fine_fault f, w) | Inr w' \<Rightarrow> (pc, w'))"

text \<open>\<^verbatim>\<open>connection_status_changed_callback\<close>, cut between the test of \<^verbatim>\<open>s_instance\<close> and the call through it.\<close>

definition UdpServer_callback_test :: "'w server_world \<Rightarrow> bool" where
  [simp]: "UdpServer_callback_test w \<longleftrightarrow> server_instance w \<noteq> None"

definition UdpServer_callback_use :: "steam_api \<Rightarrow> status_changed \<Rightarrow> 'w server_world \<Rightarrow> 'w server_world result" where
  [simp]: "UdpServer_callback_use st p_info w =
     (case server_instance w of
        None \<Rightarrow> Inl Null_pointer
      | Some this \<Rightarrow> UdpServer_on_connection_status_changed st this p_info w)"

fun fine_net_step :: "steam_api \<Rightarrow> nat \<Rightarrow> fine_pc \<Rightarrow> 'w server_world \<Rightarrow> fine_pc \<times> 'w server_world" where
  "fine_net_step st this Fine_check w =
     (if us_is_running (servers w this) then (Fine_receive, w) else (Fine_exited, w))"
| "fine_net_step st this Fine_receive w =
     (let pg = us_poll_group (servers w this);
          (n, messages) = receive_on_poll_group st (server_history w) pg k_message_count in
      (Fine_lookup (u32_count n) messages, server_log (ReceiveMessagesOnPollGroup pg k_message_count) w))"
| "fine_net_step st this (Fine_lookup (Suc n) (m # ms)) w =
     (case us_on_data (servers w this) of
        None \<Rightarrow> (Fine_release m n ms, w)
      | Some _ \<Rightarrow> (Fine_find m n ms, w))"
| "fine_net_step st this (Fine_lookup (Suc n) []) w = (Fine_fault Uninitialised_read, w)"
| "fine_net_step st this (Fine_lookup 0 ms) w =
     (Fine_events (run_callbacks st (server_history w)), server_log RunCallbacks w)"
| "fine_net_step st this (Fine_find m n ms) w =
     (case UdpServer_get_client_info this (sm_conn m) w of
        None \<Rightarrow> (Fine_release m n ms, w)
      | Some _ \<Rightarrow> (Fine_call m n ms, w))"
| "fine_net_step st this (Fine_call m n ms) w =
     fine_after (Fine_release m n ms) w (UdpServer_deliver_use this m (Some (sm_conn m)) True w)"
| "fine_net_step st this (Fine_release m n ms) w = (Fine_lookup n ms, server_log (ReleaseMessage m) w)"
| "fine_net_step st this (Fine_events []) w = (Fine_check, w)"
| "fine_net_step st this (Fine_events (ev # evs)) w =
     (if UdpServer_callback_test w then (Fine_event ev evs, w) else (Fine_events evs, w))"
| "fine_net_step st this (Fine_event ev evs) w = fine_after (Fine_events evs) w (UdpServer_callback_use st ev w)"
| "fine_net_step st this Fine_exited w = (Fine_exited, w)"
| "fine_net_step st this (Fine_fault f) w = (Fine_fault f, w)"

text \<open>The application's operations come from the set \<open>ops\<close>. \<^verbatim>\<open>stop\<close> clears \<^verbatim>\<open>s_instance\<close> and
  \<^verbatim>\<open>m_is_running\<close>, waits for the network thread, and the application does nothing else while it waits.\<close>

inductive fine_step :: "steam_api \<Rightarrow> nat \<Rightarrow> 'w server_app_op set \<Rightarrow> 'w fine_system \<Rightarrow> 'w fine_system \<Rightarrow> bool" for st this ops where
  net:
    "fine_net_step st this (fine_net s) (fine_world s) = (pc, w) \<Longrightarrow>
     fine_step st this ops s (s\<lparr>fine_world := w, fine_net := pc\<rparr>)"
| app:
    "\<not> fine_joining s \<Longrightarrow> op \<in> ops \<Longrightarrow>
     fine_step st this ops s (s\<lparr>fine_world := server_app_step st this op (fine_world s)\<rparr>)"
| stop:
    "\<not> fine_joining s \<Longrightarrow> UdpServer_stop_begin this (fine_world s) = (True, w) \<Longrightarrow>
     fine_step st this ops s (s\<lparr>fine_world := w, fine_joining := True\<rparr>)"

text \<open>From a server that \<^verbatim>\<open>start_async\<close> just started.\<close>

inductive fine_reachable :: "steam_api \<Rightarrow> nat \<Rightarrow> 'w server_app_op set \<Rightarrow> 'w fine_system \<Rightarrow> bool" for st this ops where
  started:
    "world_ok w \<Longrightarrow> UdpServer_start_async st this port w = Inr (True, w') \<Longrightarrow>
     fine_reachable st this ops \<lparr>fine_world = w', fine_net = Fine_check, fine_joining = False\<rparr>"
| step: "fine_reachable st this ops s \<Longrightarrow> fine_step st this ops s t \<Longrightarrow> fine_reachable st this ops t"

text \<open>The steps of one poll without the application, one after another, are \<^verbatim>\<open>poll\<close>.\<close>

definition fine_run :: "nat \<Rightarrow> steam_api \<Rightarrow> nat \<Rightarrow> fine_pc \<times> 'w server_world \<Rightarrow> fine_pc \<times> 'w server_world" where
  "fine_run k st this = (\<lambda>(pc, w). fine_net_step st this pc w) ^^ k"

lemma fine_run_simps [simp]:
  "fine_run 0 st this s = s"
  "fine_run (Suc k) st this (pc, w) = fine_run k st this (fine_net_step st this pc w)"
  by (simp_all add: fine_run_def funpow_swap1)

lemma fine_run_add: "fine_run (j + k) st this s = fine_run k st this (fine_run j st this s)"
  by (simp add: fine_run_def add.commute [of j] funpow_add)

lemma fine_deliver:
  "\<exists>k. fine_run k st this (Fine_lookup (Suc n) (m # ms), w) =
    (case UdpServer_deliver this m w of
       Inl f \<Rightarrow> (Fine_fault f, w) | Inr w' \<Rightarrow> (Fine_lookup n ms, server_log (ReleaseMessage m) w'))"
proof (cases "us_on_data (servers w this)")
  case None
  then show ?thesis by (intro exI [of _ "Suc 1"]) (simp add: UdpServer_deliver_def)
next
  case (Some f)
  show ?thesis
  proof (cases "UdpServer_get_client_info this (sm_conn m) w")
    case None
    with Some show ?thesis by (intro exI [of _ "Suc (Suc 1)"]) (simp add: UdpServer_deliver_def)
  next
    case (Some c)
    have "UdpServer_deliver_use this m (Some (sm_conn m)) True w = UdpServer_deliver this m w"
      using Some \<open>us_on_data (servers w this) = Some f\<close>
      by (simp add: UdpServer_deliver_use_def UdpServer_deliver_def deref_entry_def)
    then have run: "fine_run (Suc (Suc (Suc k))) st this (Fine_lookup (Suc n) (m # ms), w) =
        fine_run k st this (fine_after (Fine_release m n ms) w (UdpServer_deliver this m w))" for k
      using Some \<open>us_on_data (servers w this) = Some f\<close> by simp
    show ?thesis
    proof (cases "UdpServer_deliver this m w")
      case (Inl fault)
      then show ?thesis using run [of 0] by (intro exI [of _ "Suc (Suc (Suc 0))"]) (simp add: fine_after_def)
    next
      case (Inr v)
      then show ?thesis using run [of 1] by (intro exI [of _ "Suc (Suc (Suc 1))"]) (simp add: fine_after_def)
    qed
  qed
qed

lemma fine_messages:
  assumes "deliver_messages this ms w = Inr w'"
  shows "\<exists>k. fine_run k st this (Fine_lookup (length ms) ms, w) = (Fine_lookup 0 [], w')"
  using assms
proof (induction ms arbitrary: w)
  case Nil
  then show ?case by (intro exI [of _ 0]) simp
next
  case (Cons m ms)
  then obtain w1 where w1: "UdpServer_deliver this m w = Inr w1"
    "deliver_messages this ms (server_log (ReleaseMessage m) w1) = Inr w'"
    by (auto simp: bind_result_eq_Inr)
  obtain j where "fine_run j st this (Fine_lookup (length (m # ms)) (m # ms), w) =
      (Fine_lookup (length ms) ms, server_log (ReleaseMessage m) w1)"
    using fine_deliver [of st this "length ms" m ms w] w1(1) by auto
  moreover obtain k where "fine_run k st this (Fine_lookup (length ms) ms, server_log (ReleaseMessage m) w1) = (Fine_lookup 0 [], w')"
    using Cons.IH [OF w1(2)] by blast
  ultimately show ?case by (intro exI [of _ "j + k"]) (simp add: fine_run_add)
qed

lemma fine_events:
  assumes "server_dispatch st evs w = Inr w'"
  shows "\<exists>k. fine_run k st this (Fine_events evs, w) = (Fine_check, w')"
  using assms
proof (induction evs arbitrary: w)
  case Nil
  then show ?case by (intro exI [of _ 1]) simp
next
  case (Cons ev evs)
  then obtain w1 where w1: "UdpServer_connection_status_changed_callback st ev w = Inr w1" "server_dispatch st evs w1 = Inr w'"
    by (auto simp: bind_result_eq_Inr)
  obtain k where k: "fine_run k st this (Fine_events evs, w1) = (Fine_check, w')" using Cons.IH [OF w1(2)] by blast
  show ?case
  proof (cases "server_instance w")
    case None
    with k w1(1) show ?thesis
      by (intro exI [of _ "Suc k"]) (simp add: UdpServer_connection_status_changed_callback_def)
  next
    case (Some i)
    with k w1(1) show ?thesis
      by (intro exI [of _ "Suc (Suc k)"]) (simp add: UdpServer_connection_status_changed_callback_def fine_after_def)
  qed
qed

lemma fine_poll:
  assumes "UdpServer_poll st this w = Inr w'" and "messages_ok st"
    and "us_poll_group (servers w this) \<in> live_poll_groups (server_history w)"
  shows "\<exists>k. fine_run k st this (Fine_receive, w) = (Fine_check, w')"
proof -
  let ?pg = "us_poll_group (servers w this)"
  let ?w = "server_log (ReceiveMessagesOnPollGroup ?pg k_message_count) w"
  obtain n ms where recv: "receive_on_poll_group st (server_history w) ?pg k_message_count = (n, ms)" by fastforce
  then have n: "n = int (length ms)" "length ms \<le> 32"
    using assms(2,3) unfolding messages_ok_def k_message_count_def by (metis fst_conv snd_conv)+
  then have count: "u32_count n = length ms" by simp
  obtain w1 where w1: "deliver_messages this ms ?w = Inr w1"
    "server_dispatch st (run_callbacks st (server_history w1)) (server_log RunCallbacks w1) = Inr w'"
    using assms(1) by (auto simp: UdpServer_poll_def Let_def recv count server_message_loop_eq bind_result_eq_Inr)
  obtain k where "fine_run k st this (Fine_lookup (length ms) ms, ?w) = (Fine_lookup 0 [], w1)"
    using fine_messages [OF w1(1)] by blast
  moreover obtain j where "fine_run j st this (Fine_events (run_callbacks st (server_history w1)), server_log RunCallbacks w1) = (Fine_check, w')"
    using fine_events [OF w1(2)] by blast
  ultimately have "fine_run (Suc (k + Suc j)) st this (Fine_receive, w) = (Fine_check, w')"
    by (simp only: fine_run_simps fine_run_add) (simp add: recv count Let_def)
  then show ?thesis by blast
qed

section \<open>Safety\<close>

text \<open>What the application may do: any operation, except that it registers well-behaved callbacks only.\<close>

fun op_ok :: "'w server_app_op \<Rightarrow> bool" where
  "op_ok (App_set_on_data (Some f)) \<longleftrightarrow> (\<forall>c d. well_behaved (f c d))"
| "op_ok _ \<longleftrightarrow> True"

abbreviation disconnects :: "'w server_app_op set \<Rightarrow> bool" where
  "disconnects ops \<equiv> \<exists>c reason. App_disconnect c reason \<in> ops"

text \<open>What holds at each place of the network thread: only a disconnect can erase a client whose
  pointer the thread keeps, only taking the callback away can empty it behind its test, and only a
  \<^verbatim>\<open>stop\<close> can clear \<^verbatim>\<open>s_instance\<close> between its test and its use.\<close>

abbreviation unsets_data :: "'w server_app_op set \<Rightarrow> bool" where
  "unsets_data ops \<equiv> App_set_on_data None \<in> ops"

fun fine_pc_ok :: "bool \<Rightarrow> bool \<Rightarrow> bool \<Rightarrow> nat \<Rightarrow> fine_pc \<Rightarrow> 'w server_world \<Rightarrow> bool" where
  "fine_pc_ok erases unset joining this (Fine_lookup n ms) w \<longleftrightarrow> n = length ms"
| "fine_pc_ok erases unset joining this (Fine_find m n ms) w \<longleftrightarrow> n = length ms \<and>
     (unset \<or> us_on_data (servers w this) \<noteq> None)"
| "fine_pc_ok erases unset joining this (Fine_call m n ms) w \<longleftrightarrow> n = length ms \<and>
     (unset \<or> us_on_data (servers w this) \<noteq> None) \<and> (erases \<or> UdpServer_get_client_info this (sm_conn m) w \<noteq> None)"
| "fine_pc_ok erases unset joining this (Fine_release m n ms) w \<longleftrightarrow> n = length ms"
| "fine_pc_ok erases unset joining this (Fine_fault f) w \<longleftrightarrow>
     f = Use_after_free \<and> erases \<or> f = Terminate \<and> unset \<or> f = Null_pointer \<and> joining"
| "fine_pc_ok erases unset joining this Fine_exited w \<longleftrightarrow> joining"
| "fine_pc_ok erases unset joining this _ w \<longleftrightarrow> True"

text \<open>A place from which the next step cannot fault.\<close>

fun fine_faultless :: "nat \<Rightarrow> fine_pc \<Rightarrow> 'w server_world \<Rightarrow> bool" where
  "fine_faultless this (Fine_find m n ms) w \<longleftrightarrow> us_on_data (servers w this) \<noteq> None"
| "fine_faultless this (Fine_call m n ms) w \<longleftrightarrow>
     us_on_data (servers w this) \<noteq> None \<and> UdpServer_get_client_info this (sm_conn m) w \<noteq> None"
| "fine_faultless this (Fine_event ev evs) w \<longleftrightarrow> server_instance w \<noteq> None"
| "fine_faultless this (Fine_fault f) w \<longleftrightarrow> False"
| "fine_faultless this _ w \<longleftrightarrow> True"

text \<open>The world: the server holds its poll group, and the static pointer and the flag are cleared
  together.\<close>

definition fine_world_ok :: "bool \<Rightarrow> nat \<Rightarrow> 'w server_world \<Rightarrow> bool" where
  "fine_world_ok joining this w \<longleftrightarrow> world_ok w \<and> us_poll_group (servers w this) \<noteq> 0 \<and>
     us_is_running (servers w this) = (\<not> joining) \<and> server_instance w = (if joining then None else Some this)"

definition fine_ok :: "bool \<Rightarrow> bool \<Rightarrow> nat \<Rightarrow> 'w fine_system \<Rightarrow> bool" where
  "fine_ok erases unset this s \<longleftrightarrow>
     fine_world_ok (fine_joining s) this (fine_world s) \<and>
     fine_pc_ok erases unset (fine_joining s) this (fine_net s) (fine_world s)"

lemma fine_world_ok_frame: "server_frame w w' \<Longrightarrow> fine_world_ok joining this w \<Longrightarrow> fine_world_ok joining this w'"
  using world_ok_frame [of w w'] server_frame_fields [of w w'] unfolding fine_world_ok_def
  by (auto simp: server_frame_def)

text \<open>A step of the network thread: a fault, or a frame step that reaches the next place in order.\<close>

lemma fine_after_framed:
  assumes "framed w r" and "\<And>w'. server_frame w w' \<Longrightarrow> fine_pc_ok erases unset joining this pc w'"
    and "fine_after pc w r = (pc', w')"
  shows "server_frame w w'" and "fine_pc_ok erases unset joining this pc' w'"
  using assms by (auto simp: fine_after_def elim!: framedE)

lemma deliver_use_framed:
  assumes "callbacks_ok (servers w this)" and "us_on_data (servers w this) \<noteq> None"
    and "UdpServer_get_client_info this (sm_conn m) w \<noteq> None"
  shows "framed w (UdpServer_deliver_use this m (Some (sm_conn m)) True w)"
proof -
  obtain f c where f: "us_on_data (servers w this) = Some f" and c: "UdpServer_get_client_info this (sm_conn m) w = Some c"
    using assms(2,3) by auto
  have "well_behaved (f c (sm_data m))" using assms(1) f by (simp add: callbacks_ok_def)
  from run_env_framed [OF this, of w] show ?thesis by (simp add: UdpServer_deliver_use_def deref_entry_def f c)
qed

lemma fine_net_step_ok:
  assumes "steam_ok st" and "fine_world_ok joining this w" and pc: "fine_pc_ok erases unset joining this pc w"
    and step: "fine_net_step st this pc w = (pc', w')"
  shows "server_frame w w' \<and> fine_pc_ok erases unset joining this pc' w'"
proof -
  have w: "world_ok w" using assms(2) by (simp add: fine_world_ok_def)
  have cb: "callbacks_ok (servers w i)" for i using world_okD(2) [OF w] .
  show ?thesis
  proof (cases pc)
    case Fine_check
    with step assms(2) show ?thesis by (auto simp: fine_world_ok_def split: if_splits)
  next
    case Fine_receive
    let ?pg = "us_poll_group (servers w this)"
    have "?pg \<in> live_poll_groups (server_history w)"
      using world_okD(3) [OF w] assms(2) by (simp add: fine_world_ok_def)
    moreover obtain n ms where recv: "receive_on_poll_group st (server_history w) ?pg k_message_count = (n, ms)"
      by fastforce
    ultimately have "n = int (length ms)" "length ms \<le> 32"
      using assms(1) unfolding steam_ok_def messages_ok_def k_message_count_def by (metis fst_conv snd_conv)+
    with step Fine_receive show ?thesis by (auto simp: Let_def recv)
  next
    case (Fine_lookup n ms)
    show ?thesis
    proof (cases ms)
      case Nil
      with step pc Fine_lookup show ?thesis by auto
    next
      case (Cons m rest)
      with step pc Fine_lookup show ?thesis
        by (auto split: option.splits)
    qed
  next
    case (Fine_find m n ms)
    with step pc show ?thesis by (auto split: option.splits)
  next
    case (Fine_release m n ms)
    with step pc show ?thesis by auto
  next
    case (Fine_call m n ms)
    let ?r = "UdpServer_deliver_use this m (Some (sm_conn m)) True w"
    have after: "fine_after (Fine_release m n ms) w ?r = (pc', w')" using step Fine_call by simp
    show ?thesis
    proof (cases "fine_faultless this pc w")
      case False
      then have "?r = Inl Terminate \<and> unset \<or> ?r = Inl Use_after_free \<and> erases"
        using pc Fine_call
        by (cases "us_on_data (servers w this)") (auto simp: UdpServer_deliver_use_def deref_entry_def)
      with after show ?thesis by (auto simp: fine_after_def)
    next
      case True
      then have framed: "framed w ?r" using Fine_call cb by (intro deliver_use_framed) simp_all
      have "fine_pc_ok erases unset joining this (Fine_release m n ms) w1" for w1
        using pc Fine_call by simp
      then show ?thesis using fine_after_framed [OF framed _ after] by blast
    qed
  next
    case (Fine_events evs)
    with step show ?thesis by (cases evs) (auto split: if_splits)
  next
    case (Fine_event ev evs)
    show ?thesis
    proof (cases "server_instance w")
      case None
      then show ?thesis using step Fine_event assms(2) by (auto simp: fine_after_def fine_world_ok_def split: if_splits)
    next
      case (Some i)
      have "framed w (UdpServer_on_connection_status_changed st i ev w)"
        using assms(1) cb by (intro on_status_framed) (simp_all add: steam_ok_def)
      note after = fine_after_framed [OF this, where pc = "Fine_events evs" and erases = erases and unset = unset and joining = joining and this = this]
      have "fine_after (Fine_events evs) w (UdpServer_on_connection_status_changed st i ev w) = (pc', w')"
        using step Fine_event Some by simp
      with after show ?thesis by simp
    qed
  next
    case Fine_exited
    with step pc show ?thesis by auto
  next
    case (Fine_fault f)
    with step pc show ?thesis by auto
  qed
qed

text \<open>A step of the application.\<close>

lemma set_on_data_world_ok:
  assumes "world_ok w" and "op_ok (App_set_on_data f)"
  shows "world_ok (UdpServer_set_on_data_callback this f w)"
  using assms world_okD [OF assms(1)]
  by (intro world_ok_cong [OF assms(1)])
    (cases f; force simp: UdpServer_set_on_data_callback_def callbacks_ok_def split: if_splits)+

lemma server_app_step_ok:
  assumes "fine_world_ok joining this w" and "op_ok op"
  shows "fine_world_ok joining this (server_app_step st this op w)"
    and "us_is_running (servers (server_app_step st this op w) this) = us_is_running (servers w this)"
    and "op \<noteq> App_set_on_data None \<Longrightarrow> us_on_data (servers w this) \<noteq> None \<Longrightarrow>
      us_on_data (servers (server_app_step st this op w) this) \<noteq> None"
proof -
  have frame: "server_frame w (server_app_step st this op w)" if "\<forall>f. op \<noteq> App_set_on_data f"
  proof (cases op)
    case (App_send conn bytes sz reliable)
    have "env_frame (senv w) (snd (UdpServer_send st conn bytes sz reliable (senv w)))"
      by (rule send_frame) (rule surjective_pairing)
    then show ?thesis using App_send by (simp add: server_frame_env)
  next
    case (App_broadcast bytes sz reliable)
    then show ?thesis using broadcast_frame by (metis server_app_step.simps(2) surjective_pairing)
  qed (use that disconnect_frame in auto)
  have "fine_world_ok joining this (server_app_step st this op w) \<and>
    us_is_running (servers (server_app_step st this op w) this) = us_is_running (servers w this) \<and>
    (op \<noteq> App_set_on_data None \<and> us_on_data (servers w this) \<noteq> None \<longrightarrow>
      us_on_data (servers (server_app_step st this op w) this) \<noteq> None)"
  proof (cases "\<exists>f. op = App_set_on_data f")
    case True
    then show ?thesis
    proof (elim exE)
      fix f assume op: "op = App_set_on_data f"
      show ?thesis
        using assms set_on_data_world_ok [of w f this] op
        by (cases f) (simp_all add: fine_world_ok_def UdpServer_set_on_data_callback_def)
    qed
  next
    case False
    then show ?thesis
      using assms(1) fine_world_ok_frame [OF frame] server_frame_fields [OF frame] by auto
  qed
  then show "fine_world_ok joining this (server_app_step st this op w)"
    and "us_is_running (servers (server_app_step st this op w) this) = us_is_running (servers w this)"
    and "op \<noteq> App_set_on_data None \<Longrightarrow> us_on_data (servers w this) \<noteq> None \<Longrightarrow>
      us_on_data (servers (server_app_step st this op w) this) \<noteq> None"
    by auto
qed

text \<open>An operation of the application leaves the network thread where it is.\<close>

lemma fine_pc_ok_app:
  assumes "fine_world_ok joining this w" and "op_ok op" and "\<not> erases \<Longrightarrow> \<forall>c reason. op \<noteq> App_disconnect c reason"
    and "\<not> unset \<Longrightarrow> op \<noteq> App_set_on_data None" and "fine_pc_ok erases unset joining this pc w"
  shows "fine_pc_ok erases unset joining this pc (server_app_step st this op w)"
proof -
  have data: "unset \<or> us_on_data (servers (server_app_step st this op w) this) \<noteq> None"
    if "unset \<or> us_on_data (servers w this) \<noteq> None"
    using server_app_step_ok(3) [OF assms(1,2)] assms(4) that by blast
  show ?thesis
  proof (cases pc)
    case (Fine_call m n ms)
    have "erases \<or> UdpServer_get_client_info this (sm_conn m) (server_app_step st this op w) \<noteq> None"
      using assms(3,5) Fine_call unfolding server_app_step_clients by (auto split: server_app_op.split)
    with data assms(5) Fine_call show ?thesis by simp
  qed (use assms(5) data in simp_all)
qed

text \<open>The first part of \<^verbatim>\<open>stop\<close>.\<close>

lemma fine_stop_ok:
  assumes "fine_world_ok False this w" and "fine_pc_ok erases unset False this pc w"
    and stop: "UdpServer_stop_begin this w = (was, w')"
  shows "fine_world_ok True this w'" and "fine_pc_ok erases unset True this pc w'"
proof -
  have eq: "w' = upd_server this (us_is_running_update (\<lambda>_. False)) (w\<lparr>server_instance := None\<rparr>)"
    using stop by (simp add: stop_begin_eq)
  show "fine_world_ok True this w'"
    using assms(1) stop_begin_world_ok [OF _ stop] by (simp add: fine_world_ok_def eq)
  show "fine_pc_ok erases unset True this pc w'"
    using assms(2) by (cases pc) (auto simp: eq UdpServer_get_client_info_def)
qed

lemma fine_step_ok:
  assumes "steam_ok st" and "\<forall>op \<in> ops. op_ok op" and "fine_step st this ops s t"
    and ok: "fine_ok (disconnects ops) (unsets_data ops) this s"
  shows "fine_ok (disconnects ops) (unsets_data ops) this t"
  using assms(3)
proof cases
  case (net pc w)
  have "server_frame (fine_world s) w \<and> fine_pc_ok (disconnects ops) (unsets_data ops) (fine_joining s) this pc w"
    using ok net(2) by (intro fine_net_step_ok [OF assms(1)]) (simp_all add: fine_ok_def)
  with ok net(1) fine_world_ok_frame show ?thesis
    by (auto simp: fine_ok_def)
next
  case (app op)
  let ?w = "server_app_step st this op (fine_world s)"
  have op: "op_ok op" using assms(2) app(3) by blast
  have w: "fine_world_ok (fine_joining s) this (fine_world s)" using ok by (simp add: fine_ok_def)
  have "fine_pc_ok (disconnects ops) (unsets_data ops) (fine_joining s) this (fine_net s) ?w"
    using ok app(3) by (intro fine_pc_ok_app [OF w op]) (auto simp: fine_ok_def)
  with app server_app_step_ok(1) [OF w op] show ?thesis by (simp add: fine_ok_def)
next
  case (stop w)
  have "fine_world_ok False this (fine_world s)" and "fine_pc_ok (disconnects ops) (unsets_data ops) False this (fine_net s) (fine_world s)"
    using ok stop(2) by (simp_all add: fine_ok_def)
  from fine_stop_ok [OF this stop(3)] stop(1) show ?thesis by (simp add: fine_ok_def)
qed

lemma start_async_fine_ok:
  assumes "steam_ok st" and "world_ok w" and "UdpServer_start_async st this port w = Inr (True, w')"
  shows "fine_world_ok False this w'"
proof -
  obtain b w1 where m: "UdpServer_start_manual st this port w = (b, w1)" by fastforce
  have w': "w' = upd_server this (us_network_thread_update (\<lambda>_. True)) w1" and b: b
    using assms(3) m by (auto simp: UdpServer_start_async_def split: bool.splits if_splits)
  have w1: "world_ok w1" using start_manual_world_ok [OF assms(1,2) m] .
  have run: "us_is_running (servers w1 this)" using start_manual_fields(4) [OF m] b by blast
  then have "us_poll_group (servers w1 this) \<noteq> 0" using w1 world_okD(4) by blast
  moreover have "server_instance w1 = Some this"
    using m b by (cases rule: start_manual_cases) simp_all
  ultimately show ?thesis using w1 run by (simp add: w' fine_world_ok_def upd_thread_world_ok)
qed

lemma fine_reachable_ok:
  assumes "steam_ok st" and "\<forall>op \<in> ops. op_ok op" and "fine_reachable st this ops s"
  shows "fine_ok (disconnects ops) (unsets_data ops) this s"
  using assms(3)
proof induction
  case (started w port w')
  then show ?case using start_async_fine_ok [OF assms(1)] by (simp add: fine_ok_def)
next
  case (step s t)
  then show ?case using fine_step_ok [OF assms(1,2)] by blast
qed

section \<open>The way out\<close>

text \<open>While the application waits in \<^verbatim>\<open>stop\<close>, events are dropped at the test of \<^verbatim>\<open>s_instance\<close>, and each
  step brings the network thread closer to its exit.\<close>

fun fine_rank :: "fine_pc \<Rightarrow> nat \<times> nat" where
  "fine_rank Fine_receive = (4, 0)"
| "fine_rank (Fine_lookup n ms) = (3, 4 * n)"
| "fine_rank (Fine_find m n ms) = (3, 4 * n + 3)"
| "fine_rank (Fine_call m n ms) = (3, 4 * n + 2)"
| "fine_rank (Fine_release m n ms) = (3, 4 * n + 1)"
| "fine_rank (Fine_events evs) = (2, length evs)"
| "fine_rank Fine_check = (1, 0)"
| "fine_rank _ = (0, 0)"

definition fine_draining :: "steam_api \<Rightarrow> nat \<Rightarrow> fine_pc \<times> 'w server_world \<Rightarrow> bool" where
  "fine_draining st this = (\<lambda>(pc, w). steam_ok st \<and> fine_world_ok True this w \<and>
     fine_pc_ok True True True this pc w \<and> fine_faultless this pc w)"

lemma fine_draining_step:
  assumes "fine_draining st this (pc, w)" and step: "fine_net_step st this pc w = (pc', w')"
  shows "fine_draining st this (pc', w')" and "pc \<noteq> Fine_exited \<Longrightarrow> (fine_rank pc', fine_rank pc) \<in> less_than <*lex*> less_than"
proof -
  have st: "steam_ok st" and w: "fine_world_ok True this w" and pc: "fine_pc_ok True True True this pc w"
    and fl: "fine_faultless this pc w"
    using assms(1) by (simp_all add: fine_draining_def)
  note ok = fine_net_step_ok [OF st w pc step]
  have "fine_faultless this pc' w' \<and>
    (pc \<noteq> Fine_exited \<longrightarrow> (fine_rank pc', fine_rank pc) \<in> less_than <*lex*> less_than)"
  proof (cases pc)
    case (Fine_call m n ms)
    have "callbacks_ok (servers w this)" using w by (intro world_okD) (simp add: fine_world_ok_def)
    then have "framed w (UdpServer_deliver_use this m (Some (sm_conn m)) True w)"
      using fl Fine_call by (intro deliver_use_framed) simp_all
    with step Fine_call show ?thesis by (auto simp: fine_after_def elim!: framedE)
  next
    case (Fine_lookup n ms)
    with step pc show ?thesis by (cases ms) (auto split: option.splits)
  next
    case (Fine_find m n ms)
    with step fl show ?thesis by (auto split: option.splits)
  next
    case (Fine_events evs)
    with step w show ?thesis by (cases evs) (auto simp: fine_world_ok_def)
  next
    case (Fine_event ev evs)
    with fl w show ?thesis by (simp add: fine_world_ok_def)
  qed (use step w fl in \<open>auto simp: fine_world_ok_def Let_def split: prod.splits\<close>)
  then show "fine_draining st this (pc', w')" and "pc \<noteq> Fine_exited \<Longrightarrow> (fine_rank pc', fine_rank pc) \<in> less_than <*lex*> less_than"
    using ok st w fine_world_ok_frame by (auto simp: fine_draining_def)
qed

interpretation fine_loop: step_loop
    "\<lambda>(pc, w). fine_net_step st this pc w" "fine_draining st this" "\<lambda>c. fst c = Fine_exited" "\<lambda>c. fine_rank (fst c)"
  for st :: steam_api and this :: nat
proof
  fix c :: "fine_pc \<times> 'a server_world"
  assume ok: "fine_draining st this c"
  then have "fine_draining st this (fst c, snd c)" by simp
  note next_step = fine_draining_step [OF this prod.collapse [symmetric]]
  show "fine_draining st this ((\<lambda>(pc, w). fine_net_step st this pc w) c)"
    using next_step(1) by (simp add: case_prod_unfold)
  show "(fine_rank (fst ((\<lambda>(pc, w). fine_net_step st this pc w) c)), fine_rank (fst c)) \<in> less_than <*lex*> less_than"
    if "fst c \<noteq> Fine_exited"
    using next_step(2) that by (simp add: case_prod_unfold)
qed

text \<open>A disconnect of the client whose pointer the network thread keeps makes its next step fault.\<close>

lemma fine_disconnect_faults:
  assumes "steam_ok st" and "\<forall>op \<in> ops. op_ok op" and "fine_reachable st this ops s"
    and call: "fine_net s = Fine_call m n ms" and "\<not> fine_joining s" and "App_disconnect (sm_conn m) reason \<in> ops"
    and data: "us_on_data (servers (fine_world s) this) \<noteq> None"
  shows "\<exists>t. fine_reachable st this ops t \<and> fine_net t = Fine_fault Use_after_free"
proof -
  let ?w = "UdpServer_disconnect this (sm_conn m) reason (fine_world s)"
  let ?s = "s\<lparr>fine_world := ?w\<rparr>"
  have "fine_reachable st this ops (s\<lparr>fine_world := server_app_step st this (App_disconnect (sm_conn m) reason) (fine_world s)\<rparr>)"
    using assms(5,6) by (intro fine_reachable.step [OF assms(3)] fine_step.app)
  then have s: "fine_reachable st this ops ?s" by simp
  have ok: "fine_ok (disconnects ops) (unsets_data ops) this s" by (rule fine_reachable_ok [OF assms(1-3)])
  then have "clients_ok (us_clients (servers (fine_world s) this))"
    by (intro world_okD) (simp add: fine_ok_def fine_world_ok_def)
  then have "UdpServer_get_client_info this (sm_conn m) ?w = None"
    by (simp add: UdpServer_get_client_info_def UdpServer_disconnect_def Let_def clients_ok_def map_find_erase)
  moreover have "us_on_data (servers ?w this) \<noteq> None"
    using data by (simp add: server_frame_fields [OF disconnect_frame])
  ultimately have "fine_net_step st this (fine_net ?s) (fine_world ?s) = (Fine_fault Use_after_free, ?w)"
    by (auto simp: call UdpServer_deliver_use_def deref_entry_def fine_after_def)
  from fine_reachable.step [OF s fine_step.net [OF this]] show ?thesis
    by (intro exI conjI) (assumption, simp)
qed

text \<open>A callback taken away between its test and its call: calling an empty \<^verbatim>\<open>std::function\<close> throws.\<close>

lemma fine_unset_faults:
  assumes "fine_reachable st this ops s" and call: "fine_net s = Fine_call m n ms" and "\<not> fine_joining s"
    and "unsets_data ops"
  shows "\<exists>t. fine_reachable st this ops t \<and> fine_net t = Fine_fault Terminate"
proof -
  let ?w = "server_app_step st this (App_set_on_data None) (fine_world s)"
  have s: "fine_reachable st this ops (s\<lparr>fine_world := ?w\<rparr>)"
    using assms(3,4) by (intro fine_reachable.step [OF assms(1)] fine_step.app)
  have "fine_net_step st this (fine_net (s\<lparr>fine_world := ?w\<rparr>)) (fine_world (s\<lparr>fine_world := ?w\<rparr>)) = (Fine_fault Terminate, ?w)"
    by (simp add: call UdpServer_set_on_data_callback_def UdpServer_deliver_use_def fine_after_def)
  from fine_reachable.step [OF s fine_step.net [OF this]] show ?thesis
    by (intro exI conjI) (assumption, simp)
qed

text \<open>A \<^verbatim>\<open>stop\<close> between the two reads of \<^verbatim>\<open>s_instance\<close>: the next step calls through a null pointer.\<close>

lemma fine_event_joining_faults:
  assumes "fine_world_ok True this w"
  shows "fine_net_step st this (Fine_event ev evs) w = (Fine_fault Null_pointer, w)"
  using assms by (simp add: fine_world_ok_def fine_after_def)

lemma fine_stop_faults:
  assumes "steam_ok st" and "\<forall>op \<in> ops. op_ok op" and "fine_reachable st this ops s"
    and event: "fine_net s = Fine_event ev evs" and "\<not> fine_joining s"
  shows "\<exists>t. fine_reachable st this ops t \<and> fine_net t = Fine_fault Null_pointer"
proof -
  have ok: "fine_ok (disconnects ops) (unsets_data ops) this s" by (rule fine_reachable_ok [OF assms(1-3)])
  then have w: "fine_world_ok False this (fine_world s)" "fine_pc_ok (disconnects ops) (unsets_data ops) False this (fine_net s) (fine_world s)"
    using assms(5) by (simp_all add: fine_ok_def)
  obtain w' where stop: "UdpServer_stop_begin this (fine_world s) = (True, w')"
    using w(1) by (simp add: UdpServer_stop_begin_def fine_world_ok_def)
  let ?s = "s\<lparr>fine_world := w', fine_joining := True\<rparr>"
  have "fine_reachable st this ops ?s"
    by (rule fine_reachable.step [OF assms(3) fine_step.stop [OF assms(5) stop]])
  moreover have "fine_net_step st this (fine_net ?s) (fine_world ?s) = (Fine_fault Null_pointer, w')"
    using fine_event_joining_faults [OF fine_stop_ok(1) [OF w stop]] event by simp
  ultimately show ?thesis
    using fine_reachable.step [OF _ fine_step.net] by fastforce
qed

text \<open>
  C11: One started server, step by step: the network thread tests the loop, receives, and for each message
  tests the callback, looks up the client, calls the callback and releases the message; then it tests the
  static pointer for each event and handles it. The application sends, broadcasts, disconnects, replaces
  the data callback by a well-behaved one or takes it away between any two of these steps, until it waits
  in \<^verbatim>\<open>stop\<close>. The network thread faults in exactly three ways, each reachable: it uses a client that a
  disconnect freed behind the lookup, it calls a callback that was taken away behind its test, or it calls
  through \<^verbatim>\<open>s_instance\<close> after a \<^verbatim>\<open>stop\<close> cleared it behind the test. If none of this has happened when the
  application waits, the thread leaves its loop.
\<close>

theorem server_fine_grained_safe:
  assumes "steam_ok st" and "\<forall>op \<in> ops. op_ok op" and "fine_reachable st this ops s"
  shows "(\<forall>f. fine_net s = Fine_fault f \<longrightarrow>
       f = Use_after_free \<and> (\<exists>c reason. App_disconnect c reason \<in> ops) \<or>
       f = Terminate \<and> App_set_on_data None \<in> ops \<or>
       f = Null_pointer \<and> fine_joining s) \<and>
    (fine_joining s \<and>
       (case fine_net s of
          Fine_find m n ms \<Rightarrow> App_set_on_data None \<in> ops \<longrightarrow> us_on_data (servers (fine_world s) this) \<noteq> None
        | Fine_call m n ms \<Rightarrow>
            (App_set_on_data None \<in> ops \<longrightarrow> us_on_data (servers (fine_world s) this) \<noteq> None) \<and>
            ((\<exists>c reason. App_disconnect c reason \<in> ops) \<longrightarrow> UdpServer_get_client_info this (sm_conn m) (fine_world s) \<noteq> None)
        | Fine_event ev evs \<Rightarrow> False
        | Fine_fault f \<Rightarrow> False
        | _ \<Rightarrow> True) \<longrightarrow>
       (\<exists>k w. fine_run k st this (fine_net s, fine_world s) = (Fine_exited, w))) \<and>
    (\<forall>m n ms reason. fine_net s = Fine_call m n ms \<and> \<not> fine_joining s \<and> App_disconnect (sm_conn m) reason \<in> ops \<and>
       us_on_data (servers (fine_world s) this) \<noteq> None \<longrightarrow>
       (\<exists>t. fine_reachable st this ops t \<and> fine_net t = Fine_fault Use_after_free)) \<and>
    (\<forall>m n ms. fine_net s = Fine_call m n ms \<and> \<not> fine_joining s \<and> App_set_on_data None \<in> ops \<longrightarrow>
       (\<exists>t. fine_reachable st this ops t \<and> fine_net t = Fine_fault Terminate)) \<and>
    (\<forall>ev evs. fine_net s = Fine_event ev evs \<and> \<not> fine_joining s \<longrightarrow>
       (\<exists>t. fine_reachable st this ops t \<and> fine_net t = Fine_fault Null_pointer))"
  (is "?faults \<and> (?drain \<longrightarrow> ?exits) \<and> _")
proof (intro conjI impI)
  have ok: "fine_ok (disconnects ops) (unsets_data ops) this s" by (rule fine_reachable_ok [OF assms])
  then show ?faults by (auto simp: fine_ok_def)
  assume drain: ?drain
  with ok have "fine_faultless this (fine_net s) (fine_world s)" and "fine_pc_ok True True True this (fine_net s) (fine_world s)"
    by (cases "fine_net s"; auto simp: fine_ok_def)+
  then have "fine_draining st this (fine_net s, fine_world s)"
    using ok assms(1) drain by (simp add: fine_draining_def fine_ok_def)
  from fine_loop.reaches_final [OF this] obtain k
    where "fst (fine_run k st this (fine_net s, fine_world s)) = Fine_exited"
    unfolding fine_run_def by blast
  then show ?exits
    by (intro exI [of _ k] exI [of _ "snd (fine_run k st this (fine_net s, fine_world s))"]) (simp add: prod_eq_iff)
qed (use fine_disconnect_faults [OF assms] fine_unset_faults [OF assms(3)] fine_stop_faults [OF assms] in blast)+

text \<open>A server with a client and a callback, started; the network thread is about to call it.\<close>

definition loaded_server :: "nat udp_server" where
  "loaded_server = udp_server_new
     \<lparr>us_on_data := Some (\<lambda>c d e. Inr (count_data c d e)), us_clients := [(5, sample_client 5)]\<rparr>"

definition loaded_world :: "nat server_world" where
  "loaded_world = idle_world\<lparr>servers := (\<lambda>_. udp_server_new)(0 := loaded_server)\<rparr>"

definition loaded_started :: "nat server_world" where
  "loaded_started =
     \<lparr>servers = (\<lambda>_. udp_server_new)(0 := loaded_server\<lparr>us_network_thread := True, us_is_running := True,
        us_port := 27015, us_listen_socket := 1, us_poll_group := 1\<rparr>),
      server_instance = Some 0, senv = \<lparr>calls = [CreateListenSocketIP 27015 1, CreatePollGroup 1], app = 0\<rparr>\<rparr>"

lemma loaded_world_ok: "world_ok loaded_world"
  by (simp add: world_ok_def loaded_world_def loaded_server_def idle_world_def server_system_init_def udp_server_new_def
      callbacks_ok_def handle_defs handles_ok_def clients_ok_def map_ok_def sample_client_def ip_address_zero_ok
      well_behaved_def count_data_def env_frame_def)

lemma start_loaded_world:
  "UdpServer_start_async (sample_steam ms evs) 0 27015 loaded_world = Inr (True, loaded_started)"
  by (simp add: UdpServer_start_async_def UdpServer_start_manual_def Let_def server_system_init_def idle_world_def
      loaded_world_def loaded_started_def loaded_server_def udp_server_new_def sample_steam_def handle_defs
      server_history_def upd_server_def server_log_def log_call_def live_poll_groups_def live_sockets_def)

lemma fine_reachable_run:
  "fine_reachable st this ops s \<Longrightarrow> fine_run k st this (fine_net s, fine_world s) = (pc, w) \<Longrightarrow>
   fine_reachable st this ops (s\<lparr>fine_world := w, fine_net := pc\<rparr>)"
proof (induction k arbitrary: s)
  case (Suc k)
  obtain pc1 w1 where step: "fine_net_step st this (fine_net s) (fine_world s) = (pc1, w1)" by fastforce
  from Suc.IH [OF fine_reachable.step [OF Suc.prems(1) fine_step.net [OF step]]] Suc.prems(2) step
  show ?case by simp
next
  case 0
  then show ?case by (cases s) simp
qed

definition one_message :: steam_api where
  "one_message = sample_steam [\<lparr>sm_conn = 5, sm_data = [1, 2, 3]\<rparr>] []"

definition calling_system :: "nat fine_system" where
  "calling_system = \<lparr>fine_world = server_log (ReceiveMessagesOnPollGroup 1 k_message_count) loaded_started,
     fine_net = Fine_call \<lparr>sm_conn = 5, sm_data = [1, 2, 3]\<rparr> 0 [], fine_joining = False\<rparr>"

lemma calling_reachable: "fine_reachable one_message 0 ops calling_system"
proof -
  have "fine_run 4 one_message 0 (Fine_check, loaded_started) =
      (Fine_call \<lparr>sm_conn = 5, sm_data = [1, 2, 3]\<rparr> 0 [], server_log (ReceiveMessagesOnPollGroup 1 k_message_count) loaded_started)"
    by (simp add: eval_nat_numeral one_message_def loaded_started_def loaded_server_def udp_server_new_def sample_steam_simps
        server_history_def live_poll_groups_def first_time_def k_message_count_def Let_def server_log_def log_call_def
        UdpServer_get_client_info_def u32_count_def)
  moreover have "fine_reachable one_message 0 ops \<lparr>fine_world = loaded_started, fine_net = Fine_check, fine_joining = False\<rparr>"
    unfolding one_message_def by (rule fine_reachable.started [OF loaded_world_ok start_loaded_world])
  ultimately show ?thesis
    using fine_reachable_run [where s = "\<lparr>fine_world = loaded_started, fine_net = Fine_check, fine_joining = False\<rparr>" and k = 4]
    by (simp add: calling_system_def)
qed

lemma stopping_fine_reachable:
  "fine_reachable one_message 0 ops
     (calling_system\<lparr>fine_world := snd (UdpServer_stop_begin 0 (fine_world calling_system)), fine_joining := True\<rparr>)"
proof -
  have "UdpServer_stop_begin 0 (fine_world calling_system) = (True, snd (UdpServer_stop_begin 0 (fine_world calling_system)))"
    by (simp add: UdpServer_stop_begin_def calling_system_def loaded_started_def loaded_server_def)
  moreover have "\<not> fine_joining calling_system" by (simp add: calling_system_def)
  ultimately show ?thesis by (intro fine_reachable.step [OF calling_reachable] fine_step.stop)
qed

text \<open>The same server between the two reads of the static pointer for an event.\<close>

definition one_event :: steam_api where
  "one_event = sample_steam [] [\<lparr>sc_hConn = 5, sc_eState = State_None, sc_eOldState = State_Connected\<rparr>]"

lemma event_reachable:
  "\<exists>s :: nat fine_system. fine_reachable one_event 0 ops s \<and> \<not> fine_joining s \<and>
    fine_net s = Fine_event \<lparr>sc_hConn = 5, sc_eState = State_None, sc_eOldState = State_Connected\<rparr> []"
proof -
  let ?s = "\<lparr>fine_world = loaded_started, fine_net = Fine_check, fine_joining = False\<rparr> :: nat fine_system"
  have "fine_reachable one_event 0 ops ?s"
    unfolding one_event_def by (rule fine_reachable.started [OF loaded_world_ok start_loaded_world])
  moreover obtain w where "fine_run 4 one_event 0 (Fine_check, loaded_started) =
      (Fine_event \<lparr>sc_hConn = 5, sc_eState = State_None, sc_eOldState = State_Connected\<rparr> [], w)"
    by (simp add: eval_nat_numeral one_event_def loaded_started_def loaded_server_def udp_server_new_def sample_steam_simps
        server_history_def live_poll_groups_def first_time_def k_message_count_def Let_def server_log_def log_call_def u32_count_def)
  ultimately have "fine_reachable one_event 0 ops
      (?s\<lparr>fine_world := w, fine_net := Fine_event \<lparr>sc_hConn = 5, sc_eState = State_None, sc_eOldState = State_Connected\<rparr> []\<rparr>)"
    using fine_reachable_run [where s = ?s and k = 4] by simp
  then show ?thesis by (intro exI conjI) (assumption, simp_all)
qed

theorem server_fine_grained_safe_witness:
  "(\<exists>k w. fine_run k one_message 0
      (Fine_call \<lparr>sm_conn = 5, sm_data = [1, 2, 3]\<rparr> 0 [], snd (UdpServer_stop_begin 0 (fine_world calling_system))) = (Fine_exited, w)) \<and>
   (\<exists>t :: nat fine_system. fine_reachable one_message 0 {App_disconnect 5 0} t \<and> fine_net t = Fine_fault Use_after_free) \<and>
   (\<exists>t :: nat fine_system. fine_reachable one_message 0 {App_set_on_data None} t \<and> fine_net t = Fine_fault Terminate) \<and>
   (\<exists>t :: nat fine_system. fine_reachable one_event 0 {} t \<and> fine_net t = Fine_fault Null_pointer)"
proof (intro conjI)
  have steam: "steam_ok one_message" "steam_ok one_event" by (simp_all add: one_message_def one_event_def sample_steam_ok)
  have "\<forall>op \<in> {App_broadcast [1] 1 True}. op_ok op" by simp
  from server_fine_grained_safe [OF steam(1) this stopping_fine_reachable]
  show "\<exists>k w. fine_run k one_message 0
      (Fine_call \<lparr>sm_conn = 5, sm_data = [1, 2, 3]\<rparr> 0 [], snd (UdpServer_stop_begin 0 (fine_world calling_system))) = (Fine_exited, w)"
    by (simp add: calling_system_def)
  have "\<forall>op \<in> {App_disconnect 5 0}. op_ok op" by simp
  from server_fine_grained_safe [OF steam(1) this calling_reachable]
  show "\<exists>t :: nat fine_system. fine_reachable one_message 0 {App_disconnect 5 0} t \<and> fine_net t = Fine_fault Use_after_free"
    by (simp add: calling_system_def loaded_started_def loaded_server_def)
  have "\<forall>op \<in> {App_set_on_data None}. op_ok op" by simp
  from server_fine_grained_safe [OF steam(1) this calling_reachable]
  show "\<exists>t :: nat fine_system. fine_reachable one_message 0 {App_set_on_data None} t \<and> fine_net t = Fine_fault Terminate"
    by (simp add: calling_system_def)
  obtain s :: "nat fine_system" where s: "fine_reachable one_event 0 {} s" "\<not> fine_joining s"
    "fine_net s = Fine_event \<lparr>sc_hConn = 5, sc_eState = State_None, sc_eOldState = State_Connected\<rparr> []"
    using event_reachable by blast
  have "\<forall>op \<in> {}. op_ok op" by simp
  from server_fine_grained_safe [OF steam(2) this s(1)] s(2,3)
  show "\<exists>t :: nat fine_system. fine_reachable one_event 0 {} t \<and> fine_net t = Fine_fault Null_pointer" by blast
qed

end
