(* ===== verification/Fine_Client.thy ===== *)
theory Fine_Client
  imports Client_Properties Handler_Registry Step_Loop
begin

text \<open>
  One connected client at the grain of its message loop: the network thread of \<^verbatim>\<open>UdpClient\<close>
  (\<^verbatim>\<open>network_loop\<close>, \<^verbatim>\<open>poll\<close>, \<^verbatim>\<open>poll_messages\<close> and \<^verbatim>\<open>connection_status_changed_callback\<close> of
  \<^verbatim>\<open>udp_client.cpp\<close>) in single steps, with the application between any two of them. \<open>Client_System\<close> has a
  whole poll as one step.
\<close>

section \<open>States and steps\<close>

text \<open>Where the network thread is: before the test of \<^verbatim>\<open>network_loop\<close>, before that of \<^verbatim>\<open>poll\<close>, before the
  receive, before the test of the callback, before message \<open>i\<close> of \<open>n\<close> is handed out, before it is
  released, before \<^verbatim>\<open>RunCallbacks\<close>, before the test of \<^verbatim>\<open>s_instance\<close> for the first of some events,
  between that test and the second read, after the loop, or stopped by a fault.\<close>

datatype client_pc =
    Cl_check
  | Cl_poll
  | Cl_receive
  | Cl_test nat "steam_message list"
  | Cl_deliver nat nat "steam_message list"
  | Cl_release nat nat "steam_message list"
  | Cl_callbacks
  | Cl_events "status_changed list"
  | Cl_event status_changed "status_changed list"
  | Cl_exited
  | Cl_fault fault

record 'w fine_client =
  cl_world :: "'w client_world"
  cl_net :: client_pc
  cl_joining :: bool

definition cl_after :: "client_pc \<Rightarrow> 'w client_world \<Rightarrow> 'w client_world result \<Rightarrow> client_pc \<times> 'w client_world" where
  "cl_after pc w r = (case r of Inl f \<Rightarrow> (Cl_fault f, w) | Inr w' \<Rightarrow> (pc, w'))"

text \<open>\<^verbatim>\<open>connection_status_changed_callback\<close>, cut between the test of \<^verbatim>\<open>s_instance\<close> and the call through it.\<close>

definition UdpClient_callback_test :: "'w client_world \<Rightarrow> bool" where
  [simp]: "UdpClient_callback_test w \<longleftrightarrow> client_instance w \<noteq> None"

definition UdpClient_callback_use :: "status_changed \<Rightarrow> 'w client_world \<Rightarrow> 'w client_world result" where
  [simp]: "UdpClient_callback_use p_info w =
     (case client_instance w of
        None \<Rightarrow> Inl Null_pointer
      | Some this \<Rightarrow> UdpClient_on_connection_status_changed this p_info w)"

fun cl_net_step :: "steam_api \<Rightarrow> nat \<Rightarrow> client_pc \<Rightarrow> 'w client_world \<Rightarrow> client_pc \<times> 'w client_world" where
  "cl_net_step st this Cl_check w = (if uc_running (udp_clients w this) then Cl_poll else Cl_exited, w)"
| "cl_net_step st this Cl_poll w = (if uc_running (udp_clients w this) then Cl_receive else Cl_check, w)"
| "cl_net_step st this Cl_receive w =
     (let conn = uc_conn (udp_clients w this) in
      if \<not> uc_interface (udp_clients w this) \<or> conn = k_invalid_connection then (Cl_callbacks, w)
      else
        let (n, messages) = receive_on_connection st (client_history w) conn k_default_poll_message_count in
        (Cl_test (size_count n) messages, client_log (ReceiveMessagesOnConnection conn k_default_poll_message_count) w))"
| "cl_net_step st this (Cl_test n messages) w =
     (case uc_on_data_received (udp_clients w this) of
        None \<Rightarrow> (Cl_release 0 n messages, w)
      | Some _ \<Rightarrow> (Cl_deliver 0 n messages, w))"
| "cl_net_step st this (Cl_deliver i n messages) w =
     (if i < n then
        if i < length messages then
          cl_after (Cl_deliver (i + 1) n messages) w
            (call_function (uc_on_data_received (udp_clients w this)) (\<lambda>callback. client_deliver callback this (messages ! i) w))
        else (Cl_fault Uninitialised_read, w)
      else (Cl_release 0 n messages, w))"
| "cl_net_step st this (Cl_release i n messages) w =
     (if i < n then
        if i < length messages then cl_after (Cl_release (i + 1) n messages) w (client_release (messages ! i) w)
        else (Cl_fault Uninitialised_read, w)
      else (Cl_callbacks, w))"
| "cl_net_step st this Cl_callbacks w =
     (if uc_interface (udp_clients w this)
      then (Cl_events (run_callbacks st (client_history w)), client_log RunCallbacks w) else (Cl_check, w))"
| "cl_net_step st this (Cl_events []) w = (Cl_check, w)"
| "cl_net_step st this (Cl_events (ev # evs)) w =
     (if UdpClient_callback_test w then (Cl_event ev evs, w) else (Cl_events evs, w))"
| "cl_net_step st this (Cl_event ev evs) w = cl_after (Cl_events evs) w (UdpClient_callback_use ev w)"
| "cl_net_step st this Cl_exited w = (Cl_exited, w)"
| "cl_net_step st this (Cl_fault f) w = (Cl_fault f, w)"

text \<open>What the application may do meanwhile. Reading the status or the running flag changes nothing;
  \<^verbatim>\<open>connect\<close> is refused while the client runs.\<close>

datatype 'w client_app_op =
    Client_send "u8 list" nat bool
  | Client_set_on_data "'w on_data_received_callback_func_t option"

fun client_app_step :: "steam_api \<Rightarrow> nat \<Rightarrow> 'w client_app_op \<Rightarrow> 'w client_world \<Rightarrow> 'w client_world" where
  "client_app_step st this (Client_send bytes len reliable) w = snd (UdpClient_send_raw st this bytes len reliable w)"
| "client_app_step st this (Client_set_on_data f) w = UdpClient_set_on_data_callback this f w"

inductive cl_step :: "steam_api \<Rightarrow> nat \<Rightarrow> 'w client_app_op set \<Rightarrow> 'w fine_client \<Rightarrow> 'w fine_client \<Rightarrow> bool" for st this ops where
  net:
    "cl_net_step st this (cl_net s) (cl_world s) = (pc, w) \<Longrightarrow>
     cl_step st this ops s (s\<lparr>cl_world := w, cl_net := pc\<rparr>)"
| app:
    "\<not> cl_joining s \<Longrightarrow> op \<in> ops \<Longrightarrow>
     cl_step st this ops s (s\<lparr>cl_world := client_app_step st this op (cl_world s)\<rparr>)"
| stop:
    "\<not> cl_joining s \<Longrightarrow> UdpClient_stop_begin this (cl_world s) = (waits, w) \<Longrightarrow>
     cl_step st this ops s (s\<lparr>cl_world := w, cl_joining := waits\<rparr>)"

text \<open>From a client that just connected.\<close>

inductive cl_reachable :: "steam_api \<Rightarrow> nat \<Rightarrow> 'w client_app_op set \<Rightarrow> 'w fine_client \<Rightarrow> bool" for st this ops where
  started:
    "client_world_ok this w \<Longrightarrow> \<not> uc_running (udp_clients w this) \<Longrightarrow> uc_conn (udp_clients w this) = 0 \<Longrightarrow>
     UdpClient_connect st this addr port w = Inr (True, w') \<Longrightarrow>
     cl_reachable st this ops \<lparr>cl_world = w', cl_net = Cl_check, cl_joining = False\<rparr>"
| step: "cl_reachable st this ops s \<Longrightarrow> cl_step st this ops s t \<Longrightarrow> cl_reachable st this ops t"

definition cl_run :: "nat \<Rightarrow> steam_api \<Rightarrow> nat \<Rightarrow> client_pc \<times> 'w client_world \<Rightarrow> client_pc \<times> 'w client_world" where
  "cl_run k st this = (\<lambda>(pc, w). cl_net_step st this pc w) ^^ k"

lemma cl_run_simps [simp]:
  "cl_run 0 st this s = s"
  "cl_run (Suc k) st this (pc, w) = cl_run k st this (cl_net_step st this pc w)"
  by (simp_all add: cl_run_def funpow_swap1)

lemma cl_run_add: "cl_run (j + k) st this s = cl_run k st this (cl_run j st this s)"
  by (simp add: cl_run_def add.commute [of j] funpow_add)

section \<open>The invariant\<close>

abbreviation unsets :: "'w client_app_op set \<Rightarrow> bool" where
  "unsets ops \<equiv> Client_set_on_data None \<in> ops"

fun client_op_ok :: "'w client_app_op \<Rightarrow> bool" where
  "client_op_ok (Client_set_on_data f) \<longleftrightarrow> quiet_callback f"
| "client_op_ok (Client_send bytes len reliable) \<longleftrightarrow> True"

fun cl_pc_ok :: "bool \<Rightarrow> nat \<Rightarrow> client_pc \<Rightarrow> 'w client_world \<Rightarrow> bool" where
  "cl_pc_ok unset this (Cl_test n ms) w \<longleftrightarrow> n = length ms"
| "cl_pc_ok unset this (Cl_deliver i n ms) w \<longleftrightarrow> n = length ms \<and>
     (unset \<or> uc_on_data_received (udp_clients w this) \<noteq> None)"
| "cl_pc_ok unset this (Cl_release i n ms) w \<longleftrightarrow> n = length ms"
| "cl_pc_ok unset this Cl_exited w \<longleftrightarrow> \<not> uc_running (udp_clients w this)"
| "cl_pc_ok unset this (Cl_fault f) w \<longleftrightarrow> f = Terminate \<and> unset \<or> f = Null_pointer \<and> client_instance w = None"
| "cl_pc_ok unset this _ w \<longleftrightarrow> True"

definition cl_ok :: "bool \<Rightarrow> nat \<Rightarrow> 'w fine_client \<Rightarrow> bool" where
  "cl_ok unset this s \<longleftrightarrow> client_world_ok this (cl_world s) \<and> cl_pc_ok unset this (cl_net s) (cl_world s) \<and>
     (cl_joining s \<longrightarrow> \<not> uc_running (udp_clients (cl_world s) this))"

lemma client_log_ok:
  assumes "live_connections (client_history w @ [c]) = live_connections (client_history w)"
  shows "same_but_env w (client_log c w)"
  using assms by (simp add: same_but_env_def)

text \<open>One event of a client that is still the receiver of the process's events.\<close>

lemma cl_event_ok:
  assumes ok: "client_world_ok this w" and "client_instance w = Some i"
  obtains w' where "UdpClient_on_connection_status_changed i ev w = Inr w'" and "client_world_ok this w'" and "client_instance w' = client_instance w"
    and "uc_running (udp_clients w' this) \<Longrightarrow> uc_running (udp_clients w this)"
proof -
  have i: "i = this" and int: "uc_interface (udp_clients w this)"
    using ok assms(2) by (auto simp: client_world_ok_def)
  let ?w = "upd_client this (after_event ev) (if closing ev then client_log (close_call ev) w else w)"
  have run: "UdpClient_on_connection_status_changed i ev w = Inr ?w"
    using status_callback_eq [of w this ev] assms(2) int
    by (simp add: i UdpClient_connection_status_changed_callback_def)
  have "client_world_ok this ?w" using ok by (cases "closing ev") (auto simp: client_world_ok_def split: if_splits)
  then show thesis by (intro that [OF run]) (simp_all split: if_splits)
qed

text \<open>A step of the network thread.\<close>

lemma cl_after_eq [simp]: "cl_after pc w (Inr w') = (pc, w')" "cl_after pc w (Inl f) = (Cl_fault f, w)"
  by (simp_all add: cl_after_def)

lemma client_world_ok_log:
  assumes "client_world_ok this w" and "live_connections (client_history w @ [c]) = live_connections (client_history w)"
  shows "client_world_ok this (client_log c w)"
  using client_world_ok_same [OF client_log_ok [OF assms(2)] assms(1)] .

text \<open>What a step may change: it keeps the invariant and starts nothing; \<open>faultless\<close> is a place from
  which the next step cannot fault.\<close>

definition cl_effect :: "bool \<Rightarrow> nat \<Rightarrow> 'w client_world \<Rightarrow> client_pc \<times> 'w client_world \<Rightarrow> bool" where
  "cl_effect unset this w r \<longleftrightarrow>
     client_world_ok this (snd r) \<and> cl_pc_ok unset this (fst r) (snd r) \<and> client_instance (snd r) = client_instance w \<and>
     (uc_running (udp_clients (snd r) this) \<longrightarrow> uc_running (udp_clients w this))"

fun faultless :: "nat \<Rightarrow> client_pc \<Rightarrow> 'w client_world \<Rightarrow> bool" where
  "faultless this (Cl_event ev evs) w \<longleftrightarrow> client_instance w \<noteq> None"
| "faultless this (Cl_deliver i n ms) w \<longleftrightarrow> uc_on_data_received (udp_clients w this) \<noteq> None"
| "faultless this (Cl_fault f) w \<longleftrightarrow> False"
| "faultless this _ w \<longleftrightarrow> True"

lemma cl_effect_same:
  "same_but_env w w' \<Longrightarrow> client_world_ok this w \<Longrightarrow> cl_pc_ok unset this pc w' \<Longrightarrow> cl_effect unset this w (pc, w')"
  using client_world_ok_same [of w w' this] by (simp add: cl_effect_def same_but_env_def)

lemma cl_receive_ok:
  assumes "connection_messages_ok st" and ok: "client_world_ok this w"
  shows "cl_effect unset this w (cl_net_step st this Cl_receive w)" and "faultless this (fst (cl_net_step st this Cl_receive w)) w'"
proof -
  let ?conn = "uc_conn (udp_clients w this)"
  have "cl_effect unset this w (cl_net_step st this Cl_receive w) \<and> faultless this (fst (cl_net_step st this Cl_receive w)) w'"
  proof (cases "?conn = 0")
    case True
    with ok show ?thesis by (simp add: cl_effect_def handle_defs Let_def)
  next
    case False
    then have live: "?conn \<in> live_connections (client_history w)" and int: "uc_interface (udp_clients w this)"
      using ok by (simp_all add: client_world_ok_def)
    obtain n ms where recv: "receive_on_connection st (client_history w) ?conn 16 = (n, ms)" by fastforce
    then have "n = int (length ms)" "length ms \<le> 16"
      using assms(1) live unfolding connection_messages_ok_def by (metis fst_conv snd_conv)+
    then have count: "size_count n = length ms" by simp
    have "cl_effect unset this w (Cl_test (length ms) ms, client_log (ReceiveMessagesOnConnection ?conn 16) w)"
      by (rule cl_effect_same [OF _ ok]) (simp_all add: client_log_ok)
    then show ?thesis
      using False int by (simp add: handle_defs Let_def k_default_poll_message_count_def recv count)
  qed
  then show "cl_effect unset this w (cl_net_step st this Cl_receive w)" and "faultless this (fst (cl_net_step st this Cl_receive w)) w'"
    by auto
qed

lemma cl_deliver_ok:
  assumes ok: "client_world_ok this w" and pc: "cl_pc_ok unset this (Cl_deliver i n ms) w"
  shows "cl_effect unset this w (cl_net_step st this (Cl_deliver i n ms) w)"
    and "uc_on_data_received (udp_clients w this) \<noteq> None \<Longrightarrow>
      faultless this (fst (cl_net_step st this (Cl_deliver i n ms) w)) (snd (cl_net_step st this (Cl_deliver i n ms) w))"
proof -
  have n: "n = length ms" using pc by simp
  have "cl_effect unset this w (cl_net_step st this (Cl_deliver i n ms) w) \<and>
    (uc_on_data_received (udp_clients w this) \<noteq> None \<longrightarrow>
      faultless this (fst (cl_net_step st this (Cl_deliver i n ms) w)) (snd (cl_net_step st this (Cl_deliver i n ms) w)))"
  proof (cases "uc_on_data_received (udp_clients w this)")
    case None
    with pc ok n show ?thesis by (auto simp: cl_effect_def)
  next
    case (Some f)
    have "\<And>m. quiet (f m)" using ok Some by (simp add: client_world_ok_def quiet_callback_def)
    then obtain w' where w': "client_deliver f this (ms ! i) w = Inr w'" "same_but_env w w'"
      using client_deliver_same by blast
    then have "cl_effect unset this w (Cl_deliver (i + 1) n ms, w')"
      using Some n by (intro cl_effect_same [OF w'(2) ok]) (simp add: same_but_env_def)
    moreover have "cl_effect unset this w (Cl_release 0 n ms, w)"
      using n by (intro cl_effect_same ok) simp_all
    moreover have "uc_on_data_received (udp_clients w' this) = Some f" using w'(2) Some by (simp add: same_but_env_def)
    ultimately show ?thesis using Some n w'(1) by simp
  qed
  then show "cl_effect unset this w (cl_net_step st this (Cl_deliver i n ms) w)"
    and "uc_on_data_received (udp_clients w this) \<noteq> None \<Longrightarrow>
      faultless this (fst (cl_net_step st this (Cl_deliver i n ms) w)) (snd (cl_net_step st this (Cl_deliver i n ms) w))"
    by auto
qed

lemma cl_event_step_ok:
  assumes ok: "client_world_ok this w" and pc: "cl_pc_ok unset this (Cl_event ev evs) w"
  shows "cl_effect unset this w (cl_net_step st this (Cl_event ev evs) w)"
    and "client_instance w \<noteq> None \<Longrightarrow> fst (cl_net_step st this (Cl_event ev evs) w) = Cl_events evs"
proof -
  have "cl_effect unset this w (cl_net_step st this (Cl_event ev evs) w) \<and>
    (client_instance w \<noteq> None \<longrightarrow> fst (cl_net_step st this (Cl_event ev evs) w) = Cl_events evs)"
  proof (cases "client_instance w")
    case None
    with ok show ?thesis by (simp add: cl_effect_def)
  next
    case (Some i)
    then obtain w' where "UdpClient_on_connection_status_changed i ev w = Inr w'" "client_world_ok this w'"
      "client_instance w' = client_instance w"
      "uc_running (udp_clients w' this) \<Longrightarrow> uc_running (udp_clients w this)"
      using cl_event_ok [OF ok Some, of ev] by blast
    with Some show ?thesis by (simp add: cl_effect_def)
  qed
  then show "cl_effect unset this w (cl_net_step st this (Cl_event ev evs) w)"
    and "client_instance w \<noteq> None \<Longrightarrow> fst (cl_net_step st this (Cl_event ev evs) w) = Cl_events evs"
    by auto
qed

lemma cl_net_step_ok:
  assumes "connection_messages_ok st" and ok: "client_world_ok this w" and pc: "cl_pc_ok unset this pc w"
  shows "cl_effect unset this w (cl_net_step st this pc w)"
proof (cases pc)
  case Cl_receive
  then show ?thesis using cl_receive_ok [OF assms(1,2)] by simp
next
  case (Cl_deliver i n ms)
  then show ?thesis using cl_deliver_ok(1) [OF ok] pc by simp
next
  case (Cl_event ev evs)
  then show ?thesis using cl_event_step_ok(1) [OF ok] pc by simp
next
  case (Cl_release i n ms)
  have "client_release (ms ! i) w = Inr (client_log (ReleaseMessage (ms ! i)) w)" by (simp add: client_release_def)
  then show ?thesis
    using pc ok client_world_ok_log [OF ok, of "ReleaseMessage (ms ! i)"] by (simp add: Cl_release cl_effect_def)
next
  case Cl_callbacks
  then show ?thesis
    using ok client_world_ok_log [OF ok, of RunCallbacks] by (simp add: Cl_callbacks cl_effect_def)
next
  case (Cl_events evs)
  then show ?thesis using pc ok by (cases evs) (auto simp: cl_effect_def)
next
  case (Cl_test n ms)
  then show ?thesis using pc ok by (auto simp: cl_effect_def split: option.split)
qed (use pc ok in \<open>auto simp: cl_effect_def\<close>)

text \<open>Steps of the application.\<close>

lemma client_app_step_ok:
  assumes "client_op_ok op" and ok: "client_world_ok this w"
    and "\<not> unset \<Longrightarrow> op \<noteq> Client_set_on_data None" and "cl_pc_ok unset this pc w"
  shows "client_world_ok this (client_app_step st this op w)" and "cl_pc_ok unset this pc (client_app_step st this op w)"
    and "uc_running (udp_clients (client_app_step st this op w) this) = uc_running (udp_clients w this)"
proof -
  have "client_world_ok this (client_app_step st this op w) \<and> cl_pc_ok unset this pc (client_app_step st this op w) \<and>
    uc_running (udp_clients (client_app_step st this op w) this) = uc_running (udp_clients w this)"
  proof (cases op)
    case (Client_send bytes len reliable)
    then have same: "same_but_env w (client_app_step st this op w)"
      by (simp add: UdpClient_send_raw_def Let_def same_but_env_def)
    then have "cl_pc_ok unset this pc (client_app_step st this op w) = cl_pc_ok unset this pc w"
      by (cases pc) (simp_all add: same_but_env_def)
    with same ok assms(4) show ?thesis
      using client_world_ok_same by (auto simp: same_but_env_def)
  next
    case (Client_set_on_data f)
    then have "cl_pc_ok unset this pc (client_app_step st this op w)"
      using assms(3,4) by (cases pc) (auto simp: UdpClient_set_on_data_callback_def)
    with Client_set_on_data ok assms(1) show ?thesis
      by (simp add: client_world_ok_def UdpClient_set_on_data_callback_def)
  qed
  then show "client_world_ok this (client_app_step st this op w)" and "cl_pc_ok unset this pc (client_app_step st this op w)"
    and "uc_running (udp_clients (client_app_step st this op w) this) = uc_running (udp_clients w this)"
    by simp_all
qed

lemma cl_stop_ok:
  assumes "client_world_ok this w" and "cl_pc_ok unset this pc w" and "UdpClient_stop_begin this w = (was, w')"
  shows "client_world_ok this w'" and "cl_pc_ok unset this pc w'" and "\<not> uc_running (udp_clients w' this)"
    and "client_instance w' = None"
proof -
  have eq: "w' = upd_client this (uc_running_update (\<lambda>_. False)) (w\<lparr>client_instance := None\<rparr>)"
    using assms(3) by (simp add: stop_begin_client_eq)
  show "client_world_ok this w'" using assms(1) by (simp add: eq client_world_ok_def)
  show "cl_pc_ok unset this pc w'" using assms(2) by (cases pc) (auto simp: eq)
  show "\<not> uc_running (udp_clients w' this)" and "client_instance w' = None" by (simp_all add: eq)
qed

lemma cl_step_ok:
  assumes "connection_messages_ok st" and "\<forall>op \<in> ops. client_op_ok op" and "cl_step st this ops s t"
    and ok: "cl_ok (unsets ops) this s"
  shows "cl_ok (unsets ops) this t"
  using assms(3)
proof cases
  case (net pc w)
  have "cl_effect (unsets ops) this (cl_world s) (pc, w)"
    using cl_net_step_ok [OF assms(1), of this "cl_world s" "unsets ops" "cl_net s"] ok net(2) by (simp add: cl_ok_def)
  with ok net(1) show ?thesis by (auto simp: cl_ok_def cl_effect_def)
next
  case (app op)
  have "client_op_ok op" using assms(2) app(3) by blast
  with ok app show ?thesis
    using client_app_step_ok [of op this "cl_world s" "unsets ops" "cl_net s" st] by (auto simp: cl_ok_def)
next
  case (stop waits w)
  have "client_world_ok this (cl_world s)" and "cl_pc_ok (unsets ops) this (cl_net s) (cl_world s)"
    using ok by (simp_all add: cl_ok_def)
  from cl_stop_ok [OF this stop(3)] stop(1) show ?thesis by (simp add: cl_ok_def)
qed

lemma cl_reachable_ok:
  assumes "connection_messages_ok st" and "\<forall>op \<in> ops. client_op_ok op" and "cl_reachable st this ops s"
  shows "cl_ok (unsets ops) this s"
  using assms(3)
proof induction
  case (started w addr port w')
  then show ?case using connect_world_ok(1) by (simp add: cl_ok_def)
next
  case (step s t)
  then show ?case using cl_step_ok [OF assms(1,2)] by blast
qed

section \<open>The way out\<close>

text \<open>Once the client is stopped, or has lost its connection, each step brings the network thread closer
  to its exit.\<close>

fun cl_rank :: "client_pc \<Rightarrow> nat \<times> nat" where
  "cl_rank Cl_receive = (6, 0)"
| "cl_rank (Cl_test n ms) = (5, 0)"
| "cl_rank (Cl_deliver i n ms) = (4, n - i)"
| "cl_rank (Cl_release i n ms) = (3, n - i)"
| "cl_rank Cl_callbacks = (2, 1)"
| "cl_rank (Cl_events evs) = (1, 2 * length evs + 2)"
| "cl_rank (Cl_event ev evs) = (1, 2 * length evs + 3)"
| "cl_rank Cl_poll = (1, 1)"
| "cl_rank Cl_check = (1, 0)"
| "cl_rank _ = (0, 0)"

definition cl_draining :: "steam_api \<Rightarrow> nat \<Rightarrow> client_pc \<times> 'w client_world \<Rightarrow> bool" where
  "cl_draining st this = (\<lambda>(pc, w). connection_messages_ok st \<and> client_world_ok this w \<and> cl_pc_ok False this pc w \<and>
     \<not> uc_running (udp_clients w this) \<and> faultless this pc w)"

lemma cl_draining_step:
  assumes "cl_draining st this (pc, w)" and step: "cl_net_step st this pc w = (pc', w')"
  shows "cl_draining st this (pc', w')" and "pc \<noteq> Cl_exited \<Longrightarrow> (cl_rank pc', cl_rank pc) \<in> less_than <*lex*> less_than"
proof -
  have st: "connection_messages_ok st" and w: "client_world_ok this w" and pc: "cl_pc_ok False this pc w"
    and run: "\<not> uc_running (udp_clients w this)" and fl: "faultless this pc w"
    using assms(1) by (simp_all add: cl_draining_def)
  have eff: "cl_effect False this w (pc', w')" using cl_net_step_ok [OF st w pc] step by metis
  have "faultless this pc' w' \<and> (pc \<noteq> Cl_exited \<longrightarrow> (cl_rank pc', cl_rank pc) \<in> less_than <*lex*> less_than)"
  proof (cases pc)
    case Cl_receive
    then have "cl_net_step st this Cl_receive w = (pc', w')" using step by simp
    then have "faultless this pc' w'" using cl_receive_ok(2) [OF st w, where w' = w'] by (metis fst_conv)
    with step Cl_receive show ?thesis by (auto simp: Let_def split: if_splits prod.splits)
  next
    case (Cl_deliver i n ms)
    then have "faultless this pc' w'" using cl_deliver_ok(2) [OF w, of False i n ms st] pc fl step by simp
    moreover have "pc' = Cl_deliver (i + 1) n ms \<or> (\<exists>f. pc' = Cl_fault f)" if "i < n"
      using step Cl_deliver that by (auto simp: cl_after_def split: if_splits sum.splits)
    moreover have "pc' = Cl_release 0 n ms" if "\<not> i < n" using step Cl_deliver that by simp
    ultimately show ?thesis using Cl_deliver by (cases "i < n") auto
  next
    case (Cl_event ev evs)
    then have "pc' = Cl_events evs" using cl_event_step_ok(2) [OF w, of False ev evs st] pc fl step by simp
    with Cl_event show ?thesis by simp
  next
    case (Cl_events evs)
    with step fl show ?thesis by (cases evs) (auto split: if_splits)
  next
    case (Cl_release i n ms)
    with step pc show ?thesis by (auto simp: client_release_def split: if_splits)
  next
    case (Cl_test n ms)
    with step show ?thesis by (auto split: option.splits)
  next
    case Cl_callbacks
    with step show ?thesis by (auto split: if_splits)
  qed (use step run fl in auto)
  then show "cl_draining st this (pc', w')" and "pc \<noteq> Cl_exited \<Longrightarrow> (cl_rank pc', cl_rank pc) \<in> less_than <*lex*> less_than"
    using eff st run by (auto simp: cl_draining_def cl_effect_def)
qed

interpretation client_loop: step_loop
    "\<lambda>(pc, w). cl_net_step st this pc w" "cl_draining st this" "\<lambda>c. fst c = Cl_exited" "\<lambda>c. cl_rank (fst c)"
  for st :: steam_api and this :: nat
proof
  fix c :: "client_pc \<times> 'a client_world"
  assume ok: "cl_draining st this c"
  then have "cl_draining st this (fst c, snd c)" by simp
  note next_step = cl_draining_step [OF this prod.collapse [symmetric]]
  show "cl_draining st this ((\<lambda>(pc, w). cl_net_step st this pc w) c)"
    using next_step(1) by (simp add: case_prod_unfold)
  show "(cl_rank (fst ((\<lambda>(pc, w). cl_net_step st this pc w) c)), cl_rank (fst c)) \<in> less_than <*lex*> less_than"
    if "fst c \<noteq> Cl_exited"
    using next_step(2) that by (simp add: case_prod_unfold)
qed

section \<open>The steps of a poll together\<close>

text \<open>Without the application in between, the steps of one poll are \<^verbatim>\<open>poll\<close>.\<close>

lemma cl_deliver_run:
  assumes "client_message_loop (client_deliver f this) n ms i w = Inr w'"
    and "uc_on_data_received (udp_clients w this) = Some f"
  shows "\<exists>k. cl_run k st this (Cl_deliver i n ms, w) = (Cl_release 0 n ms, w')"
  using assms
proof (induction "n - i" arbitrary: i w)
  case 0
  then show ?case by (intro exI [of _ 1]) (simp add: client_message_loop.simps [of _ n ms i])
next
  case (Suc d)
  then have i: "i < n" by simp
  then have len: "i < length ms"
    using Suc.prems(1) by (simp add: client_message_loop.simps [of _ n ms i] split: if_splits)
  obtain w1 where w1: "client_deliver f this (ms ! i) w = Inr w1"
    and rest: "client_message_loop (client_deliver f this) n ms (i + 1) w1 = Inr w'"
    using Suc.prems(1) i len by (auto simp: client_message_loop.simps [of _ n ms i] bind_result_eq_Inr)
  have "udp_clients w1 = udp_clients w" using w1 by (auto simp: client_deliver_def bind_result_eq_Inr)
  moreover have "d = n - (i + 1)" using Suc.hyps(2) by simp
  ultimately obtain k where "cl_run k st this (Cl_deliver (i + 1) n ms, w1) = (Cl_release 0 n ms, w')"
    using Suc.hyps(1) [OF _ rest] Suc.prems(2) by auto
  then show ?case using i len w1 Suc.prems(2) by (intro exI [of _ "Suc k"]) simp
qed

lemma cl_release_run:
  assumes "client_message_loop client_release n ms i w = Inr w'"
  shows "\<exists>k. cl_run k st this (Cl_release i n ms, w) = (Cl_callbacks, w')"
  using assms
proof (induction "n - i" arbitrary: i w)
  case 0
  then show ?case by (intro exI [of _ 1]) (simp add: client_message_loop.simps [of _ n ms i])
next
  case (Suc d)
  then have i: "i < n" by simp
  then have len: "i < length ms"
    using Suc.prems by (simp add: client_message_loop.simps [of _ n ms i] split: if_splits)
  obtain w1 where w1: "client_release (ms ! i) w = Inr w1" and rest: "client_message_loop client_release n ms (i + 1) w1 = Inr w'"
    using Suc.prems i len by (auto simp: client_message_loop.simps [of _ n ms i] bind_result_eq_Inr)
  have "d = n - (i + 1)" using Suc.hyps(2) by simp
  then obtain k where "cl_run k st this (Cl_release (i + 1) n ms, w1) = (Cl_callbacks, w')"
    using Suc.hyps(1) [OF _ rest] by auto
  then show ?case using i len w1 by (intro exI [of _ "Suc k"]) simp
qed

lemma cl_events_run:
  assumes "client_dispatch evs w = Inr w'"
  shows "\<exists>k. cl_run k st this (Cl_events evs, w) = (Cl_check, w')"
  using assms
proof (induction evs arbitrary: w)
  case Nil
  then show ?case by (intro exI [of _ 1]) simp
next
  case (Cons ev evs)
  then obtain w1 where w1: "UdpClient_connection_status_changed_callback ev w = Inr w1" "client_dispatch evs w1 = Inr w'"
    by (auto simp: bind_result_eq_Inr)
  obtain k where k: "cl_run k st this (Cl_events evs, w1) = (Cl_check, w')" using Cons.IH [OF w1(2)] by blast
  show ?case
  proof (cases "client_instance w")
    case None
    with k w1(1) show ?thesis
      by (intro exI [of _ "Suc k"]) (simp add: UdpClient_connection_status_changed_callback_def)
  next
    case (Some i)
    with k w1(1) show ?thesis
      by (intro exI [of _ "Suc (Suc k)"]) (simp add: UdpClient_connection_status_changed_callback_def)
  qed
qed

lemma cl_messages_run:
  assumes "UdpClient_poll_messages st this w = Inr w'"
  shows "\<exists>k. cl_run k st this (Cl_receive, w) = (Cl_callbacks, w')"
proof (cases "\<not> uc_interface (udp_clients w this) \<or> uc_conn (udp_clients w this) = k_invalid_connection")
  case True
  with assms show ?thesis by (intro exI [of _ 1]) (simp add: UdpClient_poll_messages_def Let_def)
next
  case False
  let ?conn = "uc_conn (udp_clients w this)" and ?cb = "uc_on_data_received (udp_clients w this)"
  let ?w = "client_log (ReceiveMessagesOnConnection ?conn k_default_poll_message_count) w"
  obtain m ms where recv: "receive_on_connection st (client_history w) ?conn k_default_poll_message_count = (m, ms)"
    by fastforce
  let ?n = "size_count m"
  obtain w1 where w1: "(case ?cb of None \<Rightarrow> Inr ?w | Some f \<Rightarrow> client_message_loop (client_deliver f this) ?n ms 0 ?w) = Inr w1"
    and rel: "client_message_loop client_release ?n ms 0 w1 = Inr w'"
    using assms False by (auto simp: UdpClient_poll_messages_def Let_def recv bind_result_eq_Inr cong: option.case_cong)
  have "\<exists>k. cl_run k st this (Cl_test ?n ms, ?w) = (Cl_release 0 ?n ms, w1)"
  proof (cases ?cb)
    case None
    then have "w1 = ?w" using w1 by simp
    with None show ?thesis by (intro exI [of _ 1]) simp
  next
    case (Some f)
    with w1 obtain k where "cl_run k st this (Cl_deliver 0 ?n ms, ?w) = (Cl_release 0 ?n ms, w1)"
      using cl_deliver_run [of f this ?n ms 0 ?w w1 st] by auto
    with Some show ?thesis by (intro exI [of _ "Suc k"]) simp
  qed
  then obtain j where j: "cl_run j st this (Cl_test ?n ms, ?w) = (Cl_release 0 ?n ms, w1)" by blast
  obtain k where k: "cl_run k st this (Cl_release 0 ?n ms, w1) = (Cl_callbacks, w')"
    using cl_release_run [OF rel] by blast
  have "cl_run (Suc (j + k)) st this (Cl_receive, w) = (Cl_callbacks, w')"
    using False by (simp only: cl_run_simps cl_run_add) (simp add: recv Let_def j k)
  then show ?thesis by blast
qed

lemma cl_poll_run:
  assumes "UdpClient_poll st this w = Inr w'"
  shows "\<exists>k. cl_run k st this (Cl_poll, w) = (Cl_check, w')"
proof (cases "uc_running (udp_clients w this)")
  case False
  with assms show ?thesis by (intro exI [of _ 1]) (simp add: UdpClient_poll_def)
next
  case True
  with assms obtain w1 where w1: "UdpClient_poll_messages st this w = Inr w1"
    and events: "(if uc_interface (udp_clients w1 this)
      then client_dispatch (run_callbacks st (client_history w1)) (client_log RunCallbacks w1) else Inr w1) = Inr w'"
    by (auto simp: UdpClient_poll_def bind_result_eq_Inr)
  obtain j where j: "cl_run j st this (Cl_receive, w) = (Cl_callbacks, w1)" using cl_messages_run [OF w1] by blast
  have "\<exists>k. cl_run k st this (Cl_callbacks, w1) = (Cl_check, w')"
  proof (cases "uc_interface (udp_clients w1 this)")
    case False
    with events show ?thesis by (intro exI [of _ 1]) simp
  next
    case True
    with events obtain k where "cl_run k st this (Cl_events (run_callbacks st (client_history w1)), client_log RunCallbacks w1) = (Cl_check, w')"
      using cl_events_run [of "run_callbacks st (client_history w1)" "client_log RunCallbacks w1" w' st this] by auto
    with True show ?thesis by (intro exI [of _ "Suc k"]) simp
  qed
  then obtain k where k: "cl_run k st this (Cl_callbacks, w1) = (Cl_check, w')" by blast
  have "cl_run (Suc (j + k)) st this (Cl_poll, w) = (Cl_check, w')"
    using True by (simp only: cl_run_simps cl_run_add) (simp add: j k)
  then show ?thesis by blast
qed

section \<open>Safety\<close>

lemma cl_reachable_net:
  "cl_reachable st this ops s \<Longrightarrow> cl_net_step st this (cl_net s) (cl_world s) = (Cl_fault f, w) \<Longrightarrow>
   \<exists>t. cl_reachable st this ops t \<and> cl_net t = Cl_fault f"
  using cl_reachable.step [OF _ cl_step.net] by fastforce

text \<open>A \<^verbatim>\<open>stop\<close> between the two reads of \<^verbatim>\<open>s_instance\<close>, and a callback that is taken away between its
  test and a message.\<close>

lemma cl_stop_faults:
  assumes "cl_reachable st this ops s" and event: "cl_net s = Cl_event ev evs" and "\<not> cl_joining s"
  shows "\<exists>t. cl_reachable st this ops t \<and> cl_net t = Cl_fault Null_pointer"
proof -
  obtain waits w where stop: "UdpClient_stop_begin this (cl_world s) = (waits, w)" by fastforce
  have s: "cl_reachable st this ops (s\<lparr>cl_world := w, cl_joining := waits\<rparr>)"
    by (rule cl_reachable.step [OF assms(1) cl_step.stop [OF assms(3) stop]])
  have "client_instance w = None" using stop by (simp add: stop_begin_client_eq)
  then show ?thesis by (intro cl_reachable_net [OF s, where w = w]) (simp add: event)
qed

lemma cl_unset_faults:
  assumes "cl_reachable st this ops s" and "cl_net s = Cl_deliver i n ms" and "i < n" and "i < length ms"
    and "\<not> cl_joining s" and "unsets ops"
  shows "\<exists>t. cl_reachable st this ops t \<and> cl_net t = Cl_fault Terminate"
proof -
  let ?w = "client_app_step st this (Client_set_on_data None) (cl_world s)"
  have s: "cl_reachable st this ops (s\<lparr>cl_world := ?w\<rparr>)"
    using assms(5,6) by (intro cl_reachable.step [OF assms(1)] cl_step.app)
  show ?thesis
    using assms(2-4) by (intro cl_reachable_net [OF s, where w = ?w]) (simp add: UdpClient_set_on_data_callback_def)
qed

text \<open>
  C12: One connected client, step by step: the network thread tests the loop and the running flag,
  receives, hands out each message, releases each, tests the static pointer for an event and handles
  it in separate steps, and the application sends, changes the callback and stops the client between
  any two of them. Whatever events Steam delivers, about this or another connection, the handle of the
  client exists in Steam and a running client has one. The network thread faults in exactly two ways: the callback is taken away behind its test, or \<^verbatim>\<open>s_instance\<close> is cleared by a
  \<^verbatim>\<open>stop\<close> behind its test. Otherwise, once the client is stopped or its connection ended, the thread
  leaves its loop.
\<close>

theorem client_fine_grained_safe:
  assumes "connection_messages_ok st" and "\<forall>op \<in> ops. client_op_ok op" and "cl_reachable st this ops s"
  shows "(\<forall>f. cl_net s = Cl_fault f \<longrightarrow>
       f = Terminate \<and> Client_set_on_data None \<in> ops \<or> f = Null_pointer \<and> client_instance (cl_world s) = None) \<and>
    (uc_conn (udp_clients (cl_world s) this) \<noteq> 0 \<longrightarrow>
       uc_conn (udp_clients (cl_world s) this) \<in> live_connections (client_history (cl_world s))) \<and>
    (uc_running (udp_clients (cl_world s) this) \<longrightarrow> uc_conn (udp_clients (cl_world s) this) \<noteq> 0) \<and>
    (\<not> uc_running (udp_clients (cl_world s) this) \<and> Client_set_on_data None \<notin> ops \<and>
       (case cl_net s of Cl_event ev evs \<Rightarrow> client_instance (cl_world s) \<noteq> None | Cl_fault f \<Rightarrow> False | _ \<Rightarrow> True) \<longrightarrow>
       (\<exists>k w. cl_run k st this (cl_net s, cl_world s) = (Cl_exited, w))) \<and>
    (\<forall>ev evs. cl_net s = Cl_event ev evs \<and> \<not> cl_joining s \<longrightarrow>
       (\<exists>t. cl_reachable st this ops t \<and> cl_net t = Cl_fault Null_pointer)) \<and>
    (\<forall>i n ms. cl_net s = Cl_deliver i n ms \<and> i < n \<and> \<not> cl_joining s \<and> Client_set_on_data None \<in> ops \<longrightarrow>
       (\<exists>t. cl_reachable st this ops t \<and> cl_net t = Cl_fault Terminate))"
proof (intro conjI)
  have ok: "cl_ok (unsets ops) this s" by (rule cl_reachable_ok [OF assms])
  show "\<forall>f. cl_net s = Cl_fault f \<longrightarrow>
       f = Terminate \<and> Client_set_on_data None \<in> ops \<or> f = Null_pointer \<and> client_instance (cl_world s) = None"
    using ok by (auto simp: cl_ok_def)
  show "uc_conn (udp_clients (cl_world s) this) \<noteq> 0 \<longrightarrow>
       uc_conn (udp_clients (cl_world s) this) \<in> live_connections (client_history (cl_world s))"
    and "uc_running (udp_clients (cl_world s) this) \<longrightarrow> uc_conn (udp_clients (cl_world s) this) \<noteq> 0"
    using ok by (simp_all add: cl_ok_def client_world_ok_def)
  show "\<not> uc_running (udp_clients (cl_world s) this) \<and> Client_set_on_data None \<notin> ops \<and>
       (case cl_net s of Cl_event ev evs \<Rightarrow> client_instance (cl_world s) \<noteq> None | Cl_fault f \<Rightarrow> False | _ \<Rightarrow> True) \<longrightarrow>
       (\<exists>k w. cl_run k st this (cl_net s, cl_world s) = (Cl_exited, w))"
  proof
    assume drain: "\<not> uc_running (udp_clients (cl_world s) this) \<and> Client_set_on_data None \<notin> ops \<and>
       (case cl_net s of Cl_event ev evs \<Rightarrow> client_instance (cl_world s) \<noteq> None | Cl_fault f \<Rightarrow> False | _ \<Rightarrow> True)"
    then have "cl_draining st this (cl_net s, cl_world s)"
      using ok assms(1) by (cases "cl_net s") (simp_all add: cl_draining_def cl_ok_def)
    from client_loop.reaches_final [OF this] obtain k
      where "fst (cl_run k st this (cl_net s, cl_world s)) = Cl_exited"
      unfolding cl_run_def by blast
    then show "\<exists>k w. cl_run k st this (cl_net s, cl_world s) = (Cl_exited, w)"
      by (intro exI [of _ k] exI [of _ "snd (cl_run k st this (cl_net s, cl_world s))"]) (simp add: prod_eq_iff)
  qed
  show "\<forall>i n ms. cl_net s = Cl_deliver i n ms \<and> i < n \<and> \<not> cl_joining s \<and> Client_set_on_data None \<in> ops \<longrightarrow>
       (\<exists>t. cl_reachable st this ops t \<and> cl_net t = Cl_fault Terminate)"
  proof (intro allI impI)
    fix i n ms assume "cl_net s = Cl_deliver i n ms \<and> i < n \<and> \<not> cl_joining s \<and> Client_set_on_data None \<in> ops"
    moreover from this have "n = length ms" using ok by (simp add: cl_ok_def)
    ultimately show "\<exists>t. cl_reachable st this ops t \<and> cl_net t = Cl_fault Terminate"
      using cl_unset_faults [OF assms(3), of i n ms] by simp
  qed
qed (use cl_stop_faults [OF assms(3)] in blast)

text \<open>A client that connected and is about to hand out a message, or to handle an event.\<close>

definition busy_steam :: steam_api where
  "busy_steam = sample_steam [\<lparr>sm_conn = 1, sm_data = [1, 2]\<rparr>] [connected_event 1]"

lemma busy_steam_ok: "connection_messages_ok busy_steam"
  by (simp add: busy_steam_def sample_connections_ok)

lemma cl_reachable_run:
  "cl_reachable st this ops s \<Longrightarrow> cl_run k st this (cl_net s, cl_world s) = (pc, w) \<Longrightarrow>
   cl_reachable st this ops (s\<lparr>cl_world := w, cl_net := pc\<rparr>)"
proof (induction k arbitrary: s)
  case (Suc k)
  obtain pc1 w1 where step: "cl_net_step st this (cl_net s) (cl_world s) = (pc1, w1)" by fastforce
  from Suc.IH [OF cl_reachable.step [OF Suc.prems(1) cl_step.net [OF step]]] Suc.prems(2) step
  show ?case by simp
next
  case 0
  then show ?case by (cases s) simp
qed

lemma busy_started: "cl_reachable busy_steam 0 ops \<lparr>cl_world = sample_client_world, cl_net = Cl_check, cl_joining = False\<rparr>"
  unfolding busy_steam_def by (rule cl_reachable.started [OF waiting_client_ok sample_connect])

lemmas busy_steps = numeral_eq_Suc busy_steam_def sample_steam_simps sample_client_world_def sample_udp_client_def
  udp_client_new_def client_history_def sample_live live_connections_def first_time_def k_default_poll_message_count_def
  handle_defs Let_def client_log_def log_call_def client_deliver_def client_release_def count_bytes_def size_count_def

lemma busy_delivering:
  "\<exists>s :: nat fine_client. cl_reachable busy_steam 0 ops s \<and> cl_net s = Cl_deliver 0 1 [\<lparr>sm_conn = 1, sm_data = [1, 2]\<rparr>] \<and>
    \<not> cl_joining s"
proof -
  let ?s = "\<lparr>cl_world = sample_client_world, cl_net = Cl_check, cl_joining = False\<rparr>"
  obtain w where "cl_run 4 busy_steam 0 (Cl_check, sample_client_world) = (Cl_deliver 0 1 [\<lparr>sm_conn = 1, sm_data = [1, 2]\<rparr>], w)"
    by (simp add: busy_steps)
  then show ?thesis
    using cl_reachable_run [where s = ?s and k = 4, OF busy_started [of ops]] by (intro exI conjI) (force, simp_all)
qed

lemma busy_event:
  "\<exists>s :: nat fine_client. cl_reachable busy_steam 0 ops s \<and> cl_net s = Cl_event (connected_event 1) [] \<and> \<not> cl_joining s"
proof -
  let ?s = "\<lparr>cl_world = sample_client_world, cl_net = Cl_check, cl_joining = False\<rparr>"
  obtain w where "cl_run 10 busy_steam 0 (Cl_check, sample_client_world) = (Cl_event (connected_event 1) [], w)"
    by (simp add: busy_steps)
  then show ?thesis
    using cl_reachable_run [where s = ?s and k = 10, OF busy_started [of ops]] by (intro exI conjI) (force, simp_all)
qed

theorem client_fine_grained_safe_witness:
  "(\<exists>t :: nat fine_client. cl_reachable busy_steam 0 {Client_set_on_data None} t \<and> cl_net t = Cl_fault Terminate) \<and>
   (\<exists>t :: nat fine_client. cl_reachable busy_steam 0 {} t \<and> cl_net t = Cl_fault Null_pointer) \<and>
   (\<exists>k w. cl_run k busy_steam 0 (Cl_check, snd (UdpClient_stop_begin 0 sample_client_world)) = (Cl_exited, w))"
proof (intro conjI)
  obtain s :: "nat fine_client" where s: "cl_reachable busy_steam 0 {Client_set_on_data None} s"
    and net: "cl_net s = Cl_deliver 0 1 [\<lparr>sm_conn = 1, sm_data = [1, 2]\<rparr>]" "\<not> cl_joining s"
    using busy_delivering by blast
  have "\<forall>op \<in> {Client_set_on_data None}. client_op_ok op" by (simp add: quiet_callback_def)
  from client_fine_grained_safe [OF busy_steam_ok this s] net
  show "\<exists>t :: nat fine_client. cl_reachable busy_steam 0 {Client_set_on_data None} t \<and> cl_net t = Cl_fault Terminate" by simp
  obtain s :: "nat fine_client" where "cl_reachable busy_steam 0 {} s"
    and "cl_net s = Cl_event (connected_event 1) []" "\<not> cl_joining s"
    using busy_event by blast
  then show "\<exists>t :: nat fine_client. cl_reachable busy_steam 0 {} t \<and> cl_net t = Cl_fault Null_pointer"
    using client_fine_grained_safe [OF busy_steam_ok, of "{}" 0 s] by auto
  let ?w = "snd (UdpClient_stop_begin 0 sample_client_world)"
  have "UdpClient_stop_begin 0 sample_client_world = (True, ?w)"
    by (simp add: UdpClient_stop_begin_def sample_client_fields)
  then have "cl_step busy_steam 0 {} \<lparr>cl_world = sample_client_world, cl_net = Cl_check, cl_joining = False\<rparr>
      (\<lparr>cl_world = sample_client_world, cl_net = Cl_check, cl_joining = False\<rparr>\<lparr>cl_world := ?w, cl_joining := True\<rparr>)"
    by (intro cl_step.stop) simp_all
  from cl_reachable.step [OF busy_started this]
  have "cl_reachable busy_steam 0 {} \<lparr>cl_world = ?w, cl_net = Cl_check, cl_joining = True\<rparr>"
    by simp
  from client_fine_grained_safe [OF busy_steam_ok _ this]
  show "\<exists>k w. cl_run k busy_steam 0 (Cl_check, ?w) = (Cl_exited, w)"
    by (simp add: UdpClient_stop_begin_def sample_client_fields)
qed

end
