(* ===== verification/Payload_Lifetime.thy ===== *)
theory Payload_Lifetime
  imports Async_Properties
begin

text \<open>
  The asynchronous client with the binary serializer. Its \<^verbatim>\<open>payload_t\<close> is a \<^verbatim>\<open>std::span\<close> into the
  message of Steam, which \<^verbatim>\<open>UdpClient::poll_messages\<close> (\<^verbatim>\<open>udp_client.cpp\<close>) releases after it handed out
  the whole batch; \<^verbatim>\<open>async_wait_for_packet\<close> (\<^verbatim>\<open>async_udp_packet_client.inl\<close>) reads it when its coroutine
  runs again. \<open>Async_Client\<close> has payloads as values; here they are spans, and messages have a lifetime.
  When a notified coroutine runs is up to libcoro, so any step may come first.
\<close>

section \<open>Messages and spans into them\<close>

text \<open>The messages of all batches in the order they were received. Those that were handed to the
  callback and those that were released are prefixes of the list.\<close>

record payload_span =
  span_msg :: nat
  span_offset :: nat
  span_size :: nat

record span_system =
  sp_client :: "payload_span async_client"
  sp_waiters :: "nat \<rightharpoonup> packet_type_t"
  sp_received :: "u8 list list"
  sp_delivered :: nat
  sp_released :: nat

definition span_system_init :: span_system where
  "span_system_init = \<lparr>sp_client = async_client_new, sp_waiters = Map.empty, sp_received = [], sp_delivered = 0, sp_released = 0\<rparr>"

definition read_message :: "span_system \<Rightarrow> nat \<Rightarrow> u8 list result" where
  "read_message s m =
     (if sp_released s \<le> m \<and> m < length (sp_received s) then Inr (sp_received s ! m) else Inl Use_after_free)"

text \<open>\<^verbatim>\<open>deserialize_packet\<close> and \<^verbatim>\<open>payload_as\<close> of the binary serializer, on spans. The payload of a packet
  begins after its header.\<close>

definition binary_span_deserialize :: "nat \<Rightarrow> nat \<Rightarrow> payload_span option" where
  "binary_span_deserialize m payload_size =
     Some \<lparr>span_msg = m, span_offset = sizeof_internal_packet_header_t, span_size = payload_size\<rparr>"

definition binary_span_payload_as :: "'o pod_type \<Rightarrow> span_system \<Rightarrow> payload_span \<Rightarrow> 'o option result" where
  "binary_span_payload_as T s p_payload =
     (if span_size p_payload \<noteq> pod_sizeof T then Inr None
      else bind_result (read_message s (span_msg p_payload)) (\<lambda>buffer.
        Inr (Some (pod_value T (take (pod_sizeof T) (drop (span_offset p_payload) buffer))))))"

section \<open>Operations\<close>

text \<open>\<^verbatim>\<open>on_data_received_pre_handler\<close> for the message \<open>m\<close>.\<close>

definition span_pre_handler :: "nat \<Rightarrow> u8 list \<Rightarrow> payload_span async_client \<Rightarrow> (bool \<times> payload_span async_client) result" where
  "span_pre_handler m buffer s =
     bind_result (unpack_internal_packet_header buffer (length buffer)) (\<lambda>maybe_header.
       case maybe_header of
         None \<Rightarrow> Inr (False, s)
       | Some header \<Rightarrow>
           if m_serde_type header \<noteq> serde_bin then Inr (False, s)
           else case async_find_awaiter (m_packet_type header) s of
                  None \<Rightarrow> Inr (False, s)
                | Some awaiter \<Rightarrow>
                    bind_result
                      (async_notify_awaiter awaiter
                        (binary_span_deserialize m (length buffer - sizeof_internal_packet_header_t)) s)
                      (\<lambda>s. Inr (True, s)))"

text \<open>\<^verbatim>\<open>async_wait_for_packet\<close> after its event.\<close>

definition span_wait_end :: "'o pod_type \<Rightarrow> packet_type_t \<Rightarrow> span_system \<Rightarrow> ('o option \<times> span_system) result" where
  "span_wait_end T p_packet_type s =
     (case AsyncUdpPacketClient_get_packet_awaiter p_packet_type (sp_client s) of
        (None, c) \<Rightarrow> Inr (None, s\<lparr>sp_client := c\<rparr>)
      | (Some awaiter, c) \<Rightarrow>
          (case aw_data awaiter of
             None \<Rightarrow> Inr (None, s\<lparr>sp_client := c\<rparr>)
           | Some payload \<Rightarrow>
               bind_result (binary_span_payload_as T s payload) (\<lambda>r. Inr (r, s\<lparr>sp_client := c\<rparr>))))"

text \<open>A poll receives a batch, hands out each message and releases each message; coroutines begin to
  wait and resume at any time.\<close>

inductive span_step :: "'o pod_type \<Rightarrow> span_system \<Rightarrow> span_system \<Rightarrow> bool" for T where
  wait:
    "async_wait_begin t (sp_client s) = (ev, c) \<Longrightarrow>
     span_step T s (s\<lparr>sp_client := c, sp_waiters := (sp_waiters s)(ev \<mapsto> t)\<rparr>)"
| receive:
    "sp_released s = length (sp_received s) \<Longrightarrow> length ms \<le> k_default_poll_message_count \<Longrightarrow>
     span_step T s (s\<lparr>sp_received := sp_received s @ ms\<rparr>)"
| deliver:
    "sp_delivered s < length (sp_received s) \<Longrightarrow>
     span_pre_handler (sp_delivered s) (sp_received s ! sp_delivered s) (sp_client s) = Inr (taken, c) \<Longrightarrow>
     span_step T s (s\<lparr>sp_client := c, sp_delivered := sp_delivered s + 1\<rparr>)"
| release:
    "sp_delivered s = length (sp_received s) \<Longrightarrow> sp_released s < length (sp_received s) \<Longrightarrow>
     span_step T s (s\<lparr>sp_released := sp_released s + 1\<rparr>)"
| resume:
    "sp_waiters s ev = Some t \<Longrightarrow> ev \<in> as_events_set (sp_client s) \<Longrightarrow>
     span_wait_end T t s = Inr (r, s') \<Longrightarrow>
     span_step T s (s'\<lparr>sp_waiters := (sp_waiters s)(ev := None)\<rparr>)"

inductive span_reachable :: "'o pod_type \<Rightarrow> span_system \<Rightarrow> bool" for T where
  init: "span_reachable T span_system_init"
| step: "span_reachable T s \<Longrightarrow> span_step T s t \<Longrightarrow> span_reachable T t"

section \<open>Spans as copies\<close>

text \<open>The abstraction: each span replaced by the bytes it was made of, whether they are still there or
  not. That is the state of \<open>Async_Client\<close>.\<close>

definition map_awaiter :: "('p \<Rightarrow> 'q) \<Rightarrow> 'p awaiting_packet_t \<Rightarrow> 'q awaiting_packet_t" where
  "map_awaiter f a = \<lparr>aw_event = aw_event a, aw_data = map_option f (aw_data a)\<rparr>"

definition map_client :: "('p \<Rightarrow> 'q) \<Rightarrow> 'p async_client \<Rightarrow> 'q async_client" where
  "map_client f s =
     \<lparr>as_alive = as_alive s, as_awaiters = (\<lambda>t. map_option (map (map_awaiter f)) (as_awaiters s t)),
      as_events_set = as_events_set s, as_next_event = as_next_event s\<rparr>"

definition span_bytes :: "u8 list list \<Rightarrow> payload_span \<Rightarrow> u8 list" where
  "span_bytes received p = take (span_size p) (drop (span_offset p) (received ! span_msg p))"

definition span_copies :: "span_system \<Rightarrow> u8 list async_system" where
  "span_copies s = \<lparr>ac_state = map_client (span_bytes (sp_received s)) (sp_client s), ac_waiters = sp_waiters s\<rparr>"

lemma map_awaiter_simps [simp]:
  "aw_event (map_awaiter f a) = aw_event a"
  "aw_data (map_awaiter f a) = map_option f (aw_data a)"
  "map_awaiter f \<lparr>aw_event = e, aw_data = d\<rparr> = \<lparr>aw_event = e, aw_data = map_option f d\<rparr>"
  by (simp_all add: map_awaiter_def)

lemma map_client_simps [simp]:
  "as_events_set (map_client f s) = as_events_set s"
  "as_next_event (map_client f s) = as_next_event s"
  "awaiter_queue (map_client f s) t = map (map_awaiter f) (awaiter_queue s t)"
  by (simp_all add: map_client_def awaiter_queue_def split: option.split)

lemma map_client_upd:
  "map_client f (s\<lparr>as_awaiters := (as_awaiters s)(t \<mapsto> q)\<rparr>) =
     (map_client f s)\<lparr>as_awaiters := (as_awaiters (map_client f s))(t \<mapsto> map (map_awaiter f) q)\<rparr>"
  "map_client f (s\<lparr>as_awaiters := (as_awaiters s)(t \<mapsto> q), as_next_event := n\<rparr>) =
     (map_client f s)\<lparr>as_awaiters := (as_awaiters (map_client f s))(t \<mapsto> map (map_awaiter f) q), as_next_event := n\<rparr>"
  "map_client f (s\<lparr>as_awaiters := (as_awaiters s)(t \<mapsto> q), as_events_set := E\<rparr>) =
     (map_client f s)\<lparr>as_awaiters := (as_awaiters (map_client f s))(t \<mapsto> map (map_awaiter f) q), as_events_set := E\<rparr>"
  by (simp_all add: map_client_def fun_eq_iff)

lemma span_copies_simps [simp]:
  "ac_state (span_copies s) = map_client (span_bytes (sp_received s)) (sp_client s)"
  "ac_waiters (span_copies s) = sp_waiters s"
  by (simp_all add: span_copies_def)

text \<open>Two functions that agree on the payloads in the queues.\<close>

lemma map_client_cong:
  assumes "\<And>t a p. a \<in> set (awaiter_queue s t) \<Longrightarrow> aw_data a = Some p \<Longrightarrow> f p = g p"
  shows "map_client f s = map_client g s"
proof -
  have "map (map_awaiter f) q = map (map_awaiter g) q" if "as_awaiters s t = Some q" for t q
    using assms [of _ t] that by (auto simp: awaiter_queue_def map_awaiter_def intro!: option.map_cong0)
  then have "map_option (map (map_awaiter f)) (as_awaiters s t) = map_option (map (map_awaiter g)) (as_awaiters s t)" for t
    by (cases "as_awaiters s t") simp_all
  then show ?thesis by (simp add: map_client_def)
qed

section \<open>The invariant\<close>

text \<open>A payload in the queue of a type is the span of a packet of that type that was handed out; an
  awaiter whose event is set has one.\<close>

definition span_ok :: "span_system \<Rightarrow> packet_type_t \<Rightarrow> payload_span \<Rightarrow> bool" where
  "span_ok s t p \<longleftrightarrow> span_msg p < sp_delivered s \<and>
     (\<exists>body. sp_received s ! span_msg p = header_wire serde_bin t @ body \<and> span_offset p = 8 \<and> span_size p = length body)"

definition spans_ok :: "span_system \<Rightarrow> bool" where
  "spans_ok s \<longleftrightarrow>
     sp_released s \<le> sp_delivered s \<and> sp_delivered s \<le> length (sp_received s) \<and>
     (\<forall>t. \<forall>a \<in> set (awaiter_queue (sp_client s) t).
        (\<forall>p. aw_data a = Some p \<longrightarrow> span_ok s t p) \<and>
        (aw_event a \<in> as_events_set (sp_client s) \<longrightarrow> aw_data a \<noteq> None))"

lemma spans_okD:
  assumes "spans_ok s"
  shows "sp_released s \<le> sp_delivered s" and "sp_delivered s \<le> length (sp_received s)"
    and "a \<in> set (awaiter_queue (sp_client s) t) \<Longrightarrow> aw_data a = Some p \<Longrightarrow> span_ok s t p"
    and "a \<in> set (awaiter_queue (sp_client s) t) \<Longrightarrow> aw_event a \<in> as_events_set (sp_client s) \<Longrightarrow> aw_data a \<noteq> None"
  using assms unfolding spans_ok_def by blast+

lemma span_ok_bytes:
  assumes "span_ok s t p"
  shows "span_bytes (sp_received s) p = drop 8 (sp_received s ! span_msg p)"
  using assms by (auto simp: span_ok_def span_bytes_def)

text \<open>What a message does: nothing, unless it is a binary packet of a type somebody waits for.\<close>

lemma span_pre_handler_cases:
  assumes "span_pre_handler m buffer s = Inr (taken, c)"
  obtains (unchanged) "c = s"
  | (taken) t a rest body where "buffer = header_wire serde_bin t @ body" and "awaiter_queue s t = a # rest"
    and "c = s\<lparr>as_awaiters := (as_awaiters s)(t \<mapsto>
        a\<lparr>aw_data := Some \<lparr>span_msg = m, span_offset = 8, span_size = length body\<rparr>\<rparr> # rest),
      as_events_set := insert (aw_event a) (as_events_set s)\<rparr>"
proof (cases "unpack_internal_packet_header buffer (length buffer)")
  case (Inr r)
  show thesis
  proof (cases r)
    case None
    with Inr assms show thesis by (intro unchanged) (simp add: span_pre_handler_def)
  next
    case (Some h)
    let ?t = "m_packet_type h"
    note wire = unpack_SomeD [OF order.refl, OF Inr [unfolded Some]]
    show thesis
    proof (cases "m_serde_type h = serde_bin \<and> awaiter_queue s ?t \<noteq> []")
      case False
      with assms Inr Some show thesis
        by (intro unchanged)
          (auto simp: span_pre_handler_def async_find_awaiter_def awaiter_queue_def split: if_splits option.splits list.splits)
    next
      case True
      then obtain a rest where q: "as_awaiters s ?t = Some (a # rest)"
        by (cases "as_awaiters s ?t") (auto simp: awaiter_queue_def neq_Nil_conv)
      from wire True obtain body where body: "buffer = header_wire serde_bin ?t @ body" by metis
      have "Inr (True, (s\<lparr>as_awaiters := (as_awaiters s)(?t \<mapsto>
          a\<lparr>aw_data := Some \<lparr>span_msg = m, span_offset = 8, span_size = length body\<rparr>\<rparr> # rest),
        as_events_set := insert (aw_event a) (as_events_set s)\<rparr>)) = (Inr (taken, c) :: (bool \<times> payload_span async_client) result)"
        using assms True q
        by (simp add: span_pre_handler_def Inr Some async_find_awaiter_def async_notify_awaiter_def binary_span_deserialize_def)
          (simp add: body)
      with body q show thesis by (intro taken [of ?t body a rest]) (simp_all add: awaiter_queue_def)
    qed
  qed
qed (use assms in \<open>simp add: span_pre_handler_def\<close>)

text \<open>The end of a wait.\<close>

lemma span_wait_end_eq:
  "span_wait_end T t s =
    (let s' = s\<lparr>sp_client := (sp_client s)\<lparr>as_awaiters := (as_awaiters (sp_client s))(t \<mapsto> tl (awaiter_queue (sp_client s) t))\<rparr>\<rparr> in
     case awaiter_queue (sp_client s) t of
       [] \<Rightarrow> Inr (None, s')
     | a # _ \<Rightarrow>
         (case aw_data a of
            None \<Rightarrow> Inr (None, s')
          | Some p \<Rightarrow> bind_result (binary_span_payload_as T s p) (\<lambda>r. Inr (r, s'))))"
  by (auto simp: span_wait_end_def AsyncUdpPacketClient_get_packet_awaiter_def Let_def awaiter_queue_def
      split: option.split list.split)

text \<open>Reading a span: a copy, or a fault once the message is gone.\<close>

lemma span_payload_as_eq:
  assumes "spans_ok s" and "span_ok s t p"
  shows "binary_span_payload_as T s p =
    (if span_size p = pod_sizeof T \<and> span_msg p < sp_released s then Inl Use_after_free
     else Inr (binary_payload_as_internal T (span_bytes (sp_received s) p)))"
proof -
  obtain body where "sp_received s ! span_msg p = header_wire serde_bin t @ body" "span_offset p = 8" "span_size p = length body"
    and m: "span_msg p < sp_delivered s"
    using assms(2) unfolding span_ok_def by blast
  moreover from m have "span_msg p < length (sp_received s)" using spans_okD(2) [OF assms(1)] by simp
  ultimately show ?thesis
    by (auto simp: binary_span_payload_as_def read_message_def binary_payload_as_internal_def span_bytes_def)
qed

section \<open>Each step simulates one of the system of copies\<close>

abbreviation simulates :: "'b owning_buffer_api \<Rightarrow> 'o pod_type \<Rightarrow> span_system \<Rightarrow> span_system \<Rightarrow> bool" where
  "simulates ob T s t \<equiv>
     span_copies t = span_copies s \<or> async_step (binary_serializer ob T) (span_copies s) (span_copies t)"

lemma spans_okI:
  assumes "sp_released s \<le> sp_delivered s" and "sp_delivered s \<le> length (sp_received s)"
    and "\<And>t a p. a \<in> set (awaiter_queue (sp_client s) t) \<Longrightarrow> aw_data a = Some p \<Longrightarrow> span_ok s t p"
    and "\<And>t a. a \<in> set (awaiter_queue (sp_client s) t) \<Longrightarrow> aw_event a \<in> as_events_set (sp_client s) \<Longrightarrow> aw_data a \<noteq> None"
  shows "spans_ok s"
  using assms unfolding spans_ok_def by blast

lemma span_ok_mono:
  assumes "span_ok s t p" and "sp_delivered s \<le> length (sp_received s)" and "sp_delivered s \<le> sp_delivered s'"
    and "sp_received s' = sp_received s @ ms"
  shows "span_ok s' t p"
  using assms by (auto simp: span_ok_def nth_append)

lemma span_copies_okD:
  assumes "async_ok (span_copies s)"
  shows "a \<in> set (awaiter_queue (sp_client s) t) \<Longrightarrow> sp_waiters s (aw_event a) = Some t"
    and "distinct (map aw_event (awaiter_queue (sp_client s) t))"
    and "a \<in> set (tl (awaiter_queue (sp_client s) t)) \<Longrightarrow> aw_event a \<notin> as_events_set (sp_client s)"
    and "ev \<in> as_events_set (sp_client s) \<Longrightarrow> ev < as_next_event (sp_client s)"
  using async_okD(1) [OF assms, of "map_awaiter (span_bytes (sp_received s)) a" t] async_okD(2) [OF assms, of t]
    async_okD(4) [OF assms, of "map_awaiter (span_bytes (sp_received s)) a" t] async_okD(7) [OF assms, of ev]
  by (simp_all add: map_tl [symmetric] comp_def)

lemma span_wait_ok:
  assumes ok: "spans_ok s" and copies: "async_ok (span_copies s)"
    and c: "async_wait_begin t (sp_client s) = (ev, c)"
  shows "spans_ok (s\<lparr>sp_client := c, sp_waiters := (sp_waiters s)(ev \<mapsto> t)\<rparr>)" (is "spans_ok ?s")
    and "simulates ob T s (s\<lparr>sp_client := c, sp_waiters := (sp_waiters s)(ev \<mapsto> t)\<rparr>)"
proof -
  have ev: "ev = as_next_event (sp_client s)" and ceq: "c = (sp_client s)\<lparr>as_awaiters := (as_awaiters (sp_client s))
      (t \<mapsto> awaiter_queue (sp_client s) t @ [\<lparr>aw_event = as_next_event (sp_client s), aw_data = None\<rparr>]),
      as_next_event := as_next_event (sp_client s) + 1\<rparr>"
    using c by (auto simp: async_wait_begin_eq)
  have fresh: "ev \<notin> as_events_set (sp_client s)"
    using span_copies_okD(4) [OF copies, of ev] by (auto simp: ev)
  show "spans_ok ?s"
  proof (rule spans_okI)
    show "span_ok ?s t' p" if "a \<in> set (awaiter_queue (sp_client ?s) t')" "aw_data a = Some p" for a t' p
      using that spans_okD(3) [OF ok, of a t' p] by (auto simp: ceq span_ok_def split: if_splits)
    show "aw_data a \<noteq> None" if "a \<in> set (awaiter_queue (sp_client ?s) t')" "aw_event a \<in> as_events_set (sp_client ?s)" for a t'
      using that spans_okD(4) [OF ok, of a t'] fresh by (auto simp: ceq ev split: if_splits)
  qed (use spans_okD(1,2) [OF ok] in simp_all)
  have "async_wait_begin t (ac_state (span_copies s)) = (ev, ac_state (span_copies ?s))"
    by (simp add: async_wait_begin_eq ceq ev map_client_upd)
  from async_step.wait [OF this, of "binary_serializer ob T"]
  show "simulates ob T s ?s" by (simp add: span_copies_def)
qed

lemma span_receive_ok:
  assumes ok: "spans_ok s" and "sp_released s = length (sp_received s)"
  shows "spans_ok (s\<lparr>sp_received := sp_received s @ ms\<rparr>)" (is "spans_ok ?s")
    and "span_copies (s\<lparr>sp_received := sp_received s @ ms\<rparr>) = span_copies s"
proof -
  show "spans_ok ?s"
  proof (rule spans_okI)
    show "span_ok ?s t p" if "a \<in> set (awaiter_queue (sp_client ?s) t)" "aw_data a = Some p" for a t p
      using that spans_okD(2) [OF ok] spans_okD(3) [OF ok, of a t p] by (intro span_ok_mono [of s t p ?s ms]) simp_all
    show "aw_data a \<noteq> None" if "a \<in> set (awaiter_queue (sp_client ?s) t)" "aw_event a \<in> as_events_set (sp_client ?s)" for a t
      using that spans_okD(4) [OF ok, of a t] by simp
  qed (use spans_okD(1,2) [OF ok] in simp_all)
  have "span_bytes (sp_received ?s) p = span_bytes (sp_received s) p"
    if "a \<in> set (awaiter_queue (sp_client s) t)" "aw_data a = Some p" for a t p
    using spans_okD(2) [OF ok] spans_okD(3) [OF ok that] by (simp add: span_ok_def span_bytes_def nth_append)
  then have "map_client (span_bytes (sp_received ?s)) (sp_client s) = map_client (span_bytes (sp_received s)) (sp_client s)"
    by (rule map_client_cong)
  then show "span_copies ?s = span_copies s" by (simp add: span_copies_def)
qed

lemma span_deliver_ok:
  assumes ok: "spans_ok s" and copies: "async_ok (span_copies s)" and lt: "sp_delivered s < length (sp_received s)"
    and c: "span_pre_handler (sp_delivered s) (sp_received s ! sp_delivered s) (sp_client s) = Inr (taken, c)"
  shows "spans_ok (s\<lparr>sp_client := c, sp_delivered := sp_delivered s + 1\<rparr>)" (is "spans_ok ?s")
    and "simulates ob T s (s\<lparr>sp_client := c, sp_delivered := sp_delivered s + 1\<rparr>)"
proof -
  have mono: "span_ok ?s t p" if "span_ok s t p" for t p
    using that lt by (intro span_ok_mono [of s t p ?s "[]"]) simp_all
  have "spans_ok ?s \<and> simulates ob T s ?s"
    using c
  proof (cases rule: span_pre_handler_cases)
    case unchanged
    have "spans_ok ?s"
    proof (rule spans_okI)
      show "span_ok ?s t p" if "a \<in> set (awaiter_queue (sp_client ?s) t)" "aw_data a = Some p" for a t p
        using that spans_okD(3) [OF ok, of a t p] mono by (simp add: unchanged)
      show "aw_data a \<noteq> None" if "a \<in> set (awaiter_queue (sp_client ?s) t)" "aw_event a \<in> as_events_set (sp_client ?s)" for a t
        using that spans_okD(4) [OF ok, of a t] by (simp add: unchanged)
    qed (use spans_okD(1,2) [OF ok] lt in simp_all)
    then show ?thesis by (simp add: span_copies_def unchanged)
  next
    case (taken t a rest body)
    let ?p = "\<lparr>span_msg = sp_delivered s, span_offset = 8, span_size = length body\<rparr>"
    have q: "awaiter_queue c t' = (if t' = t then a\<lparr>aw_data := Some ?p\<rparr> # rest else awaiter_queue (sp_client s) t')" for t'
      by (simp add: taken(3))
    have p: "span_ok ?s t ?p" using taken(1) by (simp add: span_ok_def)
    have old: "b \<in> set (awaiter_queue (sp_client s) t)" if "b \<in> set rest" for b using that taken(2) by simp
    have "spans_ok ?s"
    proof (rule spans_okI)
      show "span_ok ?s t' x" if b: "b \<in> set (awaiter_queue (sp_client ?s) t')" "aw_data b = Some x" for b t' x
      proof (cases "t' = t \<and> b = a\<lparr>aw_data := Some ?p\<rparr>")
        case True
        with b p show ?thesis by simp
      next
        case False
        then have "b \<in> set (awaiter_queue (sp_client s) t')" using b(1) old by (auto simp: q split: if_splits)
        then show ?thesis using mono spans_okD(3) [OF ok] b(2) by blast
      qed
      show "aw_data b \<noteq> None" if b: "b \<in> set (awaiter_queue (sp_client ?s) t')" "aw_event b \<in> as_events_set (sp_client ?s)" for b t'
      proof (cases "t' = t \<and> b = a\<lparr>aw_data := Some ?p\<rparr>")
        case False
        then have in_s: "b \<in> set (awaiter_queue (sp_client s) t')" and rest: "t' = t \<Longrightarrow> b \<in> set rest"
          using b(1) old by (auto simp: q split: if_splits)
        have "aw_event b \<noteq> aw_event a"
        proof (cases "t' = t")
          case True
          then have "aw_event b \<in> aw_event ` set rest" using rest by simp
          then show ?thesis using span_copies_okD(2) [OF copies, of t] taken(2) by auto
        next
          case False
          then show ?thesis
            using span_copies_okD(1) [OF copies in_s] span_copies_okD(1) [OF copies, of a t] taken(2) by auto
        qed
        with b(2) show ?thesis using spans_okD(4) [OF ok in_s] by (simp add: taken(3))
      qed simp
    qed (use spans_okD(1,2) [OF ok] lt in simp_all)
    moreover have "async_take_packet (binary_serializer ob T) t (sp_received s ! sp_delivered s) (ac_state (span_copies s)) =
        Inr (True, ac_state (span_copies ?s))"
      by (simp add: async_take_packet_eq taken(2,3) map_client_upd binary_serializer_def binary_deserialize_packet_internal_def
          notified_def map_awaiter_def span_bytes_def) (simp add: taken(1))
    note this = async_step.packet [OF this]
    ultimately show ?thesis by (simp add: span_copies_def)
  qed
  then show "spans_ok ?s" and "simulates ob T s ?s" by auto
qed

text \<open>The end of a wait that does not fault gives what the copies give.\<close>

lemma span_wait_end_copies:
  assumes ok: "spans_ok s" and "span_wait_end T t s = Inr (r, s')"
  shows "async_wait_end (binary_serializer ob T) t (ac_state (span_copies s)) = (r, ac_state (span_copies s'))"
    and "sp_received s' = sp_received s" and "sp_delivered s' = sp_delivered s" and "sp_released s' = sp_released s"
    and "as_events_set (sp_client s') = as_events_set (sp_client s)"
    and "awaiter_queue (sp_client s') t' =
      (if t' = t then tl (awaiter_queue (sp_client s) t) else awaiter_queue (sp_client s) t')"
proof -
  let ?q = "awaiter_queue (sp_client s) t"
  have s': "s' = s\<lparr>sp_client := (sp_client s)\<lparr>as_awaiters := (as_awaiters (sp_client s))(t \<mapsto> tl ?q)\<rparr>\<rparr>"
    using assms(2) by (auto simp: span_wait_end_eq Let_def bind_result_eq_Inr split: list.splits option.splits)
  show "sp_received s' = sp_received s" and "sp_delivered s' = sp_delivered s" and "sp_released s' = sp_released s"
    and "as_events_set (sp_client s') = as_events_set (sp_client s)"
    and "awaiter_queue (sp_client s') t' = (if t' = t then tl ?q else awaiter_queue (sp_client s) t')"
    by (simp_all add: s')
  have "r = (case ?q of [] \<Rightarrow> None
    | a # _ \<Rightarrow> Option.bind (aw_data a) (\<lambda>p. binary_payload_as_internal T (span_bytes (sp_received s) p)))"
  proof (cases ?q)
    case (Cons a rest)
    show ?thesis
    proof (cases "aw_data a")
      case (Some p)
      have "span_ok s t p" using spans_okD(3) [OF ok, of a t p] Cons Some by simp
      from span_payload_as_eq [OF ok this, of T] show ?thesis
        using assms(2) Cons Some by (auto simp: span_wait_end_eq Let_def split: if_splits)
    qed (use assms(2) Cons in \<open>simp add: span_wait_end_eq Let_def\<close>)
  qed (use assms(2) in \<open>simp add: span_wait_end_eq Let_def\<close>)
  then show "async_wait_end (binary_serializer ob T) t (ac_state (span_copies s)) = (r, ac_state (span_copies s'))"
    by (cases ?q)
      (auto simp: async_wait_end_eq s' map_client_upd binary_serializer_def map_tl bind_map_option comp_def split: option.split)
qed

lemma span_resume_ok:
  assumes ok: "spans_ok s" and w: "sp_waiters s ev = Some t" "ev \<in> as_events_set (sp_client s)"
    and r: "span_wait_end T t s = Inr (r, s')"
  shows "spans_ok (s'\<lparr>sp_waiters := (sp_waiters s)(ev := None)\<rparr>)" (is "spans_ok ?s")
    and "simulates ob T s (s'\<lparr>sp_waiters := (sp_waiters s)(ev := None)\<rparr>)"
proof -
  note eqs = span_wait_end_copies [OF ok r]
  have sub: "a \<in> set (awaiter_queue (sp_client s) t')" if "a \<in> set (awaiter_queue (sp_client s') t')" for a t'
    using that by (cases "awaiter_queue (sp_client s) t") (auto simp: eqs(6) split: if_splits)
  show "spans_ok ?s"
  proof (rule spans_okI)
    show "span_ok ?s t' p" if "a \<in> set (awaiter_queue (sp_client ?s) t')" "aw_data a = Some p" for a t' p
      using that spans_okD(3) [OF ok sub] by (simp add: span_ok_def eqs)
    show "aw_data a \<noteq> None" if "a \<in> set (awaiter_queue (sp_client ?s) t')" "aw_event a \<in> as_events_set (sp_client ?s)" for a t'
      using that spans_okD(4) [OF ok sub] by (simp add: eqs)
  qed (use spans_okD(1,2) [OF ok] in \<open>simp_all add: eqs\<close>)
  have "async_step (binary_serializer ob T) (span_copies s)
      ((span_copies s)\<lparr>ac_state := ac_state (span_copies s'), ac_waiters := (ac_waiters (span_copies s))(ev := None)\<rparr>)"
    using w eqs(1) by (intro async_step.resume) (simp_all add: span_copies_def)
  then show "simulates ob T s ?s" by (simp add: span_copies_def)
qed

lemma span_step_ok:
  assumes "span_step T s t" and ok: "spans_ok s" and copies: "async_ok (span_copies s)"
  shows "spans_ok t \<and> simulates ob T s t"
  using assms(1)
proof cases
  case (wait u ev c)
  then show ?thesis using span_wait_ok [OF ok copies] by simp
next
  case (receive ms)
  then show ?thesis using span_receive_ok [OF ok] by simp
next
  case (deliver taken c)
  then show ?thesis
    using span_deliver_ok [OF ok copies deliver(2,3)] by simp
next
  case release
  have "spans_ok t"
  proof (rule spans_okI)
    show "span_ok t u p" if "a \<in> set (awaiter_queue (sp_client t) u)" "aw_data a = Some p" for a u p
      using that spans_okD(3) [OF ok, of a u p] by (simp add: release span_ok_def)
    show "aw_data a \<noteq> None" if "a \<in> set (awaiter_queue (sp_client t) u)" "aw_event a \<in> as_events_set (sp_client t)" for a u
      using that spans_okD(4) [OF ok, of a u] by (simp add: release)
  qed (use spans_okD(1,2) [OF ok] release in simp_all)
  then show ?thesis by (simp add: release span_copies_def)
next
  case (resume ev u r s')
  then show ?thesis using span_resume_ok [OF ok resume(2-4)] by simp
qed

lemma span_reachable_ok:
  "span_reachable T s \<Longrightarrow> spans_ok s \<and> async_reachable (binary_serializer ob T) (span_copies s)"
proof (induction rule: span_reachable.induct)
  case init
  have "span_copies span_system_init = async_system_init"
    by (simp add: span_copies_def span_system_init_def async_system_init_def map_client_def async_client_new_def)
  then show ?case
    by (simp add: async_reachable.init) (simp add: spans_ok_def span_system_init_def awaiter_queue_def async_client_new_def)
next
  case (step s t)
  then show ?case
    using span_step_ok [OF step(2), where ob = ob] async_reachable_ok [of "binary_serializer ob T" "span_copies s"]
      async_reachable.step by metis
qed

section \<open>What the coroutines get\<close>

text \<open>
  C24: The spans of the binary serializer implement payloads as values, as long as nobody reads one too
  late: every state of the system with messages and spans is, with each span replaced by its bytes, a
  reachable state of the system of waiters and packets, and a resumption that does not fault gives the
  object it gives there.
\<close>

theorem binary_spans_refine_copies:
  assumes "span_reachable T s"
  shows "async_reachable (binary_serializer ob T) (span_copies s) \<and>
    (\<forall>t r s'. span_wait_end T t s = Inr (r, s') \<longrightarrow>
       async_wait_end (binary_serializer ob T) t (ac_state (span_copies s)) = (r, ac_state (span_copies s')))"
  using span_reachable_ok [OF assms, of ob] span_wait_end_copies(1) by blast

text \<open>
  C23: A coroutine that waits with the binary serializer and was notified finds its own entry with the
  payload of a packet of its type. If the size is not that of its type it returns nothing. If the
  message was not released yet it returns the object of that packet. If the poll that received the
  message already released it, it reads freed memory.
\<close>

theorem binary_payload_lifetime:
  assumes "span_reachable T s" and "sp_waiters s ev = Some t" and "ev \<in> as_events_set (sp_client s)"
  shows "\<exists>a rest p body c. awaiter_queue (sp_client s) t = a # rest \<and> aw_event a = ev \<and> aw_data a = Some p \<and>
    span_msg p < sp_delivered s \<and> sp_received s ! span_msg p = header_wire serde_bin t @ body \<and>
    awaiter_queue c t = rest \<and>
    span_wait_end T t s =
      (if length body \<noteq> pod_sizeof T then Inr (None, s\<lparr>sp_client := c\<rparr>)
       else if span_msg p < sp_released s then Inl Use_after_free
       else Inr (Some (pod_value T body), s\<lparr>sp_client := c\<rparr>))"
proof -
  have ok: "spans_ok s" and copies: "async_ok (span_copies s)"
    using span_reachable_ok [OF assms(1)] async_reachable_ok by blast+
  obtain a' rest' where "awaiter_queue (ac_state (span_copies s)) t = a' # rest'" and "aw_event a' = ev"
    by (rule notified_is_front [OF copies, of ev t]) (use assms(2,3) in simp_all)
  then obtain a rest where q: "awaiter_queue (sp_client s) t = a # rest" and ev: "aw_event a = ev"
    by (cases "awaiter_queue (sp_client s) t") auto
  obtain p where p: "aw_data a = Some p" using spans_okD(4) [OF ok, of a t] q ev assms(3) by auto
  have span: "span_ok s t p" using spans_okD(3) [OF ok, of a t p] q p by simp
  then obtain body where body: "sp_received s ! span_msg p = header_wire serde_bin t @ body" "span_size p = length body"
    and m: "span_msg p < sp_delivered s"
    unfolding span_ok_def by blast
  have "span_bytes (sp_received s) p = body" using span_ok_bytes [OF span] body(1) by simp
  then show ?thesis
    using span_payload_as_eq [OF ok span, of T] q ev p m body
    by (intro exI [of _ a] exI [of _ rest] exI [of _ p] exI [of _ body]
        exI [of _ "(sp_client s)\<lparr>as_awaiters := (as_awaiters (sp_client s))(t \<mapsto> rest)\<rparr>"])
      (auto simp: span_wait_end_eq Let_def binary_payload_as_internal_def)
qed

text \<open>One byte for a coroutine that waits for type 0, before and after the poll released the message.\<close>

definition byte_pod :: "u8 pod_type" where
  "byte_pod = \<lparr>pod_sizeof = 1, pod_bytes = (\<lambda>x. [x]), pod_value = hd\<rparr>"

definition binary_byte :: "u8 list" where
  "binary_byte = header_wire serde_bin 0 @ [7]"

definition span_notified :: "nat \<Rightarrow> span_system" where
  "span_notified released =
     \<lparr>sp_client = \<lparr>as_alive = True,
        as_awaiters = [0 \<mapsto> [\<lparr>aw_event = 0, aw_data = Some \<lparr>span_msg = 0, span_offset = 8, span_size = 1\<rparr>\<rparr>]],
        as_events_set = {0}, as_next_event = 1\<rparr>,
      sp_waiters = [0 \<mapsto> 0], sp_received = [binary_byte], sp_delivered = 1, sp_released = released\<rparr>"

lemma span_notified_reachable: "span_reachable byte_pod (span_notified 0)" "span_reachable byte_pod (span_notified 1)"
proof -
  let ?c = "\<lparr>as_alive = True, as_awaiters = [0 \<mapsto> [\<lparr>aw_event = 0, aw_data = None\<rparr>]], as_events_set = {}, as_next_event = 1\<rparr>
    :: payload_span async_client"
  let ?s1 = "\<lparr>sp_client = ?c, sp_waiters = [0 \<mapsto> 0], sp_received = [], sp_delivered = 0, sp_released = 0\<rparr>"
  let ?s2 = "?s1\<lparr>sp_received := [binary_byte]\<rparr>"
  have "async_wait_begin 0 (sp_client span_system_init) = (0, ?c)"
    by (simp add: async_wait_begin_eq span_system_init_def async_client_new_def awaiter_queue_def)
  from span_reachable.step [OF span_reachable.init span_step.wait [OF this]]
  have s1: "span_reachable byte_pod ?s1" by (simp add: span_system_init_def)
  have s2: "span_reachable byte_pod ?s2"
    using span_reachable.step [OF s1 span_step.receive [where ms = "[binary_byte]"]]
    by (simp add: k_default_poll_message_count_def)
  have "span_pre_handler (sp_delivered ?s2) (sp_received ?s2 ! sp_delivered ?s2) (sp_client ?s2) =
      Inr (True, sp_client (span_notified 0))"
    by (simp add: binary_byte_def span_pre_handler_def internal_packet_header_create_def async_find_awaiter_def
        async_notify_awaiter_def binary_span_deserialize_def span_notified_def)
  from span_reachable.step [OF s2 span_step.deliver [OF _ this]]
  show s3: "span_reachable byte_pod (span_notified 0)" by (simp add: span_notified_def)
  from span_reachable.step [OF s3 span_step.release]
  show "span_reachable byte_pod (span_notified 1)" by (simp add: span_notified_def)
qed

theorem binary_payload_lifetime_witness:
  "(\<exists>s. span_wait_end byte_pod 0 (span_notified 0) = Inr (Some 7, s)) \<and>
   span_wait_end byte_pod 0 (span_notified 1) = Inl Use_after_free"
proof -
  have "sp_waiters (span_notified n) 0 = Some 0" "0 \<in> as_events_set (sp_client (span_notified n))" for n
    by (simp_all add: span_notified_def)
  note resumed = binary_payload_lifetime [OF span_notified_reachable(1) this]
    binary_payload_lifetime [OF span_notified_reachable(2) this]
  show ?thesis
    using resumed
    by (auto simp: span_notified_def byte_pod_def binary_byte_def awaiter_queue_def)
qed

theorem binary_spans_refine_copies_witness:
  "async_wait_end (binary_serializer sample_buffer byte_pod) 0 (ac_state (span_copies (span_notified 0))) =
     (Some 7, ac_state (span_copies (span_notified 0\<lparr>sp_client := (sp_client (span_notified 0))\<lparr>as_awaiters := [0 \<mapsto> []]\<rparr>\<rparr>)))"
proof -
  have "span_wait_end byte_pod 0 (span_notified 0) =
      Inr (Some 7, span_notified 0\<lparr>sp_client := (sp_client (span_notified 0))\<lparr>as_awaiters := [0 \<mapsto> []]\<rparr>\<rparr>)"
    by (simp add: span_wait_end_eq span_notified_def awaiter_queue_def binary_span_payload_as_def read_message_def
        byte_pod_def binary_byte_def Let_def)
  with binary_spans_refine_copies [OF span_notified_reachable(1), of sample_buffer] show ?thesis by blast
qed

end
