(* ===== verification/Concurrency_Properties.thy ===== *)
theory Concurrency_Properties
  imports Interleaving Packet_Properties
begin

text \<open>
  The properties of operations that another thread interrupts between the lookup of a table entry and
  its use: which interleavings act like one of the two sequential orders, and which end in a read
  through a dangling pointer.
\<close>

section \<open>Handler tables\<close>

text \<open>
  C15: Dispatch on the network thread of a packet server while the application binds and unbinds
  handlers in the middle of it. A packet of a bound type that decodes acts as if the application had
  been first, unless the application made the iterator invalid, by unbinding the type or by an
  insertion that rehashes: then the handler is read through it. Any other packet is dropped, and what
  the application did stands.
\<close>

theorem server_handler_interleaving:
  "(\<exists>t body h p. data = header_wire (traits_serde S) t @ body \<and> server_table i e t = Some h \<and>
      deserialize_packet S body (length body) = Some p \<and>
      server_handle_interleaved S i client data (length data) ops e =
        (if server_iterator_valid i ops e t
         then UdpPacketServer_handle_packet S i client data (length data) (fold (server_table_step i) ops e)
         else Inl Use_after_free)) \<or>
   (UdpPacketServer_handle_packet S i client data (length data) e = Inr (False, e) \<and>
    server_handle_interleaved S i client data (length data) ops e = Inr (False, fold (server_table_step i) ops e))"
proof (cases "\<exists>s t body. data = header_wire s t @ body")
  case False
  then have "UdpPacketServer_handle_packet S i client data (length data) e = Inr (False, e)"
    by (intro handle_packet_other) blast
  moreover have "UdpPacketServer_find_handler S i data (length data) e = Inr None"
  proof -
    obtain r where r: "unpack_internal_packet_header data (length data) = Inr r"
      using unpack_eq [of "length data" data] by blast
    have "r = None" using unpack_SomeD(3) [of "length data" data] r False by (cases r) auto
    with r show ?thesis by (simp add: UdpPacketServer_find_handler_def)
  qed
  ultimately show ?thesis
    by (simp add: server_handle_interleaved_def UdpPacketServer_use_handler_def)
next
  case True
  then obtain s t body where d: "data = header_wire s t @ body" by blast
  have len: "length data = 8 + length body" by (simp add: d)
  note eqs = server_handle_interleaved_wire [of S i client s t body ops e] handle_packet_wire [of S i client s t body e]
    handle_packet_wire [of S i client s t body "fold (server_table_step i) ops e"]
  show ?thesis
  proof (cases "s = traits_serde S \<and> (\<exists>h p. server_table i e t = Some h \<and> deserialize_packet S body (length body) = Some p)")
    case True
    then obtain h p where h: "s = traits_serde S" "server_table i e t = Some h" "deserialize_packet S body (length body) = Some p"
      by blast
    have "server_table i (fold (server_table_step i) ops e) t = Some h" if "server_iterator_valid i ops e t"
      using server_iterator.find_after h(2) that by (simp add: server_iterator_valid_def)
    then show ?thesis
      unfolding len using h eqs
      by (intro disjI1 exI [of _ t] exI [of _ body] exI [of _ h] exI [of _ p]) (simp add: d server_table_def)
  next
    case False
    then show ?thesis
      unfolding len using eqs by (intro disjI2) (auto simp: d server_table_def split: option.split)
  qed
qed

text \<open>
  C16: The same for a packet client from the lookup in \<^verbatim>\<open>handle_message\<close> on, which its mutex does not
  protect: as if the application had been first, or as if it had done nothing before a dropped packet,
  or a read through an invalid iterator.
\<close>

theorem client_handler_interleaving:
  "(\<exists>h p. client_table i e t = Some h \<and> deserialize_packet S (drop 8 buffer) (length buffer - 8) = Some p \<and>
      client_payload_interleaved S i t buffer ops e =
        (if client_iterator_valid i ops e t
         then UdpPacketClient_handle_payload S i t buffer (fold (client_table_step i) ops e)
         else Inl Use_after_free)) \<or>
   (UdpPacketClient_handle_payload S i t buffer e = Inr (False, e) \<and>
    client_payload_interleaved S i t buffer ops e = Inr (False, fold (client_table_step i) ops e))"
proof (cases "\<exists>h p. client_table i e t = Some h \<and> deserialize_packet S (drop 8 buffer) (length buffer - 8) = Some p")
  case True
  then obtain h p where h: "client_table i e t = Some h" "deserialize_packet S (drop 8 buffer) (length buffer - 8) = Some p"
    by blast
  have "client_table i (fold (client_table_step i) ops e) t = Some h" if "client_iterator_valid i ops e t"
    using client_iterator.find_after h(1) that by (simp add: client_iterator_valid_def)
  then show ?thesis
    using h by (intro disjI1 exI [of _ h] exI [of _ p])
      (simp add: client_payload_interleaved_eq Let_def UdpPacketClient_handle_payload_def client_table_def)
next
  case False
  then show ?thesis
    by (intro disjI2)
      (auto simp: client_payload_interleaved_eq Let_def UdpPacketClient_handle_payload_def client_table_def
        split: option.split)
qed

text \<open>The handler of type 42, unbound while its packet is in the hands of the network thread.\<close>

lemma unbind_in_between:
  "server_handle_interleaved sample_serde 0 (sample_client 5) (header_wire serde_msgpack 42 @ [0xCC, 7]) 10
     [Bind_op 43 None False, Unbind_op 42] sample_server_env = Inl Use_after_free"
proof -
  have "traits_serde sample_serde = serde_msgpack" and "deserialize_packet sample_serde [0xCC, 7] (length [0xCC, 7 :: u8]) = Some 7"
    by (simp_all add: msgpack_serializer_def msgpack_deserialize_packet_internal_def sample_msgpack_def)
  with server_handle_interleaved_wire [of sample_serde 0 "sample_client 5" serde_msgpack 42 "[0xCC, 7]"
      "[Bind_op 43 None False, Unbind_op 42]" sample_server_env]
  show ?thesis
    by (simp add: server_table_def sample_server_env_def Let_def server_iterator_valid_def server_table_step_def)
qed

section \<open>The client table\<close>

text \<open>
  C17: Delivery of a message on the network thread while the application works on the same server.
  Nothing is delivered to a message of an unknown client or without a callback; a callback that is
  unset in the middle is called all the same and terminates the process; if the application
  disconnects that client in the middle, the callback gets a dangling reference; in every other
  case the delivery acts as if the application had been first.
\<close>

theorem server_client_pointer_interleaving:
  "server_deliver_interleaved st i m ops w =
    (let w' = fold (server_app_step st i) ops w in
     if us_on_data (servers w i) = None \<or> UdpServer_get_client_info i (sm_conn m) w = None then Inr w'
     else if us_on_data (servers w' i) = None then Inl Terminate
     else if \<exists>reason. App_disconnect (sm_conn m) reason \<in> set ops then Inl Use_after_free
     else UdpServer_deliver i m w')"
proof -
  let ?w = "fold (server_app_step st i) ops w"
  have "UdpServer_get_client_info i (sm_conn m) ?w = Some c"
    if "UdpServer_get_client_info i (sm_conn m) w = Some c" "\<forall>reason. App_disconnect (sm_conn m) reason \<notin> set ops" for c
    using client_pointer.find_after [where this = i and st = st and k = "sm_conn m" and s = w and ops = ops] that
    by (simp add: client_pointer_valid_iff [unfolded client_pointer_valid_def])
  then show ?thesis
    by (auto simp: server_deliver_interleaved_eq Let_def client_pointer_valid_iff UdpServer_deliver_def split: option.split)
qed

section \<open>The last reference to a packet object\<close>

text \<open>
  C40: Dropping a running packet client or packet server while its network thread handles a message
  ends the process: the callback is the last owner, the destructor runs on the network thread, and its
  \<^verbatim>\<open>stop\<close> joins the thread it runs on. The same destructor on the application thread returns.
\<close>

theorem packet_object_dropped_in_callback:
  assumes "UdpPacketClient_handle_message S i m (cenv w) = Inr (ok, e)"
    and "uc_running (udp_clients w i)" and "uc_network_thread (udp_clients w i)"
    and "UdpPacketServer_handle_packet S' k client data (length data) (senv v) = Inr (ok', e')"
    and "us_is_running (servers v k)" and "us_network_thread (servers v k)"
  shows "packet_client_on_data_last_owner S (Client_network i) i m w = Inl Terminate \<and>
    (\<exists>w'. UdpPacketClient_delete Client_app i w = Inr w') \<and>
    packet_server_on_data_last_owner S' (Network_thread k) k client data v = Inl Terminate \<and>
    (\<exists>v'. UdpPacketServer_delete App_thread k v = Inr v')"
  using assms
  by (simp add: packet_client_on_data_last_owner_def packet_server_on_data_last_owner_def
      UdpPacketClient_delete_def UdpPacketServer_delete_def UdpClient_delete_def UdpServer_delete_def
      UdpClient_stop_def UdpClient_stop_begin_def UdpServer_stop_def UdpServer_stop_begin_def
      UdpClient_stop_finish_def Let_def stopped_def)

theorem packet_object_dropped_in_callback_witness:
  "packet_client_on_data_last_owner sample_serde (Client_network 0) 0 \<lparr>msg_conn = 1, msg_buffer = header_wire serde_bin 0\<rparr>
     \<lparr>udp_clients = (\<lambda>_. udp_client_new\<lparr>uc_running := True, uc_network_thread := True\<rparr>), client_instance = Some 0,
      cenv = \<lparr>calls = [], app = \<lparr>packet_clients = (\<lambda>_. udp_packet_client_new), pc_user = ()\<rparr>\<rparr>\<rparr> = Inl Terminate"
proof -
  let ?w = "\<lparr>udp_clients = (\<lambda>_. udp_client_new\<lparr>uc_running := True, uc_network_thread := True\<rparr>), client_instance = Some 0,
      cenv = \<lparr>calls = [], app = \<lparr>packet_clients = (\<lambda>_. udp_packet_client_new), pc_user = ()\<rparr>\<rparr>\<rparr> :: (u8, unit) packet_client_world"
  let ?v = "\<lparr>servers = (\<lambda>_. udp_server_new\<lparr>us_is_running := True, us_network_thread := True\<rparr>), server_instance = Some 0,
      senv = sample_server_env\<rparr> :: (u8, nat) packet_world"
  let ?m = "\<lparr>msg_conn = 1, msg_buffer = header_wire serde_bin 0\<rparr>"
  have S: "traits_serde sample_serde = serde_msgpack" "serde_bin \<noteq> serde_msgpack"
    by (simp_all add: msgpack_serializer_def serde_bin_def serde_msgpack_def)
  have client: "UdpPacketClient_handle_message sample_serde 0 ?m (cenv ?w) = Inr (False, cenv ?w)"
    using handle_message_wire [of sample_serde 0 1 serde_bin 0 "[]" "cenv ?w"] by (simp add: S)
  have server: "UdpPacketServer_handle_packet sample_serde 0 (sample_client 5) (header_wire serde_bin 0)
      (length (header_wire serde_bin 0)) (senv ?v) = Inr (False, senv ?v)"
    using handle_packet_wire [of sample_serde 0 "sample_client 5" serde_bin 0 "[]" "senv ?v"] by (simp add: S)
  from packet_object_dropped_in_callback [OF client _ _ server] show ?thesis by simp
qed

end
