(* ===== verification/Reentrant_Server.thy ===== *)
theory Reentrant_Server
  imports Server_System
begin

text \<open>
  \<^verbatim>\<open>UdpServer::poll\<close> (\<^verbatim>\<open>src/src/kb/net/udp/server/udp_server.cpp\<close>) with callbacks that call back into
  a server. A callback gets a reference to an entry of \<^verbatim>\<open>m_clients\<close>; while it runs it may disconnect
  clients, broadcast and stop servers, so the reference can dangle and the loops of \<^verbatim>\<open>poll\<close> go on
  over a server that changed. \<open>Udp_Server\<close> is the special case in which callbacks act on the world
  outside only.
\<close>

section \<open>Callbacks as scripts\<close>

text \<open>A callback, as the tree of what it may do next: run code of the application, which may fault and
  may \<^verbatim>\<open>send\<close>, and go on depending on the state it leaves; read the client it was given; or call a
  member function of server \<open>j\<close>.\<close>

datatype 'w script =
    Return
  | Do "'w env \<Rightarrow> 'w env result" "'w env \<Rightarrow> 'w script"
  | Read_client "client_info_t \<Rightarrow> 'w script"
  | Disconnect nat kb_connection_t i32 "'w script"
  | Broadcast nat "u8 list" u32 bool "bool \<Rightarrow> 'w script"
  | Stop nat "'w script"

text \<open>Run by thread \<open>caller\<close> on a reference to the entry \<open>conn\<close> of server \<open>this\<close>. A callback cannot
  insert into \<^verbatim>\<open>m_clients\<close>, so the reference is valid while the entry is there.\<close>

primrec run_script ::
  "'w script \<Rightarrow> steam_api \<Rightarrow> thread_id \<Rightarrow> nat \<Rightarrow> kb_connection_t \<Rightarrow> 'w server_world \<Rightarrow> 'w server_world result" where
  "run_script Return st caller this conn w = Inr w"
| "run_script (Do f k) st caller this conn w =
     bind_result (run_env f w) (\<lambda>w. run_script (k (senv w)) st caller this conn w)"
| "run_script (Read_client k) st caller this conn w =
     (case UdpServer_get_client_info this conn w of
        None \<Rightarrow> Inl Use_after_free
      | Some client \<Rightarrow> run_script (k client) st caller this conn w)"
| "run_script (Disconnect j c reason k) st caller this conn w =
     run_script k st caller this conn (UdpServer_disconnect j c reason w)"
| "run_script (Broadcast j bytes sz reliable k) st caller this conn w =
     run_script (k (fst (UdpServer_broadcast st j bytes sz reliable w))) st caller this conn
       (snd (UdpServer_broadcast st j bytes sz reliable w))"
| "run_script (Stop j k) st caller this conn w =
     bind_result (UdpServer_stop caller j w) (\<lambda>w. run_script k st caller this conn w)"

record 'w server_scripts =
  rs_on_data :: "(u8 list \<Rightarrow> 'w script) option"
  rs_on_connected :: "'w script option"
  rs_on_disconnected :: "'w script option"

section \<open>Polling\<close>

text \<open>\<open>P\<close> gives the callbacks of each server.\<close>

definition reentrant_deliver ::
  "steam_api \<Rightarrow> thread_id \<Rightarrow> (nat \<Rightarrow> 'w server_scripts) \<Rightarrow> nat \<Rightarrow> steam_message \<Rightarrow> 'w server_world \<Rightarrow> 'w server_world result" where
  "reentrant_deliver st caller P this message w =
     (case rs_on_data (P this) of
        None \<Rightarrow> Inr w
      | Some callback \<Rightarrow>
          (case UdpServer_get_client_info this (sm_conn message) w of
             None \<Rightarrow> Inr w
           | Some _ \<Rightarrow> run_script (callback (sm_data message)) st caller this (sm_conn message) w))"

function reentrant_message_loop ::
  "steam_api \<Rightarrow> thread_id \<Rightarrow> (nat \<Rightarrow> 'w server_scripts) \<Rightarrow> nat \<Rightarrow> nat \<Rightarrow> steam_message list \<Rightarrow> nat \<Rightarrow>
   'w server_world \<Rightarrow> 'w server_world result" where
  "reentrant_message_loop st caller P this message_count messages i w =
     (if i < message_count then
        if i < length messages then
          bind_result (reentrant_deliver st caller P this (messages ! i) w) (\<lambda>w.
            reentrant_message_loop st caller P this message_count messages (i + 1)
              (server_log (ReleaseMessage (messages ! i)) w))
        else Inl Uninitialised_read
      else Inr w)"
  by pat_completeness auto
termination
  by (relation "measure (\<lambda>(st, caller, P, this, n, ms, i, w). n - i)") auto

declare reentrant_message_loop.simps [simp del]

definition reentrant_on_closed ::
  "steam_api \<Rightarrow> thread_id \<Rightarrow> (nat \<Rightarrow> 'w server_scripts) \<Rightarrow> nat \<Rightarrow> status_changed \<Rightarrow> 'w server_world \<Rightarrow> 'w server_world result" where
  "reentrant_on_closed st caller P this p_info w =
     (let conn = sc_hConn p_info in
      bind_result
        (if sc_eOldState p_info = State_Connected then
           case (rs_on_disconnected (P this), UdpServer_get_client_info this conn w) of
             (Some callback, Some _) \<Rightarrow> run_script callback st caller this conn w
           | _ \<Rightarrow> Inr w
         else Inr w)
        (\<lambda>w. Inr (server_log (CloseConnection conn 0 None False) w)))"

definition reentrant_on_connecting ::
  "steam_api \<Rightarrow> thread_id \<Rightarrow> (nat \<Rightarrow> 'w server_scripts) \<Rightarrow> nat \<Rightarrow> status_changed \<Rightarrow> 'w server_world \<Rightarrow> 'w server_world result" where
  "reentrant_on_connecting st caller P this p_info w =
     (let conn = sc_hConn p_info;
          accepted = accept_connection st (server_history w) conn;
          w = server_log (AcceptConnection conn) w in
      if accepted \<noteq> EResultOK then Inr (server_log (CloseConnection conn 0 None False) w)
      else
        let pg = us_poll_group (servers w this);
            grouped = set_connection_poll_group st (server_history w) conn pg;
            w = server_log (SetConnectionPollGroup conn pg) w in
        if \<not> grouped then Inr (server_log (CloseConnection conn 0 None False) w)
        else
          let w = snd (UdpServer_add_client st this conn w) in
          case rs_on_connected (P this) of
            None \<Rightarrow> Inr w
          | Some callback \<Rightarrow> run_script callback st caller this conn w)"

definition reentrant_on_connection_status_changed ::
  "steam_api \<Rightarrow> thread_id \<Rightarrow> (nat \<Rightarrow> 'w server_scripts) \<Rightarrow> nat \<Rightarrow> status_changed \<Rightarrow> 'w server_world \<Rightarrow> 'w server_world result" where
  "reentrant_on_connection_status_changed st caller P this p_info w =
     (case sc_eState p_info of
        State_None \<Rightarrow> Inr w
      | State_ClosedByPeer \<Rightarrow> reentrant_on_closed st caller P this p_info w
      | State_ProblemDetectedLocally \<Rightarrow> reentrant_on_closed st caller P this p_info w
      | State_Connecting \<Rightarrow> reentrant_on_connecting st caller P this p_info w
      | State_Connected \<Rightarrow> Inr w
      | State_other _ \<Rightarrow> Inr w)"

text \<open>The static pointer is read for every event: a stop in a callback silences the events after it.\<close>

fun reentrant_dispatch ::
  "steam_api \<Rightarrow> thread_id \<Rightarrow> (nat \<Rightarrow> 'w server_scripts) \<Rightarrow> status_changed list \<Rightarrow> 'w server_world \<Rightarrow> 'w server_world result" where
  "reentrant_dispatch st caller P [] w = Inr w"
| "reentrant_dispatch st caller P (ev # evs) w =
     bind_result
       (case server_instance w of
          None \<Rightarrow> Inr w
        | Some this \<Rightarrow> reentrant_on_connection_status_changed st caller P this ev w)
       (reentrant_dispatch st caller P evs)"

definition reentrant_poll ::
  "steam_api \<Rightarrow> thread_id \<Rightarrow> (nat \<Rightarrow> 'w server_scripts) \<Rightarrow> nat \<Rightarrow> 'w server_world \<Rightarrow> 'w server_world result" where
  "reentrant_poll st caller P this w =
     (let pg = us_poll_group (servers w this);
          (n, messages) = receive_on_poll_group st (server_history w) pg k_message_count;
          message_count = u32_count n;
          w = server_log (ReceiveMessagesOnPollGroup pg k_message_count) w in
      bind_result (reentrant_message_loop st caller P this message_count messages 0 w) (\<lambda>w.
        reentrant_dispatch st caller P (run_callbacks st (server_history w)) (server_log RunCallbacks w)))"
end
