(* ===== verification/Reentrant_Properties.thy ===== *)
theory Reentrant_Properties
  imports Reentrant_Server Server_Properties
begin

text \<open>
  The properties of a server whose callbacks call back: which callbacks are safe to run, what the
  model without such callbacks leaves out, and what a callback that disconnects its own client does
  to the rest of a batch.
\<close>

section \<open>The message loop\<close>

fun reentrant_messages ::
  "steam_api \<Rightarrow> thread_id \<Rightarrow> (nat \<Rightarrow> 'w server_scripts) \<Rightarrow> nat \<Rightarrow> steam_message list \<Rightarrow> 'w server_world \<Rightarrow> 'w server_world result" where
  "reentrant_messages st caller P this [] w = Inr w"
| "reentrant_messages st caller P this (m # ms) w =
     bind_result (reentrant_deliver st caller P this m w) (\<lambda>w.
       reentrant_messages st caller P this ms (server_log (ReleaseMessage m) w))"

lemma reentrant_message_loop_eq:
  "n = length messages \<Longrightarrow> i \<le> n \<Longrightarrow>
   reentrant_message_loop st caller P this n messages i w = reentrant_messages st caller P this (drop i messages) w"
proof (induction "n - i" arbitrary: i w)
  case 0
  then show ?case by (subst reentrant_message_loop.simps) simp
next
  case (Suc k)
  then have i: "i < length messages" and k: "k = n - Suc i" "Suc i \<le> n" by simp_all
  show ?case
    using i Suc.prems Suc.hyps(1) [OF k(1) Suc.prems(1) k(2)]
    by (subst reentrant_message_loop.simps) (simp add: Cons_nth_drop_Suc [symmetric])
qed

text \<open>A poll whose receive returns the messages \<open>ms\<close>.\<close>

lemma reentrant_poll_eq:
  assumes "receive_on_poll_group st (server_history w) (us_poll_group (servers w this)) k_message_count = (int (length ms), ms)"
    and "length ms \<le> 32"
  shows "reentrant_poll st caller P this w =
    bind_result (reentrant_messages st caller P this ms
        (server_log (ReceiveMessagesOnPollGroup (us_poll_group (servers w this)) k_message_count) w)) (\<lambda>w.
      reentrant_dispatch st caller P (run_callbacks st (server_history w)) (server_log RunCallbacks w))"
proof -
  have "u32_count (int (length ms)) = length ms" using assms(2) by simp
  then show ?thesis by (simp add: reentrant_poll_def Let_def assms(1) reentrant_message_loop_eq)
qed

section \<open>Safe callbacks\<close>

text \<open>\<open>safe_script\<close>: code of the application that returns; no use of the client reference after the
  callback disconnected that client or stopped its server (\<open>live\<close> is false from then on); and no
  stop of the server whose network thread runs the callback.\<close>

primrec safe_script :: "'w script \<Rightarrow> thread_id \<Rightarrow> nat \<Rightarrow> kb_connection_t \<Rightarrow> bool \<Rightarrow> bool" where
  "safe_script Return caller this conn live \<longleftrightarrow> True"
| "safe_script (Do f k) caller this conn live \<longleftrightarrow> well_behaved f \<and> (\<forall>e. safe_script (k e) caller this conn live)"
| "safe_script (Read_client k) caller this conn live \<longleftrightarrow> live \<and> (\<forall>c. safe_script (k c) caller this conn live)"
| "safe_script (Disconnect j c reason k) caller this conn live \<longleftrightarrow>
     safe_script k caller this conn (live \<and> (j \<noteq> this \<or> c \<noteq> conn))"
| "safe_script (Broadcast j bytes sz reliable k) caller this conn live \<longleftrightarrow> (\<forall>ok. safe_script (k ok) caller this conn live)"
| "safe_script (Stop j k) caller this conn live \<longleftrightarrow>
     caller \<noteq> Network_thread j \<and> safe_script k caller this conn (live \<and> j \<noteq> this)"

definition safe_scripts :: "thread_id \<Rightarrow> (nat \<Rightarrow> 'w server_scripts) \<Rightarrow> bool" where
  "safe_scripts caller P \<longleftrightarrow>
     (\<forall>i conn.
       (\<forall>s d. rs_on_data (P i) = Some s \<longrightarrow> safe_script (s d) caller i conn True) \<and>
       (\<forall>s. rs_on_connected (P i) = Some s \<longrightarrow> safe_script s caller i conn True) \<and>
       (\<forall>s. rs_on_disconnected (P i) = Some s \<longrightarrow> safe_script s caller i conn True))"

text \<open>The outcome of a step: it returns, and the invariant of the servers holds.\<close>

definition returns_ok :: "'w server_world result \<Rightarrow> bool" where
  "returns_ok r \<longleftrightarrow> (\<exists>w. r = Inr w \<and> world_ok w)"

lemma returns_okI [intro]: "world_ok w \<Longrightarrow> returns_ok (Inr w)"
  by (simp add: returns_ok_def)

lemma returns_ok_bind: "returns_ok r \<Longrightarrow> (\<And>w. world_ok w \<Longrightarrow> returns_ok (f w)) \<Longrightarrow> returns_ok (bind_result r f)"
  by (auto simp: returns_ok_def)

lemma world_ok_log: "neutral_call c \<Longrightarrow> world_ok w \<Longrightarrow> world_ok (server_log c w)"
  using world_ok_frame server_frame_log by blast

lemma stop_returns_ok:
  assumes "world_ok w" and "caller \<noteq> Network_thread j"
  obtains w' where "UdpServer_stop caller j w = Inr w'" and "world_ok w'" and "\<And>i. i \<noteq> j \<Longrightarrow> servers w' i = servers w i"
proof -
  obtain was w1 where b: "UdpServer_stop_begin j w = (was, w1)" by fastforce
  have w1: "world_ok w1" and off: "\<not> us_is_running (servers w1 j)"
    and same: "\<And>i. i \<noteq> j \<Longrightarrow> servers w1 i = servers w i"
    using stop_begin_world_ok [OF assms(1) b] b by (auto simp: stop_begin_eq)
  let ?w = "if us_network_thread (servers w1 j) then upd_server j (us_network_thread_update (\<lambda>_. False)) w1 else w1"
  have "world_ok (UdpServer_stop_finish j ?w)"
    using stop_finish_world_ok upd_thread_world_ok w1 off by (auto intro!: stop_finish_world_ok)
  moreover have "UdpServer_stop caller j w = Inr (if was then UdpServer_stop_finish j ?w else w1)"
    using assms(2) by (simp add: UdpServer_stop_def b)
  ultimately show thesis
    by (intro that [of "if was then UdpServer_stop_finish j ?w else w1"]) (simp_all add: w1 same)
qed

lemma run_script_returns_ok:
  "world_ok w \<Longrightarrow> safe_script s caller this conn live \<Longrightarrow> (live \<Longrightarrow> UdpServer_get_client_info this conn w \<noteq> None) \<Longrightarrow>
   returns_ok (run_script s st caller this conn w)"
proof (induction s arbitrary: w live)
  case (Do f k)
  from Do.prems(2) have f: "well_behaved f" and k: "safe_script (k e) caller this conn live" for e by simp_all
  obtain w1 where w1: "run_env f w = Inr w1" "server_frame w w1"
    using run_env_framed [OF f, of w] by (rule framedE)
  have "servers w1 = servers w" using w1(1) by (auto simp: run_env_def bind_result_eq_Inr)
  then have "returns_ok (run_script (k (senv w1)) st caller this conn w1)"
    using Do.prems k world_ok_frame [OF w1(2)]
    by (intro Do.IH [of "k (senv w1)" w1 live]) (simp_all add: UdpServer_get_client_info_def)
  with w1(1) show ?case by simp
next
  case (Read_client k)
  then obtain c where c: "UdpServer_get_client_info this conn w = Some c" by auto
  have "returns_ok (run_script (k c) st caller this conn w)"
    by (rule Read_client.IH [of "k c" w live]) (use Read_client.prems in auto)
  with c show ?case by simp
next
  case (Disconnect j c reason s)
  have "UdpServer_get_client_info this conn (UdpServer_disconnect j c reason w) = UdpServer_get_client_info this conn w"
    if "j \<noteq> this \<or> c \<noteq> conn"
    using that map_find_erase [of "us_clients (servers w this)" c conn] world_okD(1) [OF Disconnect.prems(1), of this]
    by (auto simp: UdpServer_get_client_info_def UdpServer_disconnect_def Let_def clients_ok_def)
  then show ?case
    using Disconnect.prems world_ok_frame [OF disconnect_frame]
    unfolding run_script.simps
    by (intro Disconnect.IH [where live = "live \<and> (j \<noteq> this \<or> c \<noteq> conn)"]) auto
next
  case (Broadcast j bytes sz reliable k)
  obtain ok w1 where b: "UdpServer_broadcast st j bytes sz reliable w = (ok, w1)" by fastforce
  have "servers w1 = servers w" using b by (auto simp: broadcast_eq Let_def)
  then have "returns_ok (run_script (k ok) st caller this conn w1)"
    using Broadcast.prems world_ok_frame [OF broadcast_frame [OF b]]
    by (intro Broadcast.IH [of "k ok" w1 live]) (auto simp: UdpServer_get_client_info_def)
  then show ?case by (simp add: b)
next
  case (Stop j s)
  then obtain w1 where w1: "UdpServer_stop caller j w = Inr w1" "world_ok w1" "\<And>i. i \<noteq> j \<Longrightarrow> servers w1 i = servers w i"
    using stop_returns_ok [of w caller j] by auto
  then show ?case
    using Stop.prems Stop.IH [of w1 "live \<and> j \<noteq> this"] by (auto simp: UdpServer_get_client_info_def)
qed auto

lemma reentrant_deliver_returns_ok:
  "world_ok w \<Longrightarrow> safe_scripts caller P \<Longrightarrow> returns_ok (reentrant_deliver st caller P this m w)"
  by (auto simp: reentrant_deliver_def safe_scripts_def split: option.split intro!: run_script_returns_ok [where live = True])

lemma reentrant_messages_returns_ok:
  "world_ok w \<Longrightarrow> safe_scripts caller P \<Longrightarrow> returns_ok (reentrant_messages st caller P this ms w)"
  by (induction ms arbitrary: w)
    (auto simp: world_ok_log intro!: returns_ok_bind reentrant_deliver_returns_ok)

lemma reentrant_on_closed_returns_ok:
  assumes "world_ok w" and "safe_scripts caller P"
  shows "returns_ok (reentrant_on_closed st caller P this ev w)"
  unfolding reentrant_on_closed_def Let_def
  by (intro returns_ok_bind)
    (use assms in \<open>auto simp: safe_scripts_def world_ok_log split: option.split intro!: run_script_returns_ok [where live = True]\<close>)

lemma add_client_found:
  "clients_ok (us_clients (servers w this)) \<Longrightarrow>
   UdpServer_get_client_info this conn (snd (UdpServer_add_client st this conn w)) \<noteq> None"
  by (simp add: UdpServer_get_client_info_def UdpServer_add_client_def Let_def clients_ok_def map_find_put)

lemma reentrant_on_connecting_returns_ok:
  assumes "world_ok w" and "safe_scripts caller P" and "addresses_ok st"
  shows "returns_ok (reentrant_on_connecting st caller P this ev w)"
proof -
  define conn where "conn = sc_hConn ev"
  define w1 where "w1 = server_log (AcceptConnection conn) w"
  define w2 where "w2 = server_log (SetConnectionPollGroup conn (us_poll_group (servers w1 this))) w1"
  define w3 where "w3 = snd (UdpServer_add_client st this conn w2)"
  have ok: "world_ok w1" "world_ok w2"
    using assms(1) by (simp_all add: w1_def w2_def world_ok_log)
  have ok3: "world_ok w3"
    unfolding w3_def by (rule world_ok_frame [OF add_client_frame [OF assms(3)] ok(2)])
  have "UdpServer_get_client_info this conn w3 \<noteq> None"
    unfolding w3_def by (rule add_client_found [OF world_okD(1) [OF ok(2)]])
  then have "rs_on_connected (P this) = Some s \<Longrightarrow> returns_ok (run_script s st caller this conn w3)" for s
    using assms(2) ok3 by (intro run_script_returns_ok [where live = True]) (auto simp: safe_scripts_def)
  then show ?thesis
    using ok ok3 by (auto simp: reentrant_on_connecting_def Let_def simp flip: conn_def w1_def w2_def w3_def
        split: option.split intro!: world_ok_log)
qed

lemma reentrant_dispatch_returns_ok:
  "world_ok w \<Longrightarrow> safe_scripts caller P \<Longrightarrow> addresses_ok st \<Longrightarrow> returns_ok (reentrant_dispatch st caller P evs w)"
  by (induction evs arbitrary: w)
    (auto simp: reentrant_on_connection_status_changed_def split: option.split steam_state.split
      intro!: returns_ok_bind reentrant_on_closed_returns_ok reentrant_on_connecting_returns_ok)

text \<open>
  C13: Callbacks that call back. A poll of a server whose poll group exists returns, and every server
  keeps its invariant, whatever Steam answers and whatever the callbacks of all the servers do with
  them, disconnects, broadcasts and stops of any server included, as long as no callback touches its
  client after it disconnected it or stopped its server, and none stops the server whose network
  thread runs it.
\<close>

theorem reentrant_poll_safe:
  assumes "steam_ok st" and "world_ok w" and "us_poll_group (servers w i) \<noteq> 0" and "safe_scripts caller P"
  shows "\<exists>w'. reentrant_poll st caller P i w = Inr w' \<and> world_ok w'"
proof -
  let ?pg = "us_poll_group (servers w i)"
  obtain n ms where recv: "receive_on_poll_group st (server_history w) ?pg k_message_count = (n, ms)"
    by fastforce
  have "?pg \<in> live_poll_groups (server_history w)" by (rule world_okD(3) [OF assms(2,3)])
  then have "n = int (length ms)" and "length ms \<le> 32"
    using assms(1) recv unfolding steam_ok_def messages_ok_def k_message_count_def by (metis fst_conv snd_conv)+
  then have "reentrant_poll st caller P i w =
    bind_result (reentrant_messages st caller P i ms (server_log (ReceiveMessagesOnPollGroup ?pg k_message_count) w)) (\<lambda>w.
      reentrant_dispatch st caller P (run_callbacks st (server_history w)) (server_log RunCallbacks w))"
    using recv by (intro reentrant_poll_eq) simp_all
  moreover have "returns_ok \<dots>"
    using assms by (intro returns_ok_bind reentrant_messages_returns_ok reentrant_dispatch_returns_ok world_ok_log)
      (simp_all add: steam_ok_def)
  ultimately show ?thesis by (simp add: returns_ok_def)
qed

section \<open>Callbacks that do not call back\<close>

text \<open>The callbacks of \<open>Udp_Server\<close> as scripts: read the client, run.\<close>

definition plain_script :: "(client_info_t \<Rightarrow> 'w env \<Rightarrow> 'w env result) \<Rightarrow> 'w script" where
  "plain_script f = Read_client (\<lambda>client. Do (f client) (\<lambda>_. Return))"

definition plain_scripts :: "'w udp_server \<Rightarrow> 'w server_scripts" where
  "plain_scripts s =
     \<lparr>rs_on_data = map_option (\<lambda>f d. plain_script (\<lambda>client. f client d)) (us_on_data s),
      rs_on_connected = map_option plain_script (us_on_connected s),
      rs_on_disconnected = map_option plain_script (us_on_disconnected s)\<rparr>"

lemma run_plain_script:
  "UdpServer_get_client_info this conn w = Some c \<Longrightarrow> run_script (plain_script f) st caller this conn w = run_env (f c) w"
  by (simp add: plain_script_def)

text \<open>The callbacks registered with each server, which no poll changes.\<close>

definition registered :: "(nat \<Rightarrow> 'w server_scripts) \<Rightarrow> 'w server_world \<Rightarrow> bool" where
  "registered P w \<longleftrightarrow> (\<forall>i. P i = plain_scripts (servers w i) \<and> clients_ok (us_clients (servers w i)))"

definition keeps_registered :: "(nat \<Rightarrow> 'w server_scripts) \<Rightarrow> 'w server_world result \<Rightarrow> bool" where
  "keeps_registered P r \<longleftrightarrow> (\<forall>w. r = Inr w \<longrightarrow> registered P w)"

lemma keeps_registered_bind:
  "keeps_registered P r \<Longrightarrow> (\<And>w. registered P w \<Longrightarrow> keeps_registered P (f w)) \<Longrightarrow> keeps_registered P (bind_result r f)"
  by (auto simp: keeps_registered_def bind_result_eq_Inr)

lemma registered_simps [simp]:
  "registered P (server_log c w) \<longleftrightarrow> registered P w"
  "registered P (w\<lparr>senv := e\<rparr>) \<longleftrightarrow> registered P w"
  "keeps_registered P (Inr w) \<longleftrightarrow> registered P w"
  by (simp_all add: registered_def keeps_registered_def)

lemma registered_run_env [simp]: "registered P w \<Longrightarrow> keeps_registered P (run_env f w)"
  by (auto simp: keeps_registered_def run_env_def bind_result_eq_Inr)

lemma plain_scripts_fields:
  "rs_on_data (plain_scripts s) = map_option (\<lambda>f d. plain_script (\<lambda>client. f client d)) (us_on_data s)"
  "rs_on_connected (plain_scripts s) = map_option plain_script (us_on_connected s)"
  "rs_on_disconnected (plain_scripts s) = map_option plain_script (us_on_disconnected s)"
  by (simp_all add: plain_scripts_def)

lemma registeredD: "registered P w \<Longrightarrow> P i = plain_scripts (servers w i)"
  by (simp add: registered_def)

lemma bind_result_cong:
  "r = r' \<Longrightarrow> (\<And>x. r = Inr x \<Longrightarrow> f x = g x) \<Longrightarrow> bind_result r f = bind_result r' g"
  by (cases r) auto

lemma plain_deliver:
  assumes "registered P w"
  shows "reentrant_deliver st caller P this m w = UdpServer_deliver this m w"
    and "keeps_registered P (UdpServer_deliver this m w)"
  using assms
  by (auto simp: reentrant_deliver_def UdpServer_deliver_def registeredD plain_scripts_fields run_plain_script
      split: option.split)

lemma plain_messages:
  "registered P w \<Longrightarrow> reentrant_messages st caller P this ms w = deliver_messages this ms w \<and>
    keeps_registered P (deliver_messages this ms w)"
proof (induction ms arbitrary: w)
  case (Cons m ms)
  have kept: "keeps_registered P (UdpServer_deliver this m w)" by (rule plain_deliver(2) [OF Cons.prems])
  have "reentrant_messages st caller P this (m # ms) w = deliver_messages this (m # ms) w"
    using kept Cons.IH
    by (auto simp: plain_deliver(1) [OF Cons.prems] keeps_registered_def intro!: bind_result_cong)
  moreover have "keeps_registered P (deliver_messages this (m # ms) w)"
    unfolding deliver_messages.simps
    by (rule keeps_registered_bind [OF kept]) (simp add: Cons.IH)
  ultimately show ?case by blast
qed simp

lemma plain_on_closed:
  assumes "registered P w"
  shows "reentrant_on_closed st caller P this ev w = UdpServer_on_closed this ev w"
    and "keeps_registered P (UdpServer_on_closed this ev w)"
proof -
  show "reentrant_on_closed st caller P this ev w = UdpServer_on_closed this ev w"
    using assms
    by (auto simp: reentrant_on_closed_def UdpServer_on_closed_def Let_def registeredD plain_scripts_fields
        run_plain_script split: option.split)
  show "keeps_registered P (UdpServer_on_closed this ev w)"
    unfolding UdpServer_on_closed_def Let_def using assms
    by (intro keeps_registered_bind) (auto split: option.split)
qed

lemma registered_add_client:
  assumes "registered P w" and "addresses_ok st"
  shows "registered P (snd (UdpServer_add_client st this conn w))"
proof -
  have "clients_ok (us_clients (servers (snd (UdpServer_add_client st this conn w)) i))" for i
    using add_client_frame [OF assms(2), of w this conn] assms(1)
    unfolding server_frame_def registered_def by blast
  then show ?thesis
    using assms(1) by (auto simp: registered_def UdpServer_add_client_def Let_def plain_scripts_def)
qed

lemma add_client_entry:
  "clients_ok (us_clients (servers w this)) \<Longrightarrow> UdpServer_add_client st this conn w = (c, w') \<Longrightarrow>
   UdpServer_get_client_info this conn w' = Some c"
  by (auto simp: UdpServer_get_client_info_def UdpServer_add_client_def Let_def clients_ok_def map_find_put)

lemma plain_on_connecting:
  assumes "registered P w" and "addresses_ok st"
  shows "reentrant_on_connecting st caller P this ev w = UdpServer_on_connecting st this ev w"
    and "keeps_registered P (UdpServer_on_connecting st this ev w)"
proof -
  define conn where "conn = sc_hConn ev"
  define w1 where "w1 = server_log (AcceptConnection conn) w"
  define w2 where "w2 = server_log (SetConnectionPollGroup conn (us_poll_group (servers w1 this))) w1"
  obtain c w3 where add: "UdpServer_add_client st this conn w2 = (c, w3)" by fastforce
  have reg: "registered P w2" using assms(1) by (simp add: w2_def w1_def)
  then have "registered P w3" and "UdpServer_get_client_info this conn w3 = Some c"
    using registered_add_client [OF reg assms(2), of this conn] add_client_entry [OF _ add]
    by (simp_all add: add registered_def)
  note this [simp]
  have notify: "(case rs_on_connected (P this) of None \<Rightarrow> Inr w3 | Some f \<Rightarrow> run_script f st caller this conn w3) =
      UdpServer_notify_connected this (c, w3)"
    by (simp add: UdpServer_notify_connected_def registeredD [of P w3] plain_scripts_fields run_plain_script
        split: option.split)
  have "keeps_registered P (UdpServer_notify_connected this (c, w3))"
    by (simp add: UdpServer_notify_connected_def split: option.split)
  then show "reentrant_on_connecting st caller P this ev w = UdpServer_on_connecting st this ev w"
    and "keeps_registered P (UdpServer_on_connecting st this ev w)"
    using reg assms(1)
    by (simp_all add: reentrant_on_connecting_def UdpServer_on_connecting_def Let_def notify add
        flip: conn_def w1_def w2_def) (simp add: w1_def)
qed

lemma plain_dispatch:
  assumes "registered P w" and "addresses_ok st"
  shows "reentrant_dispatch st caller P evs w = server_dispatch st evs w"
  using assms(1)
proof (induction evs arbitrary: w)
  case (Cons ev evs)
  let ?r = "UdpServer_connection_status_changed_callback st ev w"
  have "(case server_instance w of None \<Rightarrow> Inr w
      | Some this \<Rightarrow> reentrant_on_connection_status_changed st caller P this ev w) = ?r"
    using Cons.prems assms(2)
    by (auto simp: UdpServer_connection_status_changed_callback_def reentrant_on_connection_status_changed_def
        UdpServer_on_connection_status_changed_def plain_on_closed plain_on_connecting
        split: option.split steam_state.split)
  moreover have "keeps_registered P ?r"
    using Cons.prems assms(2)
    by (auto simp: UdpServer_connection_status_changed_callback_def UdpServer_on_connection_status_changed_def
        plain_on_closed plain_on_connecting split: option.split steam_state.split)
  ultimately show ?case
    using Cons.IH by (auto simp: keeps_registered_def intro!: bind_result_cong)
qed simp

text \<open>
  The model of \<open>Udp_Server\<close> is the case of callbacks that do not call back into a server. With
  each server's registered functions as scripts, a poll has the same outcome in both, faults of the
  callbacks included, on any thread.
\<close>

lemma reentrant_poll_plain:
  assumes "steam_ok st" and "world_ok w" and "us_poll_group (servers w i) \<noteq> 0"
  shows "reentrant_poll st caller (\<lambda>j. plain_scripts (servers w j)) i w = UdpServer_poll st i w"
proof -
  let ?P = "\<lambda>j. plain_scripts (servers w j)" and ?pg = "us_poll_group (servers w i)"
  obtain n ms where recv: "receive_on_poll_group st (server_history w) ?pg k_message_count = (n, ms)"
    by fastforce
  have "?pg \<in> live_poll_groups (server_history w)" by (rule world_okD(3) [OF assms(2,3)])
  then have n: "n = int (length ms)" "length ms \<le> 32"
    using assms(1) recv unfolding steam_ok_def messages_ok_def k_message_count_def by (metis fst_conv snd_conv)+
  have reg: "registered ?P (server_log c w)" for c
    using world_okD(1) [OF assms(2)] by (simp add: registered_def)
  have count: "u32_count n = length ms" using n by simp
  have "addresses_ok st" using assms(1) by (simp add: steam_ok_def)
  then show ?thesis
    using recv n plain_messages [OF reg, of st caller i ms "ReceiveMessagesOnPollGroup ?pg k_message_count"]
    by (auto simp: reentrant_poll_def UdpServer_poll_def Let_def count server_message_loop_eq reentrant_message_loop_eq
        keeps_registered_def plain_dispatch intro!: bind_result_cong)
qed

section \<open>Disconnecting a client from its own callback\<close>

text \<open>A data callback that hands every message to the application and then disconnects the sender of a
  bad one.\<close>

definition kick_script ::
  "nat \<Rightarrow> (client_info_t \<Rightarrow> u8 list \<Rightarrow> 'w \<Rightarrow> 'w) \<Rightarrow> (u8 list \<Rightarrow> bool) \<Rightarrow> i32 \<Rightarrow> u8 list \<Rightarrow> 'w script" where
  "kick_script this f bad reason d =
     Read_client (\<lambda>client. Do (\<lambda>e. Inr (e\<lparr>app := f client d (app e)\<rparr>)) (\<lambda>_.
       if bad d then Disconnect this (ci_conn client) reason Return else Return))"

text \<open>The messages of known clients up to and including the first bad one of each.\<close>

fun admitted :: "(kb_connection_t \<Rightarrow> bool) \<Rightarrow> (u8 list \<Rightarrow> bool) \<Rightarrow> steam_message list \<Rightarrow> steam_message list" where
  "admitted known bad [] = []"
| "admitted known bad (m # ms) =
     (if known (sm_conn m)
      then m # admitted (if bad (sm_data m) then known(sm_conn m := False) else known) bad ms
      else admitted known bad ms)"

definition give ::
  "(client_info_t \<Rightarrow> u8 list \<Rightarrow> 'w \<Rightarrow> 'w) \<Rightarrow> (kb_connection_t, client_info_t) std_map \<Rightarrow> steam_message \<Rightarrow> 'w \<Rightarrow> 'w" where
  "give f clients m a = (case map_find clients (sm_conn m) of None \<Rightarrow> a | Some c \<Rightarrow> f c (sm_data m) a)"

definition own_keys :: "(kb_connection_t, client_info_t) std_map \<Rightarrow> bool" where
  "own_keys clients \<longleftrightarrow> map_ok clients \<and> (\<forall>k c. map_find clients k = Some c \<longrightarrow> ci_conn c = k)"

lemma admitted_known: "m \<in> set (admitted known bad ms) \<Longrightarrow> known (sm_conn m)"
  by (induction known bad ms rule: admitted.induct) (auto split: if_splits)

lemma map_keys_erase: "map_ok m \<Longrightarrow> map_keys (map_erase m k) = filter (\<lambda>c. c \<noteq> k) (map_keys m)"
proof (induction m k rule: map_erase.induct)
  case (2 l v m k)
  have "filter (\<lambda>c. c \<noteq> l) (map_keys m) = map_keys m"
    by (rule filter_True) (use 2(2) in \<open>auto simp: map_ok_def\<close>)
  with 2 show ?case by (auto simp: map_ok_def)
qed simp

lemma map_erase_absent: "map_find m k = None \<Longrightarrow> map_erase m k = m"
  by (induction m k rule: map_erase.induct) (auto split: if_splits)

lemma own_keys_erase: "own_keys m \<Longrightarrow> own_keys (map_erase m k)"
  by (auto simp: own_keys_def map_ok_erase map_find_erase split: if_splits)

lemma kick_deliver:
  assumes "rs_on_data (P i) = Some (kick_script i f bad reason)" and "own_keys (us_clients (servers w i))"
  obtains w1 where "reentrant_deliver st caller P i m w = Inr w1"
    and "app (senv w1) = give f (us_clients (servers w i)) m (app (senv w))"
    and "us_clients (servers w1 i) =
      (if bad (sm_data m) then map_erase (us_clients (servers w i)) (sm_conn m) else us_clients (servers w i))"
proof (cases "map_find (us_clients (servers w i)) (sm_conn m)")
  case None
  then have "map_erase (us_clients (servers w i)) (sm_conn m) = us_clients (servers w i)"
    by (rule map_erase_absent)
  with None show thesis
    by (intro that [of w]) (simp_all add: reentrant_deliver_def assms(1) UdpServer_get_client_info_def give_def)
next
  case (Some c)
  have conn: "ci_conn c = sm_conn m" using assms(2) Some by (simp add: own_keys_def)
  define w1 where "w1 = w\<lparr>senv := (senv w)\<lparr>app := f c (sm_data m) (app (senv w))\<rparr>\<rparr>"
  show thesis
    by (rule that [of "if bad (sm_data m) then UdpServer_disconnect i (sm_conn m) reason w1 else w1"])
      (use Some in \<open>simp_all add: reentrant_deliver_def assms(1) UdpServer_get_client_info_def give_def kick_script_def
        run_env_def conn w1_def UdpServer_disconnect_def Let_def\<close>)
qed

lemma kick_messages:
  assumes "rs_on_data (P i) = Some (kick_script i f bad reason)"
  shows "own_keys (us_clients (servers w i)) \<Longrightarrow>
    \<exists>w'. reentrant_messages st caller P i ms w = Inr w' \<and>
      app (senv w') = fold (give f (us_clients (servers w i)))
        (admitted (\<lambda>c. c \<in> set (map_keys (us_clients (servers w i)))) bad ms) (app (senv w)) \<and>
      map_keys (us_clients (servers w' i)) =
        filter (\<lambda>c. \<not> list_ex (\<lambda>m. sm_conn m = c \<and> bad (sm_data m)) ms) (map_keys (us_clients (servers w i)))"
proof (induction ms arbitrary: w)
  case (Cons m ms)
  let ?cl = "us_clients (servers w i)" and ?c = "sm_conn m"
  obtain w1 where w1: "reentrant_deliver st caller P i m w = Inr w1" "app (senv w1) = give f ?cl m (app (senv w))"
    "us_clients (servers w1 i) = (if bad (sm_data m) then map_erase ?cl ?c else ?cl)"
    by (rule kick_deliver [where P = P and i = i and w = w and m = m and st = st and caller = caller, OF assms Cons.prems])
  let ?w = "server_log (ReleaseMessage m) w1" and ?cl1 = "us_clients (servers w1 i)"
  have ok: "map_ok ?cl" using Cons.prems by (simp add: own_keys_def)
  have own: "own_keys (us_clients (servers ?w i))"
    using Cons.prems by (simp add: w1(3) own_keys_erase)
  have keys: "map_keys ?cl1 = (if bad (sm_data m) then filter (\<lambda>c. c \<noteq> ?c) (map_keys ?cl) else map_keys ?cl)"
    by (simp add: w1(3) map_keys_erase ok)
  obtain w' where w': "reentrant_messages st caller P i ms ?w = Inr w'"
    "app (senv w') = fold (give f ?cl1) (admitted (\<lambda>c. c \<in> set (map_keys ?cl1)) bad ms) (app (senv w1))"
    "map_keys (us_clients (servers w' i)) =
      filter (\<lambda>c. \<not> list_ex (\<lambda>m. sm_conn m = c \<and> bad (sm_data m)) ms) (map_keys ?cl1)"
    using Cons.IH [OF own] by auto
  have "give f ?cl1 m' = give f ?cl m'" if "sm_conn m' \<in> set (map_keys ?cl1)" for m'
    using that by (auto simp: give_def w1(3) map_find_erase ok fun_eq_iff map_keys_erase split: option.split if_splits)
  then have "fold (give f ?cl1) (admitted (\<lambda>c. c \<in> set (map_keys ?cl1)) bad ms) a =
      fold (give f ?cl) (admitted (\<lambda>c. c \<in> set (map_keys ?cl1)) bad ms) a" for a
    by (intro fold_cong) (auto dest: admitted_known)
  moreover have "give f ?cl m a = a" if "?c \<notin> set (map_keys ?cl)" for a
    using that by (simp add: give_def map_find_notin)
  moreover have "(\<lambda>c. c \<in> set (map_keys ?cl1)) =
      (if bad (sm_data m) then (\<lambda>c. c \<in> set (map_keys ?cl))(?c := False) else (\<lambda>c. c \<in> set (map_keys ?cl)))"
    by (auto simp: keys fun_eq_iff)
  moreover have "(\<lambda>c. c \<in> set (map_keys ?cl))(?c := False) = (\<lambda>c. c \<in> set (map_keys ?cl))" if "?c \<notin> set (map_keys ?cl)"
    using that by (auto simp: fun_eq_iff)
  ultimately have "app (senv w') = fold (give f ?cl) (admitted (\<lambda>c. c \<in> set (map_keys ?cl)) bad (m # ms)) (app (senv w))"
    using w'(2) w1(2) by (auto split: if_splits)
  moreover have "map_keys (us_clients (servers w' i)) =
      filter (\<lambda>c. \<not> list_ex (\<lambda>m. sm_conn m = c \<and> bad (sm_data m)) (m # ms)) (map_keys ?cl)"
    unfolding w'(3) keys by (auto simp: conj_commute intro!: filter_cong)
  ultimately show ?case using w1(1) w'(1) by auto
qed simp

lemma kick_script_safe: "safe_script (kick_script i f bad reason d) caller i c True"
  by (simp add: kick_script_def well_behaved_def env_frame_def)

text \<open>
  C30: A data callback that disconnects the sender of a bad message, from inside the callback. In a
  poll without connection events it returns; the application gets, in order, the messages of known
  clients up to and including the first bad one of each, and none that the disconnected client still
  had in the same batch; and exactly the clients without a bad message stay connected.
\<close>

theorem reentrant_kick_delivers:
  assumes "rs_on_data (P i) = Some (kick_script i f bad reason)"
    and "own_keys (us_clients (servers w i))" and "\<And>h. run_callbacks st h = []"
    and "receive_on_poll_group st (server_history w) (us_poll_group (servers w i)) k_message_count = (int (length ms), ms)"
    and "length ms \<le> 32"
  shows "\<exists>w'. reentrant_poll st caller P i w = Inr w' \<and>
    app (senv w') = fold (give f (us_clients (servers w i)))
      (admitted (\<lambda>c. c \<in> set (map_keys (us_clients (servers w i)))) bad ms) (app (senv w)) \<and>
    map_keys (us_clients (servers w' i)) =
      filter (\<lambda>c. \<not> list_ex (\<lambda>m. sm_conn m = c \<and> bad (sm_data m)) ms) (map_keys (us_clients (servers w i)))"
proof -
  let ?w = "server_log (ReceiveMessagesOnPollGroup (us_poll_group (servers w i)) k_message_count) w"
  have "own_keys (us_clients (servers ?w i))" using assms(2) by simp
  then obtain w' where "reentrant_messages st caller P i ms ?w = Inr w'"
    "app (senv w') = fold (give f (us_clients (servers w i)))
      (admitted (\<lambda>c. c \<in> set (map_keys (us_clients (servers w i)))) bad ms) (app (senv w))"
    "map_keys (us_clients (servers w' i)) =
      filter (\<lambda>c. \<not> list_ex (\<lambda>m. sm_conn m = c \<and> bad (sm_data m)) ms) (map_keys (us_clients (servers w i)))"
    using kick_messages [where P = P and i = i and w = ?w and ms = ms and st = st and caller = caller, OF assms(1)] by auto
  then show ?thesis
    by (intro exI [of _ "server_log RunCallbacks w'"]) (simp add: reentrant_poll_eq [OF assms(4,5)] assms(3))
qed

text \<open>Two clients and three messages: the first client's second message comes after its bad one.\<close>

definition kick_steam :: steam_api where
  "kick_steam = sample_steam [\<lparr>sm_conn = 5, sm_data = [0]\<rparr>, \<lparr>sm_conn = 5, sm_data = [1, 2]\<rparr>, \<lparr>sm_conn = 7, sm_data = [3, 4, 5]\<rparr>] []"

definition kick_callbacks :: "nat \<Rightarrow> nat server_scripts" where
  "kick_callbacks i =
     \<lparr>rs_on_data = Some (kick_script i (\<lambda>c d n. n + length d) (\<lambda>d. d = [0]) 0),
      rs_on_connected = None, rs_on_disconnected = None\<rparr>"

theorem reentrant_kick_delivers_witness:
  "\<exists>w'. reentrant_poll kick_steam (Network_thread 0) kick_callbacks 0 sample_world = Inr w' \<and> app (senv w') = 4 \<and>
    map_keys (us_clients (servers w' 0)) = [7]"
proof -
  let ?ms = "[\<lparr>sm_conn = 5, sm_data = [0]\<rparr>, \<lparr>sm_conn = 5, sm_data = [1, 2]\<rparr>, \<lparr>sm_conn = 7, sm_data = [3, 4, 5]\<rparr>]"
  have cb: "rs_on_data (kick_callbacks 0) = Some (kick_script 0 (\<lambda>c d n. n + length d) (\<lambda>d. d = [0]) 0)"
    by (simp add: kick_callbacks_def)
  have own: "own_keys (us_clients (servers sample_world 0))"
    by (simp add: own_keys_def sample_fields map_ok_def sample_client_def)
  have none: "\<And>h. run_callbacks kick_steam h = []" by (simp add: kick_steam_def sample_steam_simps first_time_def)
  have recv: "receive_on_poll_group kick_steam (server_history sample_world) (us_poll_group (servers sample_world 0))
      k_message_count = (int (length ?ms), ?ms)"
    by (simp add: kick_steam_def sample_steam_simps sample_history sample_fields first_time_def k_message_count_def)
  show ?thesis
    using reentrant_kick_delivers [where P = kick_callbacks and w = sample_world and ms = ?ms and caller = "Network_thread 0", OF cb own none recv]
    by (simp add: sample_fields give_def fun_upd_def numeral_eq_Suc)
qed

section \<open>Witnesses\<close>

lemma kick_callbacks_safe: "safe_scripts caller kick_callbacks"
  by (simp add: safe_scripts_def kick_callbacks_def kick_script_safe)

lemma started_world_ok: "world_ok started_world"
proof -
  have "system_ok started_system" by (rule reachable_system_ok [OF sample_steam_ok started_reachable])
  then show ?thesis by (simp add: system_ok_def started_system_def)
qed

lemma started_group: "us_poll_group (servers started_world 0) \<noteq> 0"
  by (simp add: started_world_def)

theorem reentrant_poll_safe_witness:
  "\<exists>w'. reentrant_poll kick_steam (Network_thread 0) kick_callbacks 0 started_world = Inr w' \<and> world_ok w'"
proof -
  have "steam_ok kick_steam" by (simp add: kick_steam_def sample_steam_ok)
  from reentrant_poll_safe [OF this started_world_ok started_group kick_callbacks_safe] show ?thesis .
qed

lemma reentrant_poll_plain_witness:
  "\<exists>w'. reentrant_poll (sample_steam [] []) App_thread (\<lambda>j. plain_scripts (servers started_world j)) 0 started_world = Inr w' \<and>
    world_ok w'"
proof -
  have "world_ok started_world" and "\<And>i. callbacks_ok (servers started_world i)"
    using started_world_ok world_okD(2) by blast+
  then obtain w' where "UdpServer_poll (sample_steam [] []) 0 started_world = Inr w'" and "world_ok w'"
    using poll_frame [OF sample_steam_ok, of started_world 0] world_ok_frame started_group by metis
  then show ?thesis
    using reentrant_poll_plain [OF sample_steam_ok started_world_ok started_group] by simp
qed

section \<open>Callbacks that are not safe\<close>

text \<open>
  The limits of \<open>safe_script\<close> are real, in every state that keeps the invariant. A callback that
  reads its client after disconnecting it reads freed memory; so does one that reads it after it
  stopped its server in a manual poll; and one that stops its server on that server's own network
  thread terminates the process, for the thread joins itself.
\<close>

lemma reentrant_misuse_faults:
  assumes "world_ok w" and "us_is_running (servers w i)"
  shows "run_script (Disconnect i conn reason (Read_client k)) st caller i conn w = Inl Use_after_free \<and>
    run_script (Stop i (Read_client k)) st App_thread i conn w = Inl Use_after_free \<and>
    (us_network_thread (servers w i) \<longrightarrow>
      run_script (Stop i s) st (Network_thread i) i conn w = Inl Terminate)"
proof -
  have "map_ok (us_clients (servers w i))" using world_okD(1) [OF assms(1)] by (simp add: clients_ok_def)
  then show ?thesis
    using assms(2)
    by (simp add: UdpServer_get_client_info_def UdpServer_disconnect_def Let_def map_find_erase
        UdpServer_stop_def UdpServer_stop_begin_def stopped_def)
qed

lemma reentrant_misuse_faults_witness:
  "run_script (Stop 0 Return) (sample_steam [] []) (Network_thread 0) 0 5 started_world = Inl Terminate"
proof -
  have "us_is_running (servers started_world 0)" and "us_network_thread (servers started_world 0)"
    by (simp_all add: started_world_def)
  with reentrant_misuse_faults [OF started_world_ok this(1)] show ?thesis by blast
qed

end
