(* ===== verification/Reentrant_Client.thy ===== *)
theory Reentrant_Client
  imports Client_Properties
begin

text \<open>
  \<^verbatim>\<open>UdpClient::poll\<close> (\<^verbatim>\<open>src/src/kb/net/udp/client/udp_client.cpp\<close>) with a data callback that calls back
  into the client, as the handlers of the README do to answer: it may send, read the status and stop
  the client while the loop over the received messages goes on. \<open>Udp_Client\<close> is the special case in
  which the callback acts on the world outside only.
\<close>

section \<open>The callback as a script\<close>

datatype 'w client_script =
    Client_return
  | Client_do "'w env \<Rightarrow> 'w env result" "'w env \<Rightarrow> 'w client_script"
  | Client_status "connection_status_t \<Rightarrow> 'w client_script"
  | Client_send "u8 list" nat bool "bool \<Rightarrow> 'w client_script"
  | Client_stop "'w client_script"

primrec run_client_script ::
  "'w client_script \<Rightarrow> steam_api \<Rightarrow> client_thread \<Rightarrow> nat \<Rightarrow> 'w client_world \<Rightarrow> 'w client_world result" where
  "run_client_script Client_return st caller this w = Inr w"
| "run_client_script (Client_do f k) st caller this w =
     bind_result (f (cenv w)) (\<lambda>e. run_client_script (k e) st caller this (w\<lparr>cenv := e\<rparr>))"
| "run_client_script (Client_status k) st caller this w =
     run_client_script (k (UdpClient_get_connection_status this w)) st caller this w"
| "run_client_script (Client_send bytes len reliable k) st caller this w =
     run_client_script (k (fst (UdpClient_send_raw st this bytes len reliable w))) st caller this
       (snd (UdpClient_send_raw st this bytes len reliable w))"
| "run_client_script (Client_stop k) st caller this w =
     bind_result (UdpClient_stop caller this w) (\<lambda>w. run_client_script k st caller this w)"

section \<open>Polling\<close>

text \<open>\<^verbatim>\<open>m_conn\<close> is read again for every message.\<close>

definition reentrant_client_deliver ::
  "steam_api \<Rightarrow> client_thread \<Rightarrow> (incoming_view_message_t \<Rightarrow> 'w client_script) \<Rightarrow> nat \<Rightarrow> steam_message \<Rightarrow>
   'w client_world \<Rightarrow> 'w client_world result" where
  "reentrant_client_deliver st caller callback this steam_message w =
     run_client_script (callback \<lparr>msg_conn = uc_conn (udp_clients w this), msg_buffer = sm_data steam_message\<rparr>)
       st caller this w"

definition reentrant_poll_messages ::
  "steam_api \<Rightarrow> client_thread \<Rightarrow> (incoming_view_message_t \<Rightarrow> 'w client_script) option \<Rightarrow> nat \<Rightarrow>
   'w client_world \<Rightarrow> 'w client_world result" where
  "reentrant_poll_messages st caller on_data this w =
     (let conn = uc_conn (udp_clients w this) in
      if \<not> uc_interface (udp_clients w this) \<or> conn = k_invalid_connection then Inr w
      else
        let (n, messages) = receive_on_connection st (client_history w) conn k_default_poll_message_count;
            message_count = size_count n;
            w = client_log (ReceiveMessagesOnConnection conn k_default_poll_message_count) w in
        bind_result
          (case on_data of
             None \<Rightarrow> Inr w
           | Some callback \<Rightarrow>
               client_message_loop (reentrant_client_deliver st caller callback this) message_count messages 0 w)
          (client_message_loop client_release message_count messages 0))"

definition reentrant_client_poll ::
  "steam_api \<Rightarrow> client_thread \<Rightarrow> (incoming_view_message_t \<Rightarrow> 'w client_script) option \<Rightarrow> nat \<Rightarrow>
   'w client_world \<Rightarrow> 'w client_world result" where
  "reentrant_client_poll st caller on_data this w =
     (if \<not> uc_running (udp_clients w this) then Inr w
      else bind_result (reentrant_poll_messages st caller on_data this w) (\<lambda>w.
        if uc_interface (udp_clients w this)
        then client_dispatch (run_callbacks st (client_history w)) (client_log RunCallbacks w)
        else Inr w))"

text \<open>A receive that returns the messages \<open>ms\<close>.\<close>

lemma reentrant_poll_messages_eq:
  assumes "uc_interface (udp_clients w i)" and "connection_messages_ok st"
    and "uc_conn (udp_clients w i) \<in> live_connections (client_history w)"
    and "snd (receive_on_connection st (client_history w) (uc_conn (udp_clients w i)) 16) = ms"
  shows "reentrant_poll_messages st caller on_data i w =
    bind_result
      (case on_data of
         None \<Rightarrow> Inr (client_log (ReceiveMessagesOnConnection (uc_conn (udp_clients w i)) 16) w)
       | Some f \<Rightarrow> each_message (reentrant_client_deliver st caller f i) ms
           (client_log (ReceiveMessagesOnConnection (uc_conn (udp_clients w i)) 16) w))
      (each_message client_release ms)"
proof -
  let ?conn = "uc_conn (udp_clients w i)"
  have n: "receive_on_connection st (client_history w) ?conn 16 = (int (length ms), ms)" and le: "length ms \<le> 16"
    using assms(2-4) unfolding connection_messages_ok_def by (metis prod.collapse)+
  have count: "size_count (int (length ms)) = length ms" using le by simp
  have loop: "client_message_loop step (length ms) ms 0 v = each_message step ms v"
    for step :: "_ \<Rightarrow> _ \<Rightarrow> 'a client_world result" and v
    using client_message_loop_eq [of "length ms" ms 0 step v] by simp
  have rel: "client_message_loop client_release (length ms) ms 0 = (each_message client_release ms :: 'a client_world \<Rightarrow> _)"
    by (rule ext) (rule loop)
  have "?conn \<noteq> 0" using assms(3) by auto
  then show ?thesis
    using assms(1) n count
    by (simp add: reentrant_poll_messages_def Let_def k_default_poll_message_count_def handle_defs rel loop
        cong: option.case_cong)
qed

section \<open>Safe callbacks\<close>

text \<open>Code of the application that returns and opens or closes no connection itself, and no stop on the
  network thread.\<close>

primrec safe_client_script :: "'w client_script \<Rightarrow> client_thread \<Rightarrow> nat \<Rightarrow> bool" where
  "safe_client_script Client_return caller this \<longleftrightarrow> True"
| "safe_client_script (Client_do f k) caller this \<longleftrightarrow> quiet f \<and> (\<forall>e. safe_client_script (k e) caller this)"
| "safe_client_script (Client_status k) caller this \<longleftrightarrow> (\<forall>s. safe_client_script (k s) caller this)"
| "safe_client_script (Client_send bytes len reliable k) caller this \<longleftrightarrow> (\<forall>ok. safe_client_script (k ok) caller this)"
| "safe_client_script (Client_stop k) caller this \<longleftrightarrow> caller \<noteq> Client_network this \<and> safe_client_script k caller this"

definition client_returns_ok :: "nat \<Rightarrow> 'w client_world result \<Rightarrow> bool" where
  "client_returns_ok i r \<longleftrightarrow> (\<exists>w. r = Inr w \<and> client_world_ok i w)"

lemma client_returns_okI [intro]: "client_world_ok i w \<Longrightarrow> client_returns_ok i (Inr w)"
  by (simp add: client_returns_ok_def)

lemma client_returns_ok_bind:
  "client_returns_ok i r \<Longrightarrow> (\<And>w. client_world_ok i w \<Longrightarrow> client_returns_ok i (f w)) \<Longrightarrow> client_returns_ok i (bind_result r f)"
  by (auto simp: client_returns_ok_def)

lemma client_stop_returns_ok:
  assumes "client_world_ok i w" and "caller \<noteq> Client_network i"
  shows "client_returns_ok i (UdpClient_stop caller i w)"
proof -
  let ?w = "upd_client i (uc_running_update (\<lambda>_. False)) (w\<lparr>client_instance := None\<rparr>)"
  have "client_world_ok i ?w" and "client_world_ok i (upd_client i (uc_network_thread_update (\<lambda>_. False)) ?w)"
    using assms(1) by (simp_all add: client_world_ok_def)
  then show ?thesis
    using assms(2)
    by (auto simp: UdpClient_stop_def UdpClient_stop_begin_def split: bool.split intro!: client_stop_finish_ok)
qed

lemma send_raw_same: "same_but_env w (snd (UdpClient_send_raw st i bytes len reliable w))"
  by (simp add: UdpClient_send_raw_def Let_def same_but_env_def)

lemma run_client_script_returns_ok:
  "client_world_ok i w \<Longrightarrow> safe_client_script s caller i \<Longrightarrow> client_returns_ok i (run_client_script s st caller i w)"
proof (induction s arbitrary: w)
  case (Client_do f k)
  then have "quiet f" by simp
  then obtain e where e: "f (cenv w) = Inr e" "live_connections (calls e) = live_connections (calls (cenv w))"
    unfolding quiet_def by blast
  have "client_world_ok i (w\<lparr>cenv := e\<rparr>)"
    by (rule client_world_ok_same [OF _ Client_do.prems(1)]) (simp add: same_but_env_def client_history_def e(2))
  then have "client_returns_ok i (run_client_script (k e) st caller i (w\<lparr>cenv := e\<rparr>))"
    by (intro Client_do.IH [of "k e"]) (use Client_do.prems in auto)
  with e(1) show ?case by simp
next
  case (Client_send bytes len reliable k)
  let ?r = "UdpClient_send_raw st i bytes len reliable w"
  have "client_returns_ok i (run_client_script (k (fst ?r)) st caller i (snd ?r))"
    by (intro Client_send.IH [of "k (fst ?r)"] client_world_ok_same [OF send_raw_same Client_send.prems(1)])
      (use Client_send.prems in auto)
  then show ?case by simp
next
  case (Client_stop s)
  then show ?case
    by (simp only: run_client_script.simps safe_client_script.simps)
      (intro client_returns_ok_bind client_stop_returns_ok; simp)
qed auto

lemma each_message_returns_ok:
  assumes "\<And>m w. client_world_ok i w \<Longrightarrow> client_returns_ok i (step m w)"
  shows "client_world_ok i w \<Longrightarrow> client_returns_ok i (each_message step ms w)"
  by (induction ms arbitrary: w) (auto intro: client_returns_ok_bind assms)

lemma client_release_returns_ok: "client_world_ok i w \<Longrightarrow> client_returns_ok i (client_release m w)"
  by (auto simp: client_release_def client_world_ok_def)

text \<open>
  C14: A client whose data callback calls back. A poll returns and keeps the invariant, that the client's
  handle exists in Steam and a running client has one, whatever events Steam delivers and whatever the
  callback sends or reads, and also when it stops the client from a manual poll; only a stop on the client's own network
  thread is excluded.
\<close>

theorem reentrant_client_poll_safe:
  assumes "connection_messages_ok st" and "client_world_ok i w"
    and "\<And>f m. on_data = Some f \<Longrightarrow> safe_client_script (f m) caller i"
  shows "\<exists>w'. reentrant_client_poll st caller on_data i w = Inr w' \<and> client_world_ok i w'"
proof (cases "uc_running (udp_clients w i)")
  case True
  let ?w = "client_log (ReceiveMessagesOnConnection (uc_conn (udp_clients w i)) 16) w"
  have int: "uc_interface (udp_clients w i)" and live: "uc_conn (udp_clients w i) \<in> live_connections (client_history w)"
    using assms(2) True by (simp_all add: client_world_ok_def)
  have ok: "client_world_ok i ?w" using assms(2) by (simp add: client_world_ok_def)
  have "client_returns_ok i (reentrant_poll_messages st caller on_data i w)"
    unfolding reentrant_poll_messages_eq [OF int assms(1) live refl]
    using assms(3) ok
    by (intro client_returns_ok_bind each_message_returns_ok client_release_returns_ok)
      (auto split: option.split simp: reentrant_client_deliver_def
        intro!: each_message_returns_ok run_client_script_returns_ok)
  then obtain w1 where w1: "reentrant_poll_messages st caller on_data i w = Inr w1" "client_world_ok i w1"
    by (auto simp: client_returns_ok_def)
  obtain w2 where "client_dispatch (run_callbacks st (client_history w1)) (client_log RunCallbacks w1) = Inr w2"
    "client_world_ok i w2"
    by (rule poll_dispatch_ok [OF w1(2)])
  then show ?thesis using True w1 by (simp add: reentrant_client_poll_def)
qed (use assms(2) in \<open>simp add: reentrant_client_poll_def\<close>)

text \<open>A client that answers every message and stops after the second.\<close>

definition answer_and_stop :: "incoming_view_message_t \<Rightarrow> nat client_script" where
  "answer_and_stop m =
     Client_send (msg_buffer m) (length (msg_buffer m)) True (\<lambda>_.
       Client_do (\<lambda>e. Inr (e\<lparr>app := app e + 1\<rparr>)) (\<lambda>e. if app e = 2 then Client_stop Client_return else Client_return))"

lemma sample_client_world_ok: "client_world_ok 0 sample_client_world"
  by (simp add: client_world_ok_def sample_client_fields sample_live quiet_callback_def quiet_def count_bytes_def)

theorem reentrant_client_poll_safe_witness:
  "\<exists>w'. reentrant_client_poll (sample_steam [\<lparr>sm_conn = 1, sm_data = [7]\<rparr>] []) Client_app (Some answer_and_stop) 0
      sample_client_world = Inr w' \<and> client_world_ok 0 w'"
  by (rule reentrant_client_poll_safe [OF sample_connections_ok sample_client_world_ok])
    (auto simp: answer_and_stop_def quiet_def)

section \<open>Callbacks that do not call back\<close>

lemma reentrant_deliver_plain:
  "reentrant_client_deliver st caller (\<lambda>m. Client_do (f m) (\<lambda>_. Client_return)) i = client_deliver f i"
  by (simp add: fun_eq_iff reentrant_client_deliver_def client_deliver_def)

text \<open>The model of \<open>Udp_Client\<close> is the case of a callback that only acts on the outside.\<close>

lemma reentrant_client_poll_plain:
  "reentrant_client_poll st caller (map_option (\<lambda>f m. Client_do (f m) (\<lambda>_. Client_return)) (uc_on_data_received (udp_clients w i))) i w =
     UdpClient_poll st i w"
  by (cases "uc_on_data_received (udp_clients w i)")
    (simp_all add: reentrant_client_poll_def UdpClient_poll_def reentrant_poll_messages_def UdpClient_poll_messages_def
      Let_def reentrant_deliver_plain)

section \<open>Stopping a client from its callback\<close>

text \<open>A callback that notes each message and stops the client.\<close>

definition note_and_stop :: "incoming_view_message_t \<Rightarrow> incoming_view_message_t list client_script" where
  "note_and_stop m = Client_do (\<lambda>e. Inr (e\<lparr>app := app e @ [m]\<rparr>)) (\<lambda>_. Client_stop Client_return)"

lemma note_and_stop_stopped:
  assumes "\<not> uc_running (udp_clients w i)" and "uc_conn (udp_clients w i) = 0" and "client_instance w = None"
  shows "each_message (reentrant_client_deliver st Client_app note_and_stop i) ms w =
    Inr (w\<lparr>cenv := (cenv w)\<lparr>app := app (cenv w) @ map (\<lambda>m. \<lparr>msg_conn = 0, msg_buffer = sm_data m\<rparr>) ms\<rparr>\<rparr>)"
  using assms
proof (induction ms arbitrary: w)
  case (Cons m ms)
  let ?v = "w\<lparr>cenv := (cenv w)\<lparr>app := app (cenv w) @ [\<lparr>msg_conn = 0, msg_buffer = sm_data m\<rparr>]\<rparr>\<rparr>"
  have "upd_client i (uc_running_update (\<lambda>_. False)) (?v\<lparr>client_instance := None\<rparr>) = ?v"
  proof -
    have "(udp_clients w i)\<lparr>uc_running := False\<rparr> = udp_clients w i"
      using Cons.prems(1) by (cases "udp_clients w i") simp
    then have "(udp_clients w)(i := (udp_clients w i)\<lparr>uc_running := False\<rparr>) = udp_clients w" by simp
    then show ?thesis using Cons.prems(3) by (cases w) (simp add: upd_client_def)
  qed
  then have "reentrant_client_deliver st Client_app note_and_stop i m w = Inr ?v"
    using Cons.prems
    by (simp add: reentrant_client_deliver_def note_and_stop_def UdpClient_stop_def UdpClient_stop_begin_def)
  with Cons show ?case by simp
qed simp

lemma client_stop_running:
  assumes "uc_running (udp_clients w i)" and "uc_conn (udp_clients w i) \<noteq> 0"
  obtains v where "UdpClient_stop Client_app i w = Inr v" and "\<not> uc_running (udp_clients v i)"
    and "uc_conn (udp_clients v i) = 0" and "client_instance v = None" and "app (cenv v) = app (cenv w)"
    and "client_history v = client_history w @
      [CloseConnection (uc_conn (udp_clients w i)) 0 (Some ''UdpClient disconnecting'') True]"
  using assms
  by (cases "uc_network_thread (udp_clients w i)") (simp_all add: UdpClient_stop_def UdpClient_stop_begin_def)

text \<open>
  Stopping a client from its data callback in a manual poll closes the connection once and does not
  end the batch: the messages after it still reach the callback, with the invalid connection 0 as
  their sender, and all of them are released.
\<close>

lemma reentrant_client_stop_keeps_delivering:
  assumes "uc_running (udp_clients w i)" and "uc_interface (udp_clients w i)" and "connection_messages_ok st"
    and "uc_conn (udp_clients w i) \<in> live_connections (client_history w)"
    and "snd (receive_on_connection st (client_history w) (uc_conn (udp_clients w i)) 16) = m # ms"
  shows "\<exists>w'. reentrant_poll_messages st Client_app (Some note_and_stop) i w = Inr w' \<and>
    app (cenv w') = app (cenv w) @
      \<lparr>msg_conn = uc_conn (udp_clients w i), msg_buffer = sm_data m\<rparr> # map (\<lambda>m. \<lparr>msg_conn = 0, msg_buffer = sm_data m\<rparr>) ms \<and>
    client_history w' = client_history w @
      [ReceiveMessagesOnConnection (uc_conn (udp_clients w i)) 16,
       CloseConnection (uc_conn (udp_clients w i)) 0 (Some ''UdpClient disconnecting'') True] @
      map ReleaseMessage (m # ms)"
proof -
  let ?c = "uc_conn (udp_clients w i)"
  let ?w = "client_log (ReceiveMessagesOnConnection ?c 16) w"
  let ?v = "?w\<lparr>cenv := (cenv ?w)\<lparr>app := app (cenv w) @ [\<lparr>msg_conn = ?c, msg_buffer = sm_data m\<rparr>]\<rparr>\<rparr>"
  have "uc_running (udp_clients ?v i)" and "uc_conn (udp_clients ?v i) \<noteq> 0" using assms(1,4) by auto
  then obtain v where v: "UdpClient_stop Client_app i ?v = Inr v" "\<not> uc_running (udp_clients v i)" "uc_conn (udp_clients v i) = 0"
    "client_instance v = None" "app (cenv v) = app (cenv ?v)" "client_history v = client_history ?v @
      [CloseConnection (uc_conn (udp_clients ?v i)) 0 (Some ''UdpClient disconnecting'') True]"
    by (rule client_stop_running)
  have "reentrant_client_deliver st Client_app note_and_stop i m ?w = Inr v"
    using v(1) by (simp add: reentrant_client_deliver_def note_and_stop_def)
  then have "reentrant_poll_messages st Client_app (Some note_and_stop) i w = bind_result
      (Inr (v\<lparr>cenv := (cenv v)\<lparr>app := app (cenv v) @ map (\<lambda>m. \<lparr>msg_conn = 0, msg_buffer = sm_data m\<rparr>) ms\<rparr>\<rparr>))
      (each_message client_release (m # ms))"
    using note_and_stop_stopped [OF v(2-4)] by (simp add: reentrant_poll_messages_eq [OF assms(2-5)] del: each_message_release)
  then show ?thesis
    using v(5,6) by (simp add: each_message_release client_history_def del: each_message.simps)
qed

lemma reentrant_client_stop_keeps_delivering_witness:
  "\<exists>w'. reentrant_poll_messages (sample_steam [\<lparr>sm_conn = 1, sm_data = [7]\<rparr>, \<lparr>sm_conn = 1, sm_data = [8]\<rparr>] []) Client_app
      (Some note_and_stop) 0
      \<lparr>udp_clients = (\<lambda>_. udp_client_new\<lparr>uc_running := True, uc_interface := True, uc_conn := 1\<rparr>), client_instance = Some 0,
       cenv = \<lparr>calls = [ConnectByIPAddress sample_addr 1], app = []\<rparr>\<rparr> = Inr w' \<and>
    app (cenv w') = [\<lparr>msg_conn = 1, msg_buffer = [7]\<rparr>, \<lparr>msg_conn = 0, msg_buffer = [8]\<rparr>]"
proof -
  let ?ms = "[\<lparr>sm_conn = 1, sm_data = [7]\<rparr>, \<lparr>sm_conn = 1, sm_data = [8]\<rparr>]"
  let ?w = "\<lparr>udp_clients = (\<lambda>_. udp_client_new\<lparr>uc_running := True, uc_interface := True, uc_conn := 1\<rparr>), client_instance = Some 0,
       cenv = \<lparr>calls = [ConnectByIPAddress sample_addr 1], app = []\<rparr>\<rparr>"
  have w: "uc_running (udp_clients ?w 0)" "uc_interface (udp_clients ?w 0)"
    "uc_conn (udp_clients ?w 0) \<in> live_connections (client_history ?w)"
    by (simp_all add: client_history_def sample_live)
  have recv: "snd (receive_on_connection (sample_steam ?ms []) (client_history ?w) (uc_conn (udp_clients ?w 0)) 16) =
      \<lparr>sm_conn = 1, sm_data = [7]\<rparr> # [\<lparr>sm_conn = 1, sm_data = [8]\<rparr>]"
    by (simp add: client_history_def sample_live sample_steam_simps first_time_def)
  show ?thesis
    using reentrant_client_stop_keeps_delivering [OF w(1,2) sample_connections_ok w(3) recv] by auto
qed

end
