(* ===== verification/C_Api.thy ===== *)
theory C_Api
  imports Udp_Server
begin

text \<open>
  The C interface: \<^verbatim>\<open>src/include/kb/net/kb_server.h\<close> with \<^verbatim>\<open>src/src/kb/net/udp/kb_server.cpp\<close>, and
  \<^verbatim>\<open>src/src/kb/kb_networking.cpp\<close>. A \<^verbatim>\<open>kb_server_t *\<close> is the address of a \<open>kb_server\<close>, \<open>None\<close> for
  the null pointer; an address that is not in \<open>c_servers\<close> was freed or never allocated. Then the
  same interface over \<^verbatim>\<open>UdpServer\<close> objects without the C structs, which the C functions refine.
\<close>

section \<open>kb_server.cpp\<close>

type_synonym kb_server_ptr = "nat option"

text \<open>A C function pointer is its address. \<^verbatim>\<open>m_mutex\<close> is never locked.\<close>

type_synonym c_function_ptr = "u64 option"

record kb_server =
  m_impl :: "nat option"
  m_on_data :: c_function_ptr
  m_on_connect :: c_function_ptr
  m_on_disconnect :: c_function_ptr
  m_async :: bool

text \<open>\<open>c_next\<close> is the address the next \<^verbatim>\<open>new\<close> returns.\<close>

record 'w c_world =
  c_servers :: "nat \<rightharpoonup> kb_server"
  c_next :: nat
  c_net :: "'w server_world"

text \<open>The identity of an allocation is an index that is never used again, so that a pointer kept after
  \<^verbatim>\<open>kb_server_destroy\<close> never meets a new server, as it may where the allocator reuses the address.\<close>

definition kb_server_create :: "'w c_world \<Rightarrow> (kb_server_ptr \<times> 'w c_world) result" where
  "kb_server_create w =
     (let p = c_next w;
          server = \<lparr>m_impl = Some p, m_on_data = None, m_on_connect = None, m_on_disconnect = None,
                    m_async = False\<rparr> in
      Inr (Some p, w\<lparr>c_servers := (c_servers w)(p \<mapsto> server), c_next := p + 1,
                     c_net := UdpServer_new p (c_net w)\<rparr>))"

text \<open>\<^verbatim>\<open>p_server->m_impl->f(...)\<close>.\<close>

definition on_impl ::
  "nat \<Rightarrow> (nat \<Rightarrow> 'w server_world \<Rightarrow> ('a \<times> 'w server_world) result) \<Rightarrow> 'w c_world \<Rightarrow> ('a \<times> 'w c_world) result" where
  "on_impl p f w =
     (case c_servers w p of
        None \<Rightarrow> Inl Use_after_free
      | Some server \<Rightarrow>
          (case m_impl server of
             None \<Rightarrow> Inl Null_pointer
           | Some impl \<Rightarrow> bind_result (f impl (c_net w)) (\<lambda>(x, v). Inr (x, w\<lparr>c_net := v\<rparr>))))"

text \<open>A \<^verbatim>\<open>void\<close> function returns \<open>()\<close>.\<close>

definition void :: "'a result \<Rightarrow> (unit \<times> 'a) result" where
  "void m = bind_result m (\<lambda>w. Inr ((), w))"

definition kb_server_stop ::
  "thread_id \<Rightarrow> kb_server_ptr \<Rightarrow> 'w c_world \<Rightarrow> (unit \<times> 'w c_world) result" where
  "kb_server_stop caller p_server w =
     (case p_server of
        None \<Rightarrow> Inr ((), w)
      | Some p \<Rightarrow> on_impl p (\<lambda>i v. void (UdpServer_stop caller i v)) w)"

definition kb_server_destroy ::
  "thread_id \<Rightarrow> kb_server_ptr \<Rightarrow> 'w c_world \<Rightarrow> (unit \<times> 'w c_world) result" where
  "kb_server_destroy caller p_server w =
     (case p_server of
        None \<Rightarrow> Inr ((), w)
      | Some p \<Rightarrow>
          bind_result (kb_server_stop caller p_server w) (\<lambda>(_, w).
          bind_result (on_impl p (\<lambda>i v. void (UdpServer_delete caller i v)) w) (\<lambda>(_, w).
            Inr ((), w\<lparr>c_servers := (c_servers w)(p := None)\<rparr>))))"

definition kb_server_start_async ::
  "steam_api \<Rightarrow> kb_server_ptr \<Rightarrow> u16 \<Rightarrow> 'w c_world \<Rightarrow> (bool \<times> 'w c_world) result" where
  "kb_server_start_async st p_server p_port w =
     (case p_server of
        None \<Rightarrow> Inr (False, w)
      | Some p \<Rightarrow>
          (case c_servers w p of
             None \<Rightarrow> Inl Use_after_free
           | Some server \<Rightarrow>
               on_impl p (\<lambda>i v. UdpServer_start_async st i p_port v)
                 (w\<lparr>c_servers := (c_servers w)(p \<mapsto> server\<lparr>m_async := True\<rparr>)\<rparr>)))"

definition kb_server_start_manual ::
  "steam_api \<Rightarrow> kb_server_ptr \<Rightarrow> u16 \<Rightarrow> 'w c_world \<Rightarrow> (bool \<times> 'w c_world) result" where
  "kb_server_start_manual st p_server p_port w =
     (case p_server of
        None \<Rightarrow> Inr (False, w)
      | Some p \<Rightarrow> on_impl p (\<lambda>i v. Inr (UdpServer_start_manual st i p_port v)) w)"

definition kb_server_poll ::
  "steam_api \<Rightarrow> kb_server_ptr \<Rightarrow> 'w c_world \<Rightarrow> (unit \<times> 'w c_world) result" where
  "kb_server_poll st p_server w =
     (case p_server of
        None \<Rightarrow> Inr ((), w)
      | Some p \<Rightarrow> on_impl p (\<lambda>i v. void (UdpServer_poll st i v)) w)"

text \<open>\<^verbatim>\<open>send\<close> acts on the world outside only.\<close>

definition kb_server_send_raw ::
  "steam_api \<Rightarrow> kb_server_ptr \<Rightarrow> kb_connection_t \<Rightarrow> u8 list \<Rightarrow> u32 \<Rightarrow> bool \<Rightarrow> 'w c_world \<Rightarrow>
   (bool \<times> 'w c_world) result" where
  "kb_server_send_raw st p_server p_conn p_data p_len p_reliable w =
     (case p_server of
        None \<Rightarrow> Inr (False, w)
      | Some p \<Rightarrow> on_impl p (\<lambda>i v.
          case UdpServer_send st p_conn p_data p_len p_reliable (senv v) of
            (ok, e) \<Rightarrow> Inr (ok, v\<lparr>senv := e\<rparr>)) w)"

definition kb_server_broadcast_raw ::
  "steam_api \<Rightarrow> kb_server_ptr \<Rightarrow> u8 list \<Rightarrow> u32 \<Rightarrow> bool \<Rightarrow> 'w c_world \<Rightarrow> (bool \<times> 'w c_world) result" where
  "kb_server_broadcast_raw st p_server p_data p_len p_reliable w =
     (case p_server of
        None \<Rightarrow> Inr (False, w)
      | Some p \<Rightarrow> on_impl p (\<lambda>i v. Inr (UdpServer_broadcast st i p_data p_len p_reliable v)) w)"

definition kb_server_disconnect ::
  "kb_server_ptr \<Rightarrow> kb_connection_t \<Rightarrow> i32 \<Rightarrow> 'w c_world \<Rightarrow> (unit \<times> 'w c_world) result" where
  "kb_server_disconnect p_server p_conn p_reason_code w =
     (case p_server of
        None \<Rightarrow> Inr ((), w)
      | Some p \<Rightarrow> on_impl p (\<lambda>i v. Inr ((), UdpServer_disconnect i p_conn p_reason_code v)) w)"

definition kb_server_is_running :: "kb_server_ptr \<Rightarrow> 'w c_world \<Rightarrow> (bool \<times> 'w c_world) result" where
  "kb_server_is_running p_server w =
     (case p_server of
        None \<Rightarrow> Inr (False, w)
      | Some p \<Rightarrow> on_impl p (\<lambda>i v. Inr (UdpServer_is_running i v, v)) w)"

definition kb_server_port :: "kb_server_ptr \<Rightarrow> 'w c_world \<Rightarrow> (u16 \<times> 'w c_world) result" where
  "kb_server_port p_server w =
     (case p_server of
        None \<Rightarrow> Inr (0, w)
      | Some p \<Rightarrow> on_impl p (\<lambda>i v. Inr (UdpServer_port i v, v)) w)"

section \<open>Programs over the C interface\<close>

text \<open>What happens in a process that uses the C interface: the application's thread makes a call,
  or the network thread of a server that runs makes one iteration of its loop.\<close>

datatype c_event =
    Create
  | Destroy kb_server_ptr
  | Start_async kb_server_ptr u16
  | Start_manual kb_server_ptr u16
  | Stop kb_server_ptr
  | Poll kb_server_ptr
  | Send_raw kb_server_ptr kb_connection_t "u8 list" u32 bool
  | Broadcast_raw kb_server_ptr "u8 list" u32 bool
  | Disconnect kb_server_ptr kb_connection_t i32
  | Is_running kb_server_ptr
  | Port kb_server_ptr
  | Network_iteration nat

datatype c_answer = A_void | A_bool bool | A_port u16 | A_server kb_server_ptr

definition answer :: "('a \<Rightarrow> c_answer) \<Rightarrow> ('a \<times> 's) result \<Rightarrow> (c_answer \<times> 's) result" where
  "answer f m = bind_result m (\<lambda>(x, w). Inr (f x, w))"

definition network_iteration :: "steam_api \<Rightarrow> nat \<Rightarrow> 'w server_world \<Rightarrow> (unit \<times> 'w server_world) result" where
  "network_iteration st i v =
     (if us_network_thread (servers v i) \<and> us_is_running (servers v i)
      then void (UdpServer_poll st i v) else Inr ((), v))"

fun c_exec :: "steam_api \<Rightarrow> c_event \<Rightarrow> 'w c_world \<Rightarrow> (c_answer \<times> 'w c_world) result" where
  "c_exec st Create w = answer A_server (kb_server_create w)"
| "c_exec st (Destroy p) w = answer (\<lambda>_. A_void) (kb_server_destroy App_thread p w)"
| "c_exec st (Start_async p port) w = answer A_bool (kb_server_start_async st p port w)"
| "c_exec st (Start_manual p port) w = answer A_bool (kb_server_start_manual st p port w)"
| "c_exec st (Stop p) w = answer (\<lambda>_. A_void) (kb_server_stop App_thread p w)"
| "c_exec st (Poll p) w = answer (\<lambda>_. A_void) (kb_server_poll st p w)"
| "c_exec st (Send_raw p c d n r) w = answer A_bool (kb_server_send_raw st p c d n r w)"
| "c_exec st (Broadcast_raw p d n r) w = answer A_bool (kb_server_broadcast_raw st p d n r w)"
| "c_exec st (Disconnect p c reason) w = answer (\<lambda>_. A_void) (kb_server_disconnect p c reason w)"
| "c_exec st (Is_running p) w = answer A_bool (kb_server_is_running p w)"
| "c_exec st (Port p) w = answer A_port (kb_server_port p w)"
| "c_exec st (Network_iteration i) w =
     bind_result (network_iteration st i (c_net w)) (\<lambda>(_, v). Inr (A_void, w\<lparr>c_net := v\<rparr>))"

fun run_events :: "('e \<Rightarrow> 's \<Rightarrow> ('x \<times> 's) result) \<Rightarrow> 'e list \<Rightarrow> 's \<Rightarrow> ('x list \<times> 's) result" where
  "run_events exec [] s = Inr ([], s)"
| "run_events exec (ev # evs) s =
     bind_result (exec ev s) (\<lambda>(a, s). bind_result (run_events exec evs s) (\<lambda>(as, s). Inr (a # as, s)))"

text \<open>A process before its first call; \<open>u\<close> is the state of the application.\<close>

definition c_init :: "'w \<Rightarrow> 'w c_world" where
  "c_init u =
     \<lparr>c_servers = Map.empty, c_next = 0,
      c_net = \<lparr>servers = (\<lambda>_. udp_server_new), server_instance = None, senv = \<lparr>calls = [], app = u\<rparr>\<rparr>\<rparr>"

section \<open>The specification\<close>

text \<open>The objects themselves: which of them exist, and what each operation does to them. There is no
  struct, no indirection, no flag, and destroying an object is its destructor, once.\<close>

record 'w udp_objects =
  uo_live :: "nat set"
  uo_next :: nat
  uo_net :: "'w server_world"

definition on_object ::
  "'a \<Rightarrow> nat option \<Rightarrow> (nat \<Rightarrow> 'w server_world \<Rightarrow> ('a \<times> 'w server_world) result) \<Rightarrow> 'w udp_objects \<Rightarrow>
   ('a \<times> 'w udp_objects) result" where
  "on_object null p f v =
     (case p of
        None \<Rightarrow> Inr (null, v)
      | Some i \<Rightarrow>
          if i \<in> uo_live v then bind_result (f i (uo_net v)) (\<lambda>(x, n). Inr (x, v\<lparr>uo_net := n\<rparr>))
          else Inl Use_after_free)"

definition forget :: "nat option \<Rightarrow> 'w udp_objects \<Rightarrow> 'w udp_objects" where
  "forget p v = v\<lparr>uo_live := uo_live v - set_option p\<rparr>"

fun spec_exec :: "steam_api \<Rightarrow> c_event \<Rightarrow> 'w udp_objects \<Rightarrow> (c_answer \<times> 'w udp_objects) result" where
  "spec_exec st Create v =
     Inr (A_server (Some (uo_next v)),
          v\<lparr>uo_live := insert (uo_next v) (uo_live v), uo_next := uo_next v + 1,
            uo_net := UdpServer_new (uo_next v) (uo_net v)\<rparr>)"
| "spec_exec st (Destroy p) v =
     bind_result (on_object () p (\<lambda>i n. void (UdpServer_delete App_thread i n)) v) (\<lambda>(_, v).
       Inr (A_void, forget p v))"
| "spec_exec st (Start_async p port) v = answer A_bool (on_object False p (\<lambda>i. UdpServer_start_async st i port) v)"
| "spec_exec st (Start_manual p port) v =
     answer A_bool (on_object False p (\<lambda>i n. Inr (UdpServer_start_manual st i port n)) v)"
| "spec_exec st (Stop p) v = answer (\<lambda>_. A_void) (on_object () p (\<lambda>i n. void (UdpServer_stop App_thread i n)) v)"
| "spec_exec st (Poll p) v = answer (\<lambda>_. A_void) (on_object () p (\<lambda>i n. void (UdpServer_poll st i n)) v)"
| "spec_exec st (Send_raw p c d len r) v = answer A_bool (on_object False p (\<lambda>i n.
     let (ok, e) = UdpServer_send st c d len r (senv n) in Inr (ok, n\<lparr>senv := e\<rparr>)) v)"
| "spec_exec st (Broadcast_raw p d len r) v =
     answer A_bool (on_object False p (\<lambda>i n. Inr (UdpServer_broadcast st i d len r n)) v)"
| "spec_exec st (Disconnect p c reason) v =
     answer (\<lambda>_. A_void) (on_object () p (\<lambda>i n. Inr ((), UdpServer_disconnect i c reason n)) v)"
| "spec_exec st (Is_running p) v = answer A_bool (on_object False p (\<lambda>i n. Inr (us_is_running (servers n i), n)) v)"
| "spec_exec st (Port p) v = answer A_port (on_object 0 p (\<lambda>i n. Inr (us_port (servers n i), n)) v)"
| "spec_exec st (Network_iteration i) v =
     bind_result (network_iteration st i (uo_net v)) (\<lambda>(_, n). Inr (A_void, v\<lparr>uo_net := n\<rparr>))"

text \<open>The abstraction.\<close>

definition c_abs :: "'w c_world \<Rightarrow> 'w udp_objects" where
  "c_abs w = \<lparr>uo_live = dom (c_servers w), uo_next = c_next w, uo_net = c_net w\<rparr>"

section \<open>kb_networking.cpp\<close>

text \<open>What the two functions call outside the file, in order.\<close>

datatype runtime_call = Logger_init | GameNetworkingSockets_Init | GameNetworkingSockets_Kill | Logger_shutdown

record runtime =
  s_initialized :: bool
  runtime_calls :: "runtime_call list"

definition runtime_call :: "runtime_call \<Rightarrow> runtime \<Rightarrow> runtime" where
  "runtime_call c r = r\<lparr>runtime_calls := runtime_calls r @ [c]\<rparr>"

text \<open>\<open>steam_init\<close> is what \<^verbatim>\<open>GameNetworkingSockets_Init\<close> returns after the calls so far.\<close>

definition kb_networking_init :: "(runtime_call list \<Rightarrow> bool) \<Rightarrow> runtime \<Rightarrow> runtime result" where
  "kb_networking_init steam_init r =
     (if s_initialized r then Inr r
      else
        let r = runtime_call Logger_init r;
            ok = steam_init (runtime_calls r);
            r = runtime_call GameNetworkingSockets_Init r in
        if \<not> ok then Inl Abort_called else Inr (r\<lparr>s_initialized := True\<rparr>))"

definition kb_networking_shutdown :: "runtime \<Rightarrow> runtime result" where
  "kb_networking_shutdown r =
     (if \<not> s_initialized r then Inr r
      else Inr (runtime_call Logger_shutdown (runtime_call GameNetworkingSockets_Kill r)))"

definition runtime_start :: runtime where
  "runtime_start = \<lparr>s_initialized = False, runtime_calls = []\<rparr>"

datatype lifecycle_call = Init | Shutdown

fun lifecycle :: "(runtime_call list \<Rightarrow> bool) \<Rightarrow> lifecycle_call list \<Rightarrow> runtime \<Rightarrow> runtime result" where
  "lifecycle steam_init [] r = Inr r"
| "lifecycle steam_init (Init # cs) r = bind_result (kb_networking_init steam_init r) (lifecycle steam_init cs)"
| "lifecycle steam_init (Shutdown # cs) r = bind_result (kb_networking_shutdown r) (lifecycle steam_init cs)"

end
