(* ===== verification/C_Properties.thy ===== *)
theory C_Properties
  imports C_Api Udp_Server_Correct Sample_Steam
begin

text \<open>
  The properties of the C interface: every program over it behaves as the same program over the
  \<^verbatim>\<open>UdpServer\<close> objects, what destroying a server leaves behind, that no server made through it
  ever hands data to the application, and the life cycle of the library.
\<close>

section \<open>Refinement\<close>

text \<open>Every struct that exists points to its own server object, and was allocated before.\<close>

definition c_ok :: "'w c_world \<Rightarrow> bool" where
  "c_ok w \<longleftrightarrow> (\<forall>p s. c_servers w p = Some s \<longrightarrow> m_impl s = Some p \<and> p < c_next w)"

lemma c_init_ok: "c_ok (c_init u)"
  by (simp add: c_ok_def c_init_def)

text \<open>\<open>abs_result\<close> applies the abstraction to the state of an outcome.\<close>

definition abs_result :: "('x \<times> 'w c_world) result \<Rightarrow> ('x \<times> 'w udp_objects) result" where
  "abs_result m = bind_result m (\<lambda>(x, w). Inr (x, c_abs w))"

lemma abs_result_simps [simp]:
  "abs_result (Inl e) = Inl e"
  "abs_result (Inr (x, w)) = Inr (x, c_abs w)"
  by (simp_all add: abs_result_def)

lemma answer_simps [simp]:
  "answer f (Inl e) = Inl e"
  "answer f (Inr (x, w)) = Inr (f x, w)"
  by (simp_all add: answer_def)

lemma abs_answer [simp]: "abs_result (answer f m) = answer f (abs_result m)"
  by (cases m) auto

lemma void_simps [simp]:
  "void (Inl e) = Inl e"
  "void (Inr w) = Inr ((), w)"
  by (simp_all add: void_def)

lemma c_abs_net [simp]: "c_abs (w\<lparr>c_net := v\<rparr>) = (c_abs w)\<lparr>uo_net := v\<rparr>"
  by (simp add: c_abs_def)

lemma on_impl_refines:
  assumes "c_ok w"
  shows "abs_result (on_impl p f w) = on_object null (Some p) f (c_abs w)"
proof (cases "c_servers w p")
  case (Some s)
  then have "m_impl s = Some p" using assms by (simp add: c_ok_def)
  with Some show ?thesis
    by (cases "f p (c_net w)") (auto simp: on_impl_def on_object_def c_abs_def)
qed (simp add: on_impl_def on_object_def c_abs_def domIff)

lemma ptr_refines:
  "c_ok w \<Longrightarrow>
   abs_result (case p of None \<Rightarrow> Inr (null, w) | Some i \<Rightarrow> on_impl i f w) = on_object null p f (c_abs w)"
  by (cases p) (simp_all add: on_impl_refines [of _ _ _ null], simp add: on_object_def)

lemma on_impl_ok:
  "on_impl p f w = Inr (x, w') \<Longrightarrow> c_servers w' = c_servers w \<and> c_next w' = c_next w"
  by (auto simp: on_impl_def bind_result_def split: option.splits sum.splits prod.splits)

lemma c_ok_cong: "c_servers w' = c_servers w \<Longrightarrow> c_next w' = c_next w \<Longrightarrow> c_ok w' = c_ok w"
  by (simp add: c_ok_def)

text \<open>A stopped server is a fixed point of \<^verbatim>\<open>stop\<close>: destroying after a stop is destroying.\<close>

lemma stop_after_stop:
  assumes "UdpServer_stop caller i v = Inr v'"
  shows "UdpServer_stop caller i v' = Inr v'"
proof -
  have "\<not> us_is_running (servers v' i) \<and> server_instance v' = None"
    using assms by (auto simp: UdpServer_stop_def UdpServer_stop_begin_def split: if_splits bool.splits)
  then have "upd_server i (us_is_running_update (\<lambda>_. False)) (v'\<lparr>server_instance := None\<rparr>) = v'"
    and "\<not> us_is_running (servers v' i)"
    by (cases v'; cases "servers v' i"; simp add: upd_server_def fun_eq_iff)+
  then show ?thesis by (simp add: UdpServer_stop_def UdpServer_stop_begin_def)
qed

lemma stop_then_delete:
  "bind_result (UdpServer_stop caller i v) (UdpServer_delete caller i) = UdpServer_delete caller i v"
  by (cases "UdpServer_stop caller i v") (simp_all add: UdpServer_delete_def stop_after_stop)

lemma destroy_refines:
  assumes "c_ok w"
  shows "abs_result (kb_server_destroy caller (Some p) w) =
    bind_result (on_object () (Some p) (\<lambda>i n. void (UdpServer_delete caller i n)) (c_abs w)) (\<lambda>(_, v).
      Inr ((), forget (Some p) v))"
proof (cases "c_servers w p")
  case None
  then show ?thesis
    by (simp add: kb_server_destroy_def kb_server_stop_def on_impl_def on_object_def c_abs_def domIff)
next
  case (Some s)
  then have "m_impl s = Some p" and "p \<in> dom (c_servers w)" using assms by (auto simp: c_ok_def)
  with Some show ?thesis
    unfolding stop_then_delete [symmetric, of caller p "c_net w"]
    by (cases "UdpServer_stop caller p (c_net w)"; cases "UdpServer_delete caller p (projr (UdpServer_stop caller p (c_net w)))")
      (simp_all add: kb_server_destroy_def kb_server_stop_def on_impl_def on_object_def c_abs_def forget_def
        stop_then_delete [symmetric, of caller p "c_net w"])
qed

lemma start_async_refines:
  assumes "c_ok w"
  shows "abs_result (kb_server_start_async st p port w) =
    on_object False p (\<lambda>i. UdpServer_start_async st i port) (c_abs w)"
proof (cases p)
  case (Some i)
  show ?thesis
  proof (cases "c_servers w i")
    case s: (Some s)
    let ?w = "w\<lparr>c_servers := (c_servers w)(i \<mapsto> s\<lparr>m_async := True\<rparr>)\<rparr>"
    have "c_ok ?w" using assms s by (auto simp: c_ok_def)
    moreover have "c_abs ?w = c_abs w" using s by (auto simp: c_abs_def)
    ultimately show ?thesis
      using s on_impl_refines [of ?w i "\<lambda>i. UdpServer_start_async st i port" False]
      by (simp add: kb_server_start_async_def Some)
  qed (simp add: kb_server_start_async_def Some on_object_def c_abs_def domIff)
qed (simp add: kb_server_start_async_def on_object_def)

lemma c_exec_refines:
  assumes "c_ok w"
  shows "abs_result (c_exec st ev w) = spec_exec st ev (c_abs w)"
proof (cases ev)
  case Create
  then show ?thesis by (simp add: kb_server_create_def c_abs_def Let_def)
next
  case (Destroy p)
  then show ?thesis
    using destroy_refines [OF assms, of App_thread]
    by (cases p; cases "on_object () p (\<lambda>i n. void (UdpServer_delete App_thread i n)) (c_abs w)")
      (auto simp: kb_server_destroy_def on_object_def forget_def)
next
  case (Start_async p port)
  then show ?thesis by (simp add: start_async_refines [OF assms])
next
  case (Network_iteration i)
  then show ?thesis
    by (cases "network_iteration st i (c_net w)") (auto simp: c_abs_def)
qed (simp_all add: ptr_refines [OF assms] kb_server_start_manual_def kb_server_stop_def kb_server_poll_def
    kb_server_send_raw_def kb_server_broadcast_raw_def kb_server_disconnect_def kb_server_is_running_def
    kb_server_port_def UdpServer_is_running_def UdpServer_port_def Let_def)

lemma ptr_ok:
  "(case p of None \<Rightarrow> Inr (null, w) | Some i \<Rightarrow> on_impl i f w) = Inr (x, w') \<Longrightarrow>
   c_servers w' = c_servers w \<and> c_next w' = c_next w"
  by (cases p) (auto dest: on_impl_ok)

text \<open>What an event does to the table of structs.\<close>

lemma answer_InrE:
  assumes "answer f m = Inr (a, w')"
  obtains x where "m = Inr (x, w')" and "a = f x"
  using assms by (cases m) auto

lemma destroy_table:
  assumes "kb_server_destroy caller (Some i) w = Inr (x, w')"
  shows "c_servers w' = (c_servers w)(i := None)" and "c_next w' = c_next w" and "i \<in> dom (c_servers w)"
proof -
  obtain w1 where w1: "kb_server_stop caller (Some i) w = Inr ((), w1)"
    using assms by (cases "kb_server_stop caller (Some i) w") (auto simp: kb_server_destroy_def)
  then obtain w2 where w2: "on_impl i (\<lambda>i v. void (UdpServer_delete caller i v)) w1 = Inr ((), w2)"
    and w': "w' = w2\<lparr>c_servers := (c_servers w2)(i := None)\<rparr>"
    using assms by (cases "on_impl i (\<lambda>i v. void (UdpServer_delete caller i v)) w1") (auto simp: kb_server_destroy_def)
  have "c_servers w2 = c_servers w \<and> c_next w2 = c_next w"
    using on_impl_ok [OF w2] w1 by (auto simp: kb_server_stop_def dest: on_impl_ok)
  with w' show "c_servers w' = (c_servers w)(i := None)" and "c_next w' = c_next w" by simp_all
  show "i \<in> dom (c_servers w)"
    using w1 by (auto simp: kb_server_stop_def on_impl_def split: option.splits)
qed

lemma start_async_table:
  assumes "kb_server_start_async st (Some i) port w = Inr (b, w')"
  obtains s where "c_servers w i = Some s" and "c_servers w' = (c_servers w)(i \<mapsto> s\<lparr>m_async := True\<rparr>)"
    and "c_next w' = c_next w"
  using assms by (auto simp: kb_server_start_async_def split: option.splits dest!: on_impl_ok)

lemma other_table:
  assumes "c_exec st ev w = Inr (a, w')"
    and "ev \<noteq> Create" and "\<And>p. ev \<noteq> Destroy p" and "\<And>p port. ev \<noteq> Start_async p port"
  shows "c_servers w' = c_servers w" and "c_next w' = c_next w"
proof -
  have "c_servers w' = c_servers w \<and> c_next w' = c_next w"
    using assms
    by (cases ev) (auto elim!: answer_InrE dest!: ptr_ok
        simp: kb_server_start_manual_def kb_server_stop_def kb_server_poll_def
          kb_server_send_raw_def kb_server_broadcast_raw_def kb_server_disconnect_def kb_server_is_running_def
          kb_server_port_def bind_result_def split: sum.splits)
  then show "c_servers w' = c_servers w" and "c_next w' = c_next w" by blast+
qed

lemma c_exec_table:
  assumes "c_exec st ev w = Inr (a, w')"
  shows "c_next w' = (if ev = Create then c_next w + 1 else c_next w) \<and>
    dom (c_servers w') =
      (case ev of Create \<Rightarrow> insert (c_next w) (dom (c_servers w))
       | Destroy p \<Rightarrow> dom (c_servers w) - set_option p | _ \<Rightarrow> dom (c_servers w)) \<and>
    (\<forall>p. ev = Destroy (Some p) \<longrightarrow> p \<in> dom (c_servers w)) \<and> (c_ok w \<longrightarrow> c_ok w')"
proof -
  consider (create) "ev = Create" | (null) "ev = Destroy None" | (destroy) i where "ev = Destroy (Some i)"
    | (async_null) port where "ev = Start_async None port" | (async) i port where "ev = Start_async (Some i) port"
    | (other) "ev \<noteq> Create" "\<And>p. ev \<noteq> Destroy p" "\<And>p port. ev \<noteq> Start_async p port"
    by (metis not_None_eq)
  then show ?thesis
  proof cases
    case create
    with assms have "w' = w\<lparr>c_servers := (c_servers w)(c_next w \<mapsto> \<lparr>m_impl = Some (c_next w), m_on_data = None,
        m_on_connect = None, m_on_disconnect = None, m_async = False\<rparr>), c_next := c_next w + 1,
        c_net := UdpServer_new (c_next w) (c_net w)\<rparr>"
      by (simp add: kb_server_create_def Let_def)
    with create show ?thesis by (auto simp: c_ok_def less_Suc_eq)
  next
    case (destroy i)
    then have "kb_server_destroy App_thread (Some i) w = Inr ((), w')"
      using assms by (auto elim: answer_InrE)
    from destroy_table [OF this] destroy show ?thesis by (auto simp: c_ok_def)
  next
    case (async i port)
    then obtain b where "kb_server_start_async st (Some i) port w = Inr (b, w')"
      using assms by (auto elim: answer_InrE)
    with async show ?thesis by (auto simp: c_ok_def elim!: start_async_table split: if_splits)
  next
    case other
    with other_table [OF assms other] show ?thesis by (cases ev) (auto simp: c_ok_def)
  qed (use assms in \<open>simp_all add: kb_server_destroy_def kb_server_start_async_def\<close>)
qed

lemma run_events_ConsE:
  assumes "run_events exec (ev # evs) s = Inr (as, s')"
  obtains a as' s1 where "exec ev s = Inr (a, s1)" and "run_events exec evs s1 = Inr (as', s')" and "as = a # as'"
  using assms by (cases "exec ev s"; cases "run_events exec evs (snd (projr (exec ev s)))") (auto simp: prod.case_eq_if)

lemma run_refines:
  "c_ok w \<Longrightarrow> abs_result (run_events (c_exec st) evs w) = run_events (spec_exec st) evs (c_abs w)"
proof (induction evs arbitrary: w)
  case (Cons ev evs)
  have ex: "spec_exec st ev (c_abs w) = abs_result (c_exec st ev w)"
    by (rule c_exec_refines [OF Cons.prems, symmetric])
  show ?case
  proof (cases "c_exec st ev w")
    case (Inr r)
    obtain a w1 where r: "r = (a, w1)" by fastforce
    have "abs_result (run_events (c_exec st) evs w1) = run_events (spec_exec st) evs (c_abs w1)"
      using Inr Cons c_exec_table r by blast
    moreover have "abs_result (run_events (c_exec st) (ev # evs) w) =
        bind_result (abs_result (run_events (c_exec st) evs w1)) (\<lambda>(as, s). Inr (a # as, s))"
      using Inr r by (cases "run_events (c_exec st) evs w1") auto
    ultimately show ?thesis using Inr r ex by simp
  qed (use ex in simp)
qed simp

section \<open>No data reaches the application\<close>

text \<open>No server has a callback, only running servers have a network thread, and the state of the
  application is the initial one.\<close>

definition silent :: "'w \<Rightarrow> 'w server_world \<Rightarrow> bool" where
  "silent u v \<longleftrightarrow> app (senv v) = u \<and>
     (\<forall>i. us_on_data (servers v i) = None \<and> us_on_connected (servers v i) = None \<and>
          us_on_disconnected (servers v i) = None \<and>
          (us_network_thread (servers v i) \<longrightarrow> us_is_running (servers v i)))"

lemma silent_log [simp]: "silent u (server_log c v) = silent u v"
  by (simp add: silent_def)

lemma silent_instance [simp]: "silent u (v\<lparr>server_instance := x\<rparr>) = silent u v"
  by (simp add: silent_def)

lemma silent_clients [simp]: "silent u (upd_server i (us_clients_update f) v) = silent u v"
  by (auto simp: silent_def)

lemma silent_calls [simp]: "silent u (v\<lparr>senv := (senv v)\<lparr>calls := h\<rparr>\<rparr>) = silent u v"
  by (simp add: silent_def)

lemma silent_new: "silent u v \<Longrightarrow> silent u (UdpServer_new i v)"
  by (simp add: silent_def UdpServer_new_def udp_server_new_def)

lemma silent_start_manual: "silent u v \<Longrightarrow> UdpServer_start_manual st i port v = (ok, v') \<Longrightarrow> silent u v'"
  by (auto simp: silent_def UdpServer_start_manual_def UdpServer_on_fatal_message_def Let_def split: if_splits)

lemma silent_start_async:
  assumes "silent u v" and "UdpServer_start_async st i port v = Inr (ok, v')"
  shows "silent u v'"
proof -
  obtain b v1 where s: "UdpServer_start_manual st i port v = (b, v1)" by fastforce
  then have "silent u v1" by (rule silent_start_manual [OF assms(1)])
  moreover have "b \<Longrightarrow> us_is_running (servers v1 i)" using s by (cases rule: start_manual_cases) simp_all
  ultimately show ?thesis
    using assms(2) s by (auto simp: UdpServer_start_async_def silent_def split: bool.splits if_splits)
qed

lemma silent_stop: "silent u v \<Longrightarrow> UdpServer_stop caller i v = Inr v' \<Longrightarrow> silent u v'"
  by (auto simp: silent_def UdpServer_stop_def UdpServer_stop_begin_def stopped_def split: bool.splits if_splits)

lemma silent_delete: "silent u v \<Longrightarrow> UdpServer_delete caller i v = Inr v' \<Longrightarrow> silent u v'"
  by (cases "UdpServer_stop caller i v") (auto simp: UdpServer_delete_def dest: silent_stop split: if_splits)

lemma silent_send: "silent u v \<Longrightarrow> UdpServer_send st c d n r (senv v) = (ok, e) \<Longrightarrow> silent u (v\<lparr>senv := e\<rparr>)"
  by (auto simp: silent_def UdpServer_send_def Let_def)

lemma silent_deliver: "silent u v \<Longrightarrow> UdpServer_deliver i m v = Inr v"
  by (simp add: silent_def UdpServer_deliver_def)

lemma silent_message_loop:
  "silent u v \<Longrightarrow> server_message_loop this n ms i v = Inr v' \<Longrightarrow> silent u v'"
proof (induction this n ms i v rule: server_message_loop.induct)
  case (1 this n ms i v)
  then show ?case
    using server_message_loop.simps [of this n ms i v]
    by (auto simp: silent_deliver split: if_splits)
qed

lemma silent_event:
  "silent u v \<Longrightarrow> UdpServer_connection_status_changed_callback st ev v = Inr v' \<Longrightarrow> silent u v'"
  by (auto simp: UdpServer_connection_status_changed_callback_def UdpServer_on_connection_status_changed_def
      UdpServer_on_closed_def UdpServer_on_connecting_def UdpServer_notify_connected_def UdpServer_add_client_def
      Let_def silent_def split: option.splits steam_state.splits if_splits)

lemma silent_dispatch: "silent u v \<Longrightarrow> server_dispatch st evs v = Inr v' \<Longrightarrow> silent u v'"
proof (induction evs arbitrary: v)
  case (Cons ev evs)
  then show ?case
    by (cases "UdpServer_connection_status_changed_callback st ev v") (auto dest: silent_event)
qed simp

lemma silent_poll: "silent u v \<Longrightarrow> UdpServer_poll st i v = Inr v' \<Longrightarrow> silent u v'"
proof -
  assume "silent u v" and poll: "UdpServer_poll st i v = Inr v'"
  obtain n ms where recv: "receive_on_poll_group st (server_history v) (us_poll_group (servers v i)) k_message_count = (n, ms)"
    by fastforce
  let ?loop = "server_message_loop i (u32_count n) ms 0
    (server_log (ReceiveMessagesOnPollGroup (us_poll_group (servers v i)) k_message_count) v)"
  obtain v1 where l: "?loop = Inr v1"
    and d: "server_dispatch st (run_callbacks st (server_history v1)) (server_log RunCallbacks v1) = Inr v'"
    using poll recv by (cases ?loop) (auto simp: UdpServer_poll_def Let_def)
  have "silent u v1" by (rule silent_message_loop [OF _ l]) (simp add: \<open>silent u v\<close>)
  then show "silent u v'" using silent_dispatch [OF _ d] by simp
qed

text \<open>A call through a pointer keeps what its function keeps.\<close>

lemma on_impl_silent:
  assumes "on_impl p f w = Inr (x, w')" and "silent u (c_net w)"
    and "\<And>i v y v'. silent u v \<Longrightarrow> f i v = Inr (y, v') \<Longrightarrow> silent u v'"
  shows "silent u (c_net w')"
  using assms by (auto simp: on_impl_def bind_result_def split: option.splits sum.splits prod.splits)

lemma ptr_silent:
  assumes "(case p of None \<Rightarrow> Inr (null, w) | Some i \<Rightarrow> on_impl i f w) = Inr (x, w')" and "silent u (c_net w)"
    and "\<And>i v y v'. silent u v \<Longrightarrow> f i v = Inr (y, v') \<Longrightarrow> silent u v'"
  shows "silent u (c_net w')"
  using assms by (cases p) (auto dest: on_impl_silent)

lemma void_InrE: "void m = Inr (x, v) \<Longrightarrow> m = Inr v"
  by (cases m) auto

lemma silent_broadcast: "silent u v \<Longrightarrow> UdpServer_broadcast st i d n r v = (ok, v') \<Longrightarrow> silent u v'"
  by (auto simp: broadcast_eq Let_def)

lemma silent_destroy:
  assumes "kb_server_destroy caller p w = Inr (x, w')" and "silent u (c_net w)"
  shows "silent u (c_net w')"
proof (cases p)
  case (Some i)
  obtain w1 where w1: "kb_server_stop caller p w = Inr ((), w1)"
    using assms Some by (cases "kb_server_stop caller p w") (auto simp: kb_server_destroy_def)
  then obtain w2 where w2: "on_impl i (\<lambda>i v. void (UdpServer_delete caller i v)) w1 = Inr ((), w2)"
    and w': "c_net w' = c_net w2"
    using assms(1) Some by (cases "on_impl i (\<lambda>i v. void (UdpServer_delete caller i v)) w1") (auto simp: kb_server_destroy_def)
  have "silent u (c_net w1)"
    using w1 unfolding kb_server_stop_def by (rule ptr_silent [OF _ assms(2)]) (auto dest: void_InrE silent_stop)
  from on_impl_silent [OF w2 this] show ?thesis by (auto simp: w' dest: void_InrE silent_delete)
qed (use assms in \<open>simp add: kb_server_destroy_def\<close>)

lemma silent_start:
  assumes "kb_server_start_async st p port w = Inr (x, w')" and "silent u (c_net w)"
  shows "silent u (c_net w')"
  using assms
  by (auto simp: kb_server_start_async_def split: option.splits elim!: on_impl_silent dest: silent_start_async)

lemma c_exec_silent:
  assumes "c_exec st ev w = Inr (a, w')" and "silent u (c_net w)"
  shows "silent u (c_net w')"
proof (cases ev)
  case Create
  then show ?thesis using assms by (auto simp: kb_server_create_def Let_def silent_new)
next
  case (Destroy p)
  then show ?thesis using assms by (auto elim!: answer_InrE dest: silent_destroy)
next
  case (Start_async p port)
  then show ?thesis using assms by (auto elim!: answer_InrE dest: silent_start)
next
  case (Network_iteration i)
  then show ?thesis
    using assms
    by (cases "network_iteration st i (c_net w)")
      (auto simp: network_iteration_def dest!: void_InrE dest: silent_poll split: if_splits)
qed (use assms in \<open>auto elim!: answer_InrE ptr_silent dest!: void_InrE
    dest: silent_stop silent_poll silent_send silent_broadcast silent_start_manual
    simp: kb_server_start_manual_def kb_server_stop_def kb_server_poll_def kb_server_send_raw_def kb_server_broadcast_raw_def
      kb_server_disconnect_def kb_server_is_running_def kb_server_port_def UdpServer_disconnect_def Let_def
    split: prod.splits\<close>)

lemma c_init_silent: "silent u (c_net (c_init u))"
  by (simp add: silent_def c_init_def udp_server_new_def)

section \<open>Whole programs\<close>

lemma run_silent:
  "run_events (c_exec st) evs w = Inr (as, w') \<Longrightarrow> silent u (c_net w) \<Longrightarrow> silent u (c_net w')"
proof (induction evs arbitrary: as w)
  case (Cons ev evs)
  obtain a as' w1 where s: "c_exec st ev w = Inr (a, w1)" and r: "run_events (c_exec st) evs w1 = Inr (as', w')"
    using Cons.prems(1) by (rule run_events_ConsE)
  show ?case by (rule Cons.IH [OF r c_exec_silent [OF s Cons.prems(2)]])
qed simp

lemma run_table:
  assumes "run_events (c_exec st) evs w = Inr (as, w')" and "c_ok w"
  shows "c_ok w' \<and> c_next w' = c_next w + count_list evs Create \<and>
    dom (c_servers w') = (dom (c_servers w) \<union> {c_next w ..< c_next w'}) - {p. Destroy (Some p) \<in> set evs}"
  using assms
proof (induction evs arbitrary: w as)
  case (Cons ev evs)
  obtain a as' w1 where s: "c_exec st ev w = Inr (a, w1)" and r: "run_events (c_exec st) evs w1 = Inr (as', w')"
    using Cons.prems(1) by (rule run_events_ConsE)
  have ok: "c_ok w1" using c_exec_table [OF s] Cons.prems(2) by blast
  note IH = Cons.IH [OF r ok] and step = c_exec_table [OF s]
  have below: "p < c_next w" if "p \<in> dom (c_servers w)" for p
    using that Cons.prems(2) by (auto simp: c_ok_def)
  have "dom (c_servers w') = (dom (c_servers w) \<union> {c_next w ..< c_next w'}) - {p. Destroy (Some p) \<in> set (ev # evs)}"
  proof (cases "\<exists>p. ev = Destroy (Some p)")
    case True
    then obtain p where p: "ev = Destroy (Some p)" by blast
    then have "dom (c_servers w1) = dom (c_servers w) - {p}" "c_next w1 = c_next w" "p < c_next w"
      using step below by auto
    with IH p show ?thesis by auto
  next
    case False
    have dest: "{p. Destroy (Some p) \<in> set (ev # evs)} = {p. Destroy (Some p) \<in> set evs}"
      using False by auto
    have "dom (c_servers w1) \<union> {c_next w1 ..< c_next w'} = dom (c_servers w) \<union> {c_next w ..< c_next w'}"
    proof (cases "ev = Create")
      case True
      with step IH show ?thesis by auto
    next
      case other: False
      then have "dom (c_servers w1) = dom (c_servers w)" using step False by (cases ev) auto
      with step other show ?thesis by simp
    qed
    with IH dest show ?thesis by simp
  qed
  with IH step ok show ?case by simp
qed simp

text \<open>Destroying on the application's thread.\<close>

lemma delete_returns:
  assumes "silent u v"
  obtains v' where "UdpServer_delete App_thread i v = Inr v'"
    and "server_history v' = server_history v @ (if us_is_running (servers v i) then stop_calls (servers v i) else [])"
    and "\<forall>j. j \<noteq> i \<longrightarrow> servers v' j = servers v j"
proof -
  have "\<not> us_is_running (servers v i) \<Longrightarrow> \<not> us_network_thread (servers v i)"
    using assms by (auto simp: silent_def)
  then show thesis
    by (cases "us_is_running (servers v i)"; cases "us_network_thread (servers v i)")
      (auto intro!: that simp: UdpServer_delete_def UdpServer_stop_def UdpServer_stop_begin_def stop_calls_def)
qed

text \<open>
  C8: The C interface implements the objects. For every sequence of C calls, interleaved with
  iterations of the network threads, the answers and faults are those of the specification that
  works on the \<^verbatim>\<open>UdpServer\<close> objects directly, and the states correspond.
\<close>

theorem c_api_refines_udp_server:
  "abs_result (run_events (c_exec st) evs (c_init u)) =
     run_events (spec_exec st) evs \<lparr>uo_live = {}, uo_next = 0, uo_net = c_net (c_init u)\<rparr>"
proof -
  have "c_abs (c_init u) = \<lparr>uo_live = {}, uo_next = 0, uo_net = c_net (c_init u)\<rparr>"
    by (simp add: c_abs_def c_init_def)
  then show ?thesis using run_refines [OF c_init_ok, of st evs u] by simp
qed

text \<open>
  C33: The life of a server handle. After any program over the C interface the handles that exist
  are those returned by \<^verbatim>\<open>kb_server_create\<close> and not destroyed since, each with an object of its own.
  Destroying one of them on the application's thread returns, closes its clients, socket and poll
  group exactly when it was running, leaves every other server as it was, and a second destroy of
  the same handle is a use after free.
\<close>

theorem c_server_lifetime:
  assumes "run_events (c_exec st) evs (c_init u) = Inr (as, w)"
  shows "dom (c_servers w) = {p. p < count_list evs Create \<and> Destroy (Some p) \<notin> set evs} \<and>
    (\<forall>p s. c_servers w p = Some s \<longrightarrow> m_impl s = Some p \<and>
      (\<exists>w'. kb_server_destroy App_thread (Some p) w = Inr ((), w') \<and>
        c_servers w' = (c_servers w)(p := None) \<and>
        server_history (c_net w') = server_history (c_net w) @
          (if us_is_running (servers (c_net w) p) then stop_calls (servers (c_net w) p) else []) \<and>
        (\<forall>i. i \<noteq> p \<longrightarrow> servers (c_net w') i = servers (c_net w) i) \<and>
        kb_server_destroy App_thread (Some p) w' = Inl Use_after_free))"
proof -
  have t: "c_ok w" "dom (c_servers w) = {p. p < count_list evs Create \<and> Destroy (Some p) \<notin> set evs}"
    using run_table [OF assms c_init_ok] by (auto simp: c_init_def)
  moreover have "\<exists>w'. kb_server_destroy App_thread (Some p) w = Inr ((), w') \<and>
        c_servers w' = (c_servers w)(p := None) \<and>
        server_history (c_net w') = server_history (c_net w) @
          (if us_is_running (servers (c_net w) p) then stop_calls (servers (c_net w) p) else []) \<and>
        (\<forall>i. i \<noteq> p \<longrightarrow> servers (c_net w') i = servers (c_net w) i) \<and>
        kb_server_destroy App_thread (Some p) w' = Inl Use_after_free" if p: "c_servers w p = Some s" for p s
  proof -
    obtain v where v: "UdpServer_delete App_thread p (c_net w) = Inr v"
      and "server_history v = server_history (c_net w) @
          (if us_is_running (servers (c_net w) p) then stop_calls (servers (c_net w) p) else [])"
      and "\<forall>j. j \<noteq> p \<longrightarrow> servers v j = servers (c_net w) j"
      by (rule delete_returns [OF run_silent [OF assms c_init_silent], where i = p])
    moreover have "p \<in> uo_live (c_abs w)" using p by (auto simp: c_abs_def)
    then have a: "abs_result (kb_server_destroy App_thread (Some p) w) = Inr ((), forget (Some p) ((c_abs w)\<lparr>uo_net := v\<rparr>))"
      using destroy_refines [OF t(1), of App_thread p] v by (simp add: on_object_def c_abs_def)
    then obtain w' where w': "kb_server_destroy App_thread (Some p) w = Inr ((), w')" and "c_net w' = v"
      by (cases "kb_server_destroy App_thread (Some p) w") (auto simp: c_abs_def forget_def)
    moreover have "kb_server_destroy App_thread (Some p) w' = Inl Use_after_free"
      by (simp add: kb_server_destroy_def kb_server_stop_def on_impl_def destroy_table(1) [OF w'])
    ultimately show ?thesis using destroy_table(1) [OF w'] by blast
  qed
  ultimately show ?thesis using t(1) by (auto simp: c_ok_def)
qed

definition sample_program :: "c_event list" where
  "sample_program = [Create, Create, Start_manual (Some 0) 27015, Destroy (Some 1)]"

lemma sample_program_run:
  "\<exists>as w. run_events (c_exec (sample_steam [] [])) sample_program (c_init (0 :: nat)) = Inr (as, w) \<and>
     us_is_running (servers (c_net w) 0) \<and> us_listen_socket (servers (c_net w) 0) = 1 \<and>
     us_poll_group (servers (c_net w) 0) = 1 \<and> us_clients (servers (c_net w) 0) = []"
  by (simp add: sample_program_def kb_server_create_def kb_server_start_manual_def kb_server_destroy_def
      kb_server_stop_def on_impl_def Let_def c_init_def UdpServer_start_manual_def UdpServer_new_def
      udp_server_new_def UdpServer_delete_def UdpServer_stop_def UdpServer_stop_begin_def
      sample_steam_simps handle_defs server_history_def
      live_poll_groups_def live_sockets_def)

theorem c_server_lifetime_witness:
  "\<exists>as w w'. run_events (c_exec (sample_steam [] [])) sample_program (c_init (0 :: nat)) = Inr (as, w) \<and>
     dom (c_servers w) = {0} \<and> kb_server_destroy App_thread (Some 0) w = Inr ((), w') \<and>
     server_history (c_net w') = server_history (c_net w) @ [CloseListenSocket 1, DestroyPollGroup 1]"
proof -
  obtain as w where run: "run_events (c_exec (sample_steam [] [])) sample_program (c_init (0 :: nat)) = Inr (as, w)"
    and s: "us_is_running (servers (c_net w) 0)" "us_listen_socket (servers (c_net w) 0) = 1"
      "us_poll_group (servers (c_net w) 0) = 1" "us_clients (servers (c_net w) 0) = []"
    using sample_program_run by blast
  note life = c_server_lifetime [OF run]
  have "{p. p < count_list sample_program Create \<and> Destroy (Some p) \<notin> set sample_program} = {0}"
    by (auto simp: sample_program_def less_Suc_eq)
  with life have dom: "dom (c_servers w) = {0}" by simp
  then obtain x where x: "c_servers w 0 = Some x" by blast
  have "stop_calls (servers (c_net w) 0) = [CloseListenSocket 1, DestroyPollGroup 1]"
    using s by (simp add: stop_calls_def map_keys_def)
  with conjunct2 [OF life, rule_format, OF x] s(1) dom run show ?thesis by auto
qed

text \<open>
  A server made through the C interface never hands anything to the application: the functions
  that would set its callbacks do not exist. After any program, including the iterations of the
  network threads, the state of the application is untouched; a message of any client is dropped,
  a connected client is not announced, and a closed connection is only closed.
\<close>

lemma c_server_discards_data:
  assumes "run_events (c_exec st) evs (c_init u) = Inr (as, w)"
  shows "app (senv (c_net w)) = u \<and> UdpServer_deliver i m (c_net w) = Inr (c_net w) \<and>
    UdpServer_notify_connected i (client, c_net w) = Inr (c_net w) \<and>
    UdpServer_on_closed i ev (c_net w) = Inr (server_log (CloseConnection (sc_hConn ev) 0 None False) (c_net w))"
proof -
  have "silent u (c_net w)" by (rule run_silent [OF assms c_init_silent])
  then show ?thesis
    by (simp add: silent_deliver) (simp add: silent_def UdpServer_notify_connected_def UdpServer_on_closed_def Let_def)
qed

definition serving_program :: "c_event list" where
  "serving_program = [Create, Start_async (Some 0) 27015, Network_iteration 0]"

lemma serving_program_run:
  "\<exists>as w. run_events (c_exec (sample_steam [] [\<lparr>sc_hConn = 5, sc_eState = State_Connecting, sc_eOldState = State_None\<rparr>]))
       serving_program (c_init (3 :: nat)) = Inr (as, w) \<and>
     UdpServer_get_client_info 0 5 (c_net w) \<noteq> None"
  by (simp add: serving_program_def kb_server_create_def kb_server_start_async_def on_impl_def Let_def c_init_def
      UdpServer_start_async_def UdpServer_start_manual_def UdpServer_new_def udp_server_new_def
      sample_steam_simps handle_defs server_history_def live_poll_groups_def live_sockets_def
      network_iteration_def UdpServer_poll_def server_message_loop.simps first_time_def
      UdpServer_connection_status_changed_callback_def UdpServer_on_connection_status_changed_def
      UdpServer_on_connecting_def UdpServer_add_client_def UdpServer_notify_connected_def UdpServer_get_client_info_def u32_count_def)

lemma c_server_discards_data_witness:
  "\<exists>as w. run_events (c_exec (sample_steam [] [\<lparr>sc_hConn = 5, sc_eState = State_Connecting, sc_eOldState = State_None\<rparr>]))
       serving_program (c_init (3 :: nat)) = Inr (as, w) \<and>
     UdpServer_get_client_info 0 5 (c_net w) \<noteq> None \<and>
     UdpServer_deliver 0 \<lparr>sm_conn = 5, sm_data = [1, 2]\<rparr> (c_net w) = Inr (c_net w)"
proof -
  obtain as w where run: "run_events (c_exec (sample_steam [] [\<lparr>sc_hConn = 5, sc_eState = State_Connecting, sc_eOldState = State_None\<rparr>]))
       serving_program (c_init (3 :: nat)) = Inr (as, w)" and "UdpServer_get_client_info 0 5 (c_net w) \<noteq> None"
    using serving_program_run by blast
  with c_server_discards_data [OF run] show ?thesis by blast
qed

section \<open>The life cycle of the library\<close>

lemma lifecycle_running:
  "s_initialized r \<Longrightarrow> lifecycle steam_init cs r =
     Inr (r\<lparr>runtime_calls := runtime_calls r @
       concat (replicate (count_list cs Shutdown) [GameNetworkingSockets_Kill, Logger_shutdown])\<rparr>)"
proof (induction cs arbitrary: r)
  case (Cons c cs)
  then show ?case
    by (cases c) (simp_all add: kb_networking_init_def kb_networking_shutdown_def runtime_call_def)
qed simp

text \<open>
  C37: What \<^verbatim>\<open>kb_networking_init\<close> and \<^verbatim>\<open>kb_networking_shutdown\<close> do over the life of a process, for every
  sequence of calls. A shutdown before the first init does nothing; the first init starts logger and
  Steam, or aborts the process when Steam does not start; later inits do nothing, even after a
  shutdown; and every shutdown from then on kills Steam and the logger again.
\<close>

theorem networking_lifecycle:
  "lifecycle steam_init cs runtime_start =
     (if Init \<notin> set cs then Inr runtime_start
      else if \<not> steam_init [Logger_init] then Inl Abort_called
      else Inr \<lparr>s_initialized = True,
                runtime_calls = [Logger_init, GameNetworkingSockets_Init] @
                  concat (replicate (count_list (dropWhile (\<lambda>c. c \<noteq> Init) cs) Shutdown)
                    [GameNetworkingSockets_Kill, Logger_shutdown])\<rparr>)"
proof (induction cs)
  case (Cons c cs)
  then show ?case
    by (cases c) (simp_all add: kb_networking_init_def kb_networking_shutdown_def runtime_call_def runtime_start_def
        lifecycle_running)
qed simp

end
