(* ===== verification/Spec2Isabelle.thy ===== *)
theory Spec2Isabelle
  imports Async_Lookup Message_Stream Fine_Server Fine_Client Payload_Lifetime Concurrency_Properties Reentrant_Properties Reentrant_Client C_Properties
begin

text \<open>
  Verification development for kb-networking-cpp, a packet library over Valve's
  GameNetworkingSockets (below: Steam). Paths are under \<^verbatim>\<open>src/src/kb/\<close> unless they begin with
  \<^verbatim>\<open>include/\<close>.

  \<^bold>\<open>The program.\<close> Packets have a header of eight bytes (three magic bytes, the serialization, the
  type) and a payload made by one of two serializers. \<^verbatim>\<open>UdpServer\<close> and \<^verbatim>\<open>UdpClient\<close> own connections of
  Steam: a network thread polls for messages and connection events, which reach the object through
  callbacks; events go through a static pointer of each class. \<^verbatim>\<open>UdpPacketServer\<close> and
  \<^verbatim>\<open>UdpPacketClient\<close> own one of these, parse the header and dispatch the payload to the handler bound
  for its type. \<^verbatim>\<open>AsyncUdpPacketClient\<close> owns a packet client and gives packets to coroutines that wait
  for them, before the handlers see them. A C interface wraps \<^verbatim>\<open>UdpServer\<close>.

  \<^bold>\<open>Theories.\<close> In the order of their imports:
  \<^item> \<open>Prelude\<close>: machine integers (\<^verbatim>\<open>types.h\<close>), the faults an execution can end in, the result type,
    byte buffers with checked access. \<open>Std_Map\<close>: \<^verbatim>\<open>std::map\<close> and \<^verbatim>\<open>std::queue\<close>, with a locale of the map laws.
  \<^item> \<open>Network_Types\<close>: \<^verbatim>\<open>include/kb/net/kb_network_types.h\<close>, \<^verbatim>\<open>net/network_types.h\<close>, \<^verbatim>\<open>network_types.cpp\<close>,
    \<^verbatim>\<open>network_utils.cpp\<close>. \<open>Packet\<close>: \<^verbatim>\<open>net/udp/packet.hpp\<close> and the header writer of
    \<^verbatim>\<open>net/serde/base_packet_serializer.hpp\<close>. \<open>Serializers\<close>: \<^verbatim>\<open>binary_packet_serializer.hpp\<close>,
    \<^verbatim>\<open>msgpack_packet_serializer.hpp\<close>, \<^verbatim>\<open>udp/serde.hpp\<close>; the contract both meet is the locale \<open>packet_codec\<close>.
  \<^item> \<open>Third_Party\<close>: the libraries as parameters, and what a proof may ask of them. \<open>Sample_Steam\<close>: one
    behaviour of Steam that satisfies it, for the witnesses.
  \<^item> \<open>Udp_Server\<close>: \<^verbatim>\<open>net/udp/server/udp_server.hpp\<close>, \<^verbatim>\<open>.cpp\<close>. \<open>Udp_Server_Correct\<close>: each loop as a recursion
    over lists, what a poll leaves alone, the ways a start ends. \<open>Server_System\<close>: servers, application
    thread and network threads as a step relation, with its invariant.
  \<^item> \<open>Udp_Client\<close>, \<open>Udp_Client_Correct\<close>, \<open>Client_System\<close>: the same for \<^verbatim>\<open>net/udp/client/udp_client.hpp\<close>, \<^verbatim>\<open>.cpp\<close>.
  \<^item> \<open>Handler_Registry\<close>: the contract of a handler table as a locale. \<open>Packet_Server\<close>:
    \<^verbatim>\<open>udp_packet_server.hpp\<close>, \<^verbatim>\<open>.inl\<close>. \<open>Packet_Client\<close>: \<^verbatim>\<open>udp_packet_client.hpp\<close>, \<^verbatim>\<open>.inl\<close>. Both interpret it.
  \<^item> \<open>Async_Client\<close>: \<^verbatim>\<open>async_udp_packet_client.hpp\<close>, \<^verbatim>\<open>.inl\<close>. \<open>Udp_Factories\<close>: \<^verbatim>\<open>net/udp/udp.hpp\<close>.
  \<^item> \<open>C_Api\<close>: \<^verbatim>\<open>include/kb/net/kb_server.h\<close>, \<^verbatim>\<open>net/udp/kb_server.cpp\<close> and \<^verbatim>\<open>kb_networking.cpp\<close>, and the
    specification the C functions refine.
  \<^item> \<open>Interleaving\<close>: member functions cut between the lookup of a table entry and its use, with the
    operations another thread may run there; the shape they share is the locale \<open>lookup_then_use\<close>.
    \<open>Fine_Server\<close>, \<open>Fine_Client\<close>: one server and one client with each step of \<^verbatim>\<open>poll\<close> and of the static
    callback on its own, and the application between any two (their properties stand there; the lemmas
    \<open>fine_poll\<close> and \<open>cl_poll_run\<close> say that the steps of a poll together are \<^verbatim>\<open>poll\<close>); \<open>Step_Loop\<close> is the
    locale by which both loops come to their end. \<open>Payload_Lifetime\<close>: the async client with the spans
    of the binary serializer and the lifetime of Steam's messages, refining \<open>Async_Client\<close>.
    \<open>Async_Lookup\<close>: the packet handler of the async client cut where it releases its lock, with the
    coroutines in between (its property stands there).
    \<open>Reentrant_Server\<close>, \<open>Reentrant_Client\<close>: \<^verbatim>\<open>poll\<close> with callbacks that call back, as scripts; the lemmas
    \<open>reentrant_poll_plain\<close> and \<open>reentrant_client_poll_plain\<close> tie them to \<open>Udp_Server\<close> and \<open>Udp_Client\<close>.
  \<^item> The properties: \<open>Wire_Properties\<close> (header and serializers), \<open>Server_Properties\<close>, \<open>Client_Properties\<close>,
    \<open>Packet_Properties\<close> (dispatch), \<open>Async_Properties\<close>, \<open>C_Properties\<close>, \<open>Concurrency_Properties\<close> (what the
    interleavings do), \<open>Reentrant_Properties\<close> (which callbacks are safe), and for what spans several
    objects \<open>End_To_End\<close> (one packet and its answer) and \<open>Message_Stream\<close> (a whole list of objects over
    many polls).

  \<^bold>\<open>How the code is modelled.\<close> A class is a record of its members; the objects of a class are a
  function from indices to records, and \<open>this\<close> is an index. A member function takes \<open>this\<close> and the
  world and returns the world. The result type of a function that can leave defined behaviour is
  \<open>fault + 'a\<close>: reading an array slot that was never written, a dangling or null pointer, a failed
  assertion, an abort, an exception that leaves a \<^verbatim>\<open>noexcept\<close> function, a joinable thread destroyed.
  Steam's answers are arbitrary functions of the history of calls, so nothing is assumed of them
  but the predicates named in \<open>Third_Party\<close> and, for delivery in order, \<open>steam_stream\<close>. A callback of
  the application may fault and acts on the history and on the application's own state; those that
  call back into the object that runs them are the scripts of \<open>Reentrant_Server\<close> and \<open>Reentrant_Client\<close>.
  A serializer has one type of objects per use; the packet type is a number as in the code.

  \<^bold>\<open>Threads.\<close> The steps of \<open>Server_System\<close> and \<open>Client_System\<close> are the operations of the application
  and the iterations of the network loops, each atomic; \<^verbatim>\<open>stop\<close> is cut at its join. The async client
  is cut where a coroutine suspends, and in \<open>Async_Lookup\<close> also between the lookup of an awaiter, the write
  of the payload and the set of its event, where a coroutine that resumes leaves a dangling pointer. \<open>Interleaving\<close> cuts the dispatch of packet server and packet client and
  the delivery of \<^verbatim>\<open>UdpServer\<close> at the point where they hold a pointer into a table and no lock; there
  the other thread may run any list of its operations. \<open>Fine_Server\<close> and \<open>Fine_Client\<close> cut a whole poll:
  what \<open>Server_System\<close> and \<open>Client_System\<close> prove of atomic polls, that they never fault and that \<^verbatim>\<open>stop\<close>
  comes to its end, is true at that grain but for the places each of them names: the two reads of \<^verbatim>\<open>s_instance\<close>, the
  test and the call of the data callback, and, in the server, the lookup and the use of a client. Handling
  one event, and one operation of the application, stays one step there. Each operation of a \<^verbatim>\<open>std::unordered_map\<close> and
  \<^verbatim>\<open>std::map\<close> is still one step: races inside the containers are not modelled.

  \<^bold>\<open>Loops and bounds.\<close> Every loop of the program is a terminating function: those over messages are
  bounded by the count, at most 32 on the server and 16 on the client; the wait of the asynchronous
  connect by 20 sleeps. The network loops, which run until they are stopped, are steps. No fuel is used;
  \<open>fine_run\<close> and \<open>cl_run\<close> count steps, and their theorems say that some number of steps is enough.

  \<^bold>\<open>Events.\<close> Nothing is assumed of the events Steam delivers: they may be stale or about connections of
  others. What a client guarantees is therefore only that its handle, if any, exists in Steam;
  \<open>client_stale_close_leaks\<close> shows what a closing event about another connection does to it.
  \<^verbatim>\<open>RunCallbacks\<close> serves the whole process. In the model it delivers to a server or client the events of its own
  class; that a server's thread also runs the client's callback, and the reverse, in a process that has both, is
  not modelled.

  \<^bold>\<open>Not modelled.\<close> Logging; sleeping; the reuse of addresses: an object of the C interface, an event of a
  coroutine and a server or client have an identity of their own, so a dangling pointer never meets a
  new object (\<^verbatim>\<open>i32\<close> is an unbounded \<open>int\<close>: the program does no arithmetic on it, and the counts Steam
  returns in it wrap when they are stored in a \<^verbatim>\<open>u32\<close> or \<^verbatim>\<open>size_t\<close>); the lanes and options of Steam beyond the callback registration;
  memory release by \<^verbatim>\<open>OwningBuffer\<close> and of msgpack's buffer; the coroutine runtime and thread pool of
  libcoro; the C client interface (\<^verbatim>\<open>include/kb/net/kb_client.h\<close>), \<^verbatim>\<open>kb_server_set_callbacks\<close>,
  \<^verbatim>\<open>kb_networking_get_version\<close> and \<^verbatim>\<open>kb_free\<close>, which are declared and defined nowhere; the Rust
  example; the tests; the build files.
\<close>

end
